(* ===== verification/Prelude.thy ===== *)
theory Prelude
  imports
    Main
    "HOL-Library.Word"
    "HOL-Library.Multiset"
    "HOL-Library.List_Lexorder"
    "HOL-Library.Product_Lexorder"
begin

unbundle bit_operations_syntax

section \<open>Prelude: results, exceptions, loops, Python sequences\<close>

text \<open>
  What every component of the development shares:
  \<^item> the exceptions the program raises, as a datatype, and results as \<open>exn + 'a\<close>
    (\<open>Inl\<close> an exception, \<open>Inr\<close> a value), with the sequencing operator \<open>rbind\<close> and the
    loop operators \<open>mapM_r\<close> and \<open>foldM_r\<close> (a \<open>for\<close> loop that may raise);
  \<^item> Python's slices and slice assignments on sequences, negative and out-of-range bounds
    included, because the translators rely on them (a slice assignment of a different length
    resizes a \<open>bytearray\<close>);
  \<^item> generic lemmas on lists and integers the component proofs use.
\<close>

named_theorems result_iff \<open>when a sequenced computation returns, and what\<close>
named_theorems slice_simps \<open>lengths and contents of slices\<close>

subsection \<open>Types\<close>

type_synonym u8 = "8 word"
type_synonym bytes = "u8 list"

text \<open>A Python \<open>str\<close> is the list of its code points; \<open>lit\<close> reads an ASCII literal.\<close>

type_synonym pystr = "nat list"

definition lit :: "string \<Rightarrow> pystr" where
  "lit s = map of_char s"

lemma lit_simps: "lit [] = []" "lit (c # cs) = of_char c # lit cs"
  by (simp_all add: lit_def)

lemma length_lit [simp]: "length (lit s) = length s"
  by (simp add: lit_def)

lemma lit_eq_iff [simp]: "lit s = lit t \<longleftrightarrow> s = t"
proof -
  have "inj (of_char :: char \<Rightarrow> nat)" by (rule inj_of_char)
  then show ?thesis by (simp add: lit_def inj_map_eq_map)
qed

lemma lit_ascii: "list_all (\<lambda>c. of_char c < (128::nat)) s \<Longrightarrow> list_all (\<lambda>c. c < 128) (lit s)"
  by (simp add: lit_def list_all_iff)

lemma lit_append: "lit (s @ t) = lit s @ lit t"
  by (simp add: lit_def)

subsection \<open>Exceptions and results\<close>

text \<open>
  One constructor per exception class the program raises or lets escape; \<open>reason\<close> names the
  \<open>raise\<close> statement (the message) inside a class.
\<close>

datatype reason =
    Not_An_Elf_File | Only_Elf64 | Only_Little_Endian
  | Needs_AArch64 | Needs_Et_Dyn | No_Pt_Load | First_Load_Not_Rx_At_Zero
  | Target_Not_File_Backed int
  | Unsupported_Relocation int int
  | Bad_Symbol_Index int
  | Load_Commands_Too_Large
  | Negative_Uleb128
  | Segment_Index_Too_Large
  | Bad_Dylib_Ordinal
  | Too_Many_Trie_Children
  | Trie_Layout_Diverged

datatype exn =
    ElfError reason
  | TranslateError reason
  | Phase3Error reason
  | ValueError reason
  | StructError
  | OverflowError
  | IndexError
  | UnicodeEncodeError
  | BadIntLiteral
  | FileNotFoundError
  | UnicodeDecodeError
  | ApkError
  | BadZipFile
  | KeyError

type_synonym 'a result = "exn + 'a"

fun rbind :: "'a result \<Rightarrow> ('a \<Rightarrow> 'b result) \<Rightarrow> 'b result" where
  "rbind (Inl e) f = Inl e"
| "rbind (Inr x) f = f x"

definition rmap :: "('a \<Rightarrow> 'b) \<Rightarrow> 'a result \<Rightarrow> 'b result" where
  "rmap f m = rbind m (\<lambda>x. Inr (f x))"

text \<open>\<open>if not c: raise e\<close>\<close>

definition require :: "bool \<Rightarrow> exn \<Rightarrow> unit result" where
  "require c e = (if c then Inr () else Inl e)"

fun mapM_r :: "('a \<Rightarrow> 'b result) \<Rightarrow> 'a list \<Rightarrow> 'b list result" where
  "mapM_r f [] = Inr []"
| "mapM_r f (x # xs) = rbind (f x) (\<lambda>y. rbind (mapM_r f xs) (\<lambda>ys. Inr (y # ys)))"

fun foldM_r :: "('s \<Rightarrow> 'a \<Rightarrow> 's result) \<Rightarrow> 's \<Rightarrow> 'a list \<Rightarrow> 's result" where
  "foldM_r f s [] = Inr s"
| "foldM_r f s (x # xs) = rbind (f s x) (\<lambda>s'. foldM_r f s' xs)"

lemma rbind_Inr_iff [result_iff]:
  "rbind m f = Inr y \<longleftrightarrow> (\<exists>x. m = Inr x \<and> f x = Inr y)"
  by (cases m) auto

lemma rbind_Inl_iff [result_iff]:
  "rbind m f = Inl e \<longleftrightarrow> m = Inl e \<or> (\<exists>x. m = Inr x \<and> f x = Inl e)"
  by (cases m) auto

lemma rmap_Inr_iff [result_iff]: "rmap f m = Inr y \<longleftrightarrow> (\<exists>x. m = Inr x \<and> y = f x)"
  by (auto simp: rmap_def rbind_Inr_iff)

lemma rmap_simps [simp]: "rmap f (Inr x) = Inr (f x)" "rmap f (Inl e) = Inl e"
  by (simp_all add: rmap_def)

lemma require_Inr_iff [result_iff]: "require c e = Inr u \<longleftrightarrow> c"
  by (simp add: require_def)

lemma require_Inl_iff [result_iff]: "require c e = Inl e' \<longleftrightarrow> \<not> c \<and> e' = e"
  by (auto simp: require_def)

lemma require_simps [simp]: "require True e = Inr ()" "require False e = Inl e"
  by (simp_all add: require_def)

lemma rbind_assoc: "rbind (rbind m f) g = rbind m (\<lambda>x. rbind (f x) g)"
  by (cases m) auto

lemma rbind_cong [fundef_cong]:
  "m = m' \<Longrightarrow> (\<And>x. m' = Inr x \<Longrightarrow> f x = g x) \<Longrightarrow> rbind m f = rbind m' g"
  by (cases m') auto

lemma mapM_r_Inr_iff:
  "mapM_r f xs = Inr ys \<longleftrightarrow> list_all2 (\<lambda>x y. f x = Inr y) xs ys"
proof (induction xs arbitrary: ys)
  case Nil
  then show ?case by auto
next
  case (Cons x xs)
  then show ?case by (cases ys) (auto simp: result_iff)
qed

lemma mapM_r_length: "mapM_r f xs = Inr ys \<Longrightarrow> length ys = length xs"
  by (auto simp: mapM_r_Inr_iff dest: list_all2_lengthD)

lemma list_all2_elem:
  assumes "list_all2 P xs ys" and "y \<in> set ys"
  shows "\<exists>x \<in> set xs. P x y"
proof -
  obtain i where "i < length ys" "y = ys ! i" using assms(2) by (auto simp: in_set_conv_nth)
  then have "i < length xs" "P (xs ! i) y" using assms(1) by (auto simp: list_all2_conv_all_nth)
  then show ?thesis by auto
qed

lemma mapM_r_total:
  assumes "\<And>x. x \<in> set xs \<Longrightarrow> f x = Inr (g x)"
  shows "mapM_r f xs = Inr (map g xs)"
  using assms by (induction xs) auto

lemma mapM_r_all:
  assumes "mapM_r f xs = Inr ys" and "\<And>x y. x \<in> set xs \<Longrightarrow> f x = Inr y \<Longrightarrow> P y"
  shows "\<forall>y \<in> set ys. P y"
proof
  fix y assume "y \<in> set ys"
  then obtain i where i: "i < length ys" "y = ys ! i" by (auto simp: in_set_conv_nth)
  have all: "list_all2 (\<lambda>x y. f x = Inr y) xs ys" using assms(1) by (simp add: mapM_r_Inr_iff)
  then have "xs ! i \<in> set xs" and "f (xs ! i) = Inr y"
    using i by (auto simp: list_all2_conv_all_nth)
  then show "P y" by (rule assms(2))
qed

lemma length_concat_le: "\<forall>e \<in> set es. length e \<le> n \<Longrightarrow> length (concat es) \<le> n * length es"
  by (induction es) (auto simp del: length_concat)

lemma rbind_Inr [simp]: "rbind m Inr = m"
  by (cases m) simp_all

lemma mapM_r_append:
  "mapM_r f (xs @ ys) = rbind (mapM_r f xs) (\<lambda>as. rbind (mapM_r f ys) (\<lambda>bs. Inr (as @ bs)))"
  by (induction xs) (simp_all add: rbind_assoc)

lemma foldM_r_append:
  "foldM_r f s (xs @ ys) = rbind (foldM_r f s xs) (\<lambda>s'. foldM_r f s' ys)"
  by (induction xs arbitrary: s) (auto simp: rbind_assoc)

text \<open>The invariant rule of a raising loop.\<close>

lemma foldM_r_invariant:
  assumes "foldM_r f s xs = Inr t" and "P s"
    and "\<And>s x s'. x \<in> set xs \<Longrightarrow> P s \<Longrightarrow> f s x = Inr s' \<Longrightarrow> P s'"
  shows "P t"
  using assms by (induction xs arbitrary: s) (auto simp: result_iff)

text \<open>The same with the list of items already consumed, for invariants that mention it.\<close>

lemma foldM_r_prefix:
  assumes "foldM_r f s xs = Inr t" and "P [] s"
    and "\<And>done x rest s s'. xs = done @ x # rest \<Longrightarrow> P done s \<Longrightarrow> f s x = Inr s' \<Longrightarrow> P (done @ [x]) s'"
  shows "P xs t"
proof -
  have "P (done @ ys) t" if "foldM_r f s ys = Inr t" "P done s" "xs = done @ ys" for "done" s ys
    using that
  proof (induction ys arbitrary: "done" s)
    case Nil
    then show ?case by simp
  next
    case (Cons y ys)
    obtain s1 where s1: "f s y = Inr s1" "foldM_r f s1 ys = Inr t"
      using Cons.prems(1) by (auto simp: result_iff)
    have "P (done @ [y]) s1" by (rule assms(3)[OF Cons.prems(3,2) s1(1)])
    then show ?case using Cons.IH[OF s1(2), of "done @ [y]"] Cons.prems(3) by simp
  qed
  from this[of s xs "[]"] show ?thesis using assms(1,2) by simp
qed

lemma foldM_r_history:
  assumes "foldM_r f s xs = Inr t" and "P [] s"
    and "\<And>done s x s'. x \<in> set xs \<Longrightarrow> P done s \<Longrightarrow> f s x = Inr s' \<Longrightarrow> P (done @ [x]) s'"
  shows "P xs t"
  by (rule foldM_r_prefix[where P = P, OF assms(1,2)]) (use assms(3) in auto)

subsection \<open>Python sequences\<close>

text \<open>A slice bound: a negative one counts from the end; both ends are clipped to the sequence.\<close>

definition slice_bound :: "int \<Rightarrow> int \<Rightarrow> int" where
  "slice_bound n i = (if i < 0 then max 0 (i + n) else min i n)"

text \<open>\<open>xs[i:j]\<close>\<close>

definition py_slice :: "'a list \<Rightarrow> int \<Rightarrow> int \<Rightarrow> 'a list" where
  "py_slice xs i j =
     (let n = int (length xs); a = slice_bound n i; b = slice_bound n j
      in take (nat (b - a)) (drop (nat a) xs))"

text \<open>\<open>xs[i:j] = ys\<close> on a list or a \<open>bytearray\<close>: the replacement may have another length.\<close>

definition py_slice_assign :: "'a list \<Rightarrow> int \<Rightarrow> int \<Rightarrow> 'a list \<Rightarrow> 'a list" where
  "py_slice_assign xs i j ys =
     (let n = int (length xs); a = slice_bound n i; b = slice_bound n j
      in take (nat a) xs @ ys @ drop (nat (max a b)) xs)"

lemma slice_bound_nonneg [simp]: "0 \<le> slice_bound n i \<longleftrightarrow> 0 \<le> i \<and> 0 \<le> n \<or> i < 0"
  by (auto simp: slice_bound_def)

lemma slice_bound_id [simp]: "0 \<le> i \<Longrightarrow> i \<le> n \<Longrightarrow> slice_bound n i = i"
  by (simp add: slice_bound_def)

lemma py_slice_nonneg:
  assumes "0 \<le> i" and "0 \<le> j"
  shows "py_slice xs i j = take (nat (j - i)) (drop (nat i) xs)"
proof (cases "i \<le> int (length xs)")
  case True
  then show ?thesis using assms
    by (cases "j \<le> int (length xs)") (auto simp: py_slice_def Let_def slice_bound_def min_def)
next
  case False
  then show ?thesis using assms
    by (auto simp: py_slice_def Let_def slice_bound_def min_def)
qed

lemma length_py_slice [slice_simps]:
  assumes "0 \<le> i" and "i \<le> j" and "j \<le> int (length xs)"
  shows "length (py_slice xs i j) = nat (j - i)"
  using assms by (simp add: py_slice_nonneg)

lemma nth_py_slice:
  assumes "0 \<le> i" and "i \<le> j" and "j \<le> int (length xs)" and "k < nat (j - i)"
  shows "py_slice xs i j ! k = xs ! (nat i + k)"
  using assms by (simp add: py_slice_nonneg)

text \<open>An assignment of a slice of the same length, inside the sequence, is a patch in place.\<close>

lemma py_slice_assign_patch:
  assumes "0 \<le> i" and "j = i + int (length ys)" and "j \<le> int (length xs)"
  shows "py_slice_assign xs i j ys = take (nat i) xs @ ys @ drop (nat i + length ys) xs"
  using assms by (simp add: py_slice_assign_def Let_def nat_add_distrib)

lemma length_py_slice_assign [slice_simps]:
  assumes "0 \<le> i" and "j = i + int (length ys)" and "j \<le> int (length xs)"
  shows "length (py_slice_assign xs i j ys) = length xs"
  using assms by (simp add: py_slice_assign_patch)

lemma nth_patch:
  assumes "i + length ys \<le> length xs" and "k < length xs"
  shows "(take i xs @ ys @ drop (i + length ys) xs) ! k
    = (if i \<le> k \<and> k < i + length ys then ys ! (k - i) else xs ! k)"
  using assms by (auto simp: nth_append min_def)

lemma nth_py_slice_assign:
  assumes "0 \<le> i" and "j = i + int (length ys)" and "j \<le> int (length xs)" and "k < length xs"
  shows "py_slice_assign xs i j ys ! k
    = (if nat i \<le> k \<and> k < nat i + length ys then ys ! (k - nat i) else xs ! k)"
proof -
  have "nat i + length ys \<le> length xs" using assms by linarith
  then show ?thesis using assms(4)
    by (simp only: py_slice_assign_patch[OF assms(1-3)] nth_patch)
qed

text \<open>Overwriting right behind a prefix.\<close>

lemma py_slice_assign_behind:
  assumes "xs = pre @ rest" and "i = int (length pre)" and "j = i + int (length ys)"
    and "length ys \<le> length rest"
  shows "py_slice_assign xs i j ys = pre @ ys @ drop (length ys) rest"
  using assms by (subst py_slice_assign_patch) auto

text \<open>\<open>b"\0" * n\<close>: a negative count gives the empty sequence.\<close>

definition zeros :: "int \<Rightarrow> bytes" where
  "zeros n = replicate (nat n) 0"

lemma length_zeros [simp]: "length (zeros n) = nat n"
  by (simp add: zeros_def)

lemma nth_zeros [simp]: "k < nat n \<Longrightarrow> zeros n ! k = 0"
  by (simp add: zeros_def)

lemma zeros_nonpos [simp]: "n \<le> 0 \<Longrightarrow> zeros n = []"
  by (simp add: zeros_def)

text \<open>\<open>sorted(set)\<close>: the distinct elements in ascending order.\<close>

definition sorted_set :: "'a::linorder list \<Rightarrow> 'a list" where
  "sorted_set xs = sort (remdups xs)"

lemma set_sorted_set [simp]: "set (sorted_set xs) = set xs"
  by (simp add: sorted_set_def)

lemma distinct_sorted_set [simp]: "distinct (sorted_set xs)"
  by (simp add: sorted_set_def)

lemma sorted_sorted_set [simp]: "sorted (sorted_set xs)"
  by (simp add: sorted_set_def)

lemma length_sorted_set: "length (sorted_set xs) = card (set xs)"
  by (simp add: sorted_set_def length_remdups_card_conv)

text \<open>\<open>s.startswith(p)\<close> and \<open>s.endswith(p)\<close>\<close>

definition starts_with :: "'a list \<Rightarrow> 'a list \<Rightarrow> bool" where
  "starts_with s p \<longleftrightarrow> take (length p) s = p"

definition ends_with :: "'a list \<Rightarrow> 'a list \<Rightarrow> bool" where
  "ends_with s p \<longleftrightarrow> length p \<le> length s \<and> drop (length s - length p) s = p"

lemma starts_with_append: "starts_with s p \<longleftrightarrow> (\<exists>r. s = p @ r)"
  by (auto simp: starts_with_def) (metis append_take_drop_id)

lemma ends_with_append: "ends_with s p \<longleftrightarrow> (\<exists>r. s = r @ p)"
  by (auto simp: ends_with_def) (metis append_take_drop_id)

subsection \<open>Counters\<close>

text \<open>
  A \<open>collections.Counter\<close> as an association list in insertion order, as Python's \<open>dict\<close> keeps
  it: \<open>counts[k] += 1\<close>.
\<close>

fun bump :: "'k \<Rightarrow> ('k \<times> int) list \<Rightarrow> ('k \<times> int) list" where
  "bump k [] = [(k, 1)]"
| "bump k ((k', n) # m) = (if k = k' then (k', n + 1) # m else (k', n) # bump k m)"

definition count_all :: "'k list \<Rightarrow> ('k \<times> int) list" where
  "count_all ks = fold bump ks []"

lemma fst_bump: "fst ` set (bump k m) = insert k (fst ` set m)"
  by (induction k m rule: bump.induct) auto

lemma distinct_bump: "distinct (map fst m) \<Longrightarrow> distinct (map fst (bump k m))"
proof (induction k m rule: bump.induct)
  case (2 k k' n m)
  moreover have "k \<noteq> k' \<Longrightarrow> k' \<notin> fst ` set m \<Longrightarrow> k' \<notin> fst ` set (bump k m)"
    by (simp add: fst_bump)
  ultimately show ?case by auto
qed simp

lemma map_of_bump:
  "map_of (bump k m) = (map_of m)(k \<mapsto> (case map_of m k of None \<Rightarrow> 1 | Some n \<Rightarrow> n + 1))"
  by (induction k m rule: bump.induct) (auto simp: fun_eq_iff)

lemma map_of_fold_bump:
  "map_of (fold bump ks m) k =
     (if k \<in> set ks then Some ((case map_of m k of None \<Rightarrow> 0 | Some n \<Rightarrow> n) + int (count_list ks k))
      else map_of m k)"
  by (induction ks arbitrary: m) (auto simp: map_of_bump split: option.split)

lemma map_of_count_all:
  "map_of (count_all ks) k = (if k \<in> set ks then Some (int (count_list ks k)) else None)"
  by (simp add: count_all_def map_of_fold_bump)

lemma distinct_fold_bump: "distinct (map fst m) \<Longrightarrow> distinct (map fst (fold bump ks m))"
  by (induction ks arbitrary: m) (auto intro: distinct_bump)

lemma distinct_count_all: "distinct (map fst (count_all ks))"
  by (simp add: count_all_def distinct_fold_bump)

lemma sum_bump: "sum_list (map snd (bump k m)) = sum_list (map snd m) + 1"
  by (induction k m rule: bump.induct) auto

lemma sum_count_all: "sum_list (map snd (count_all ks)) = int (length ks)"
proof -
  have "sum_list (map snd (fold bump ks m)) = sum_list (map snd m) + int (length ks)"
    for m :: "('a \<times> int) list"
    by (induction ks arbitrary: m) (auto simp: sum_bump)
  then show ?thesis by (simp add: count_all_def)
qed

lemma count_all_pairs: "set (count_all ks) = (\<lambda>k. (k, int (count_list ks k))) ` set ks"
proof -
  have "(k, n) \<in> set (count_all ks) \<longleftrightarrow> k \<in> set ks \<and> n = int (count_list ks k)" for k n
    unfolding map_of_eq_Some_iff[OF distinct_count_all, symmetric] by (auto simp: map_of_count_all)
  then show ?thesis by auto
qed

lemma set_count_all: "fst ` set (count_all ks) = set ks"
proof -
  have "fst ` set (fold bump ks m) = set ks \<union> fst ` set m" for m :: "('a \<times> int) list"
    by (induction ks arbitrary: m) (auto simp: fst_bump)
  then show ?thesis by (simp add: count_all_def)
qed

text \<open>\<open>dict(sorted(counts.items()))\<close>\<close>

definition sorted_counts :: "('k::linorder \<times> int) list \<Rightarrow> ('k \<times> int) list" where
  "sorted_counts m = sort m"

end
