(* ===== verification/Slots.thy ===== *)
theory Slots
  imports Prelude
begin

section \<open>The interface of a store of fixed-width slots\<close>

text \<open>
  What the relocation loops ask of the image they patch: reading and writing a slot of a fixed
  width at a byte offset. The locale states the laws of a store (a slot reads back what was
  written, other slots and bytes keep their contents, the size never changes), and proves once
  what a sequence of read-modify-write patches does. \<open>Py_Struct\<close> interprets it on
  \<open>struct.unpack_from\<close> and \<open>struct.pack_into\<close> of a \<open>bytearray\<close>.
\<close>

text \<open>Slots of width \<open>w\<close> that do not overlap.\<close>

definition apart :: "int \<Rightarrow> int \<Rightarrow> int \<Rightarrow> bool" where
  "apart w a b \<longleftrightarrow> a + w \<le> b \<or> b + w \<le> a"

definition slots_apart :: "int \<Rightarrow> int list \<Rightarrow> bool" where
  "slots_apart w as = sorted_wrt (apart w) as"

lemma apart_sym: "apart w a b = apart w b a"
  by (auto simp: apart_def)

lemma slots_apart_simps [simp]:
  "slots_apart w []"
  "slots_apart w (a # as) \<longleftrightarrow> (\<forall>b \<in> set as. apart w a b) \<and> slots_apart w as"
  by (simp_all add: slots_apart_def)

text \<open>Whether slots overlap does not depend on their order.\<close>

lemma slots_apart_iff:
  assumes "0 < w"
  shows "slots_apart w as \<longleftrightarrow> distinct as \<and> (\<forall>a \<in> set as. \<forall>b \<in> set as. a \<noteq> b \<longrightarrow> apart w a b)"
proof (induction as)
  case (Cons a as)
  have "\<not> apart w a a" using assms by (simp add: apart_def)
  then show ?case using Cons by (auto simp: apart_sym)
qed simp

lemma slots_apart_mset:
  assumes "0 < w" and "mset as = mset bs"
  shows "slots_apart w as \<longleftrightarrow> slots_apart w bs"
  using assms by (metis slots_apart_iff set_mset_mset distinct_count_atmost_1 mset_eq_setD mset_eq_imp_distinct_iff)

locale slot_store =
  fixes rd :: "'m \<Rightarrow> int \<Rightarrow> 'v result"
    and wr :: "'m \<Rightarrow> int \<Rightarrow> 'v \<Rightarrow> 'm result"
    and getb :: "'m \<Rightarrow> int \<Rightarrow> 'b"
    and msize :: "'m \<Rightarrow> int"
    and ok :: "'v \<Rightarrow> bool"
    and w :: int
  assumes wr_Inr: "0 \<le> a \<Longrightarrow> ok v \<Longrightarrow> (\<exists>m'. wr m a v = Inr m') \<longleftrightarrow> a + w \<le> msize m"
    and rd_Inr: "0 \<le> a \<Longrightarrow> (\<exists>v. rd m a = Inr v) \<longleftrightarrow> a + w \<le> msize m"
    and rd_ok: "rd m a = Inr v \<Longrightarrow> ok v"
    and rd_wr: "0 \<le> a \<Longrightarrow> wr m a v = Inr m' \<Longrightarrow> rd m' a = Inr v"
    and rd_wr_other: "0 \<le> a \<Longrightarrow> 0 \<le> b \<Longrightarrow> wr m a v = Inr m' \<Longrightarrow> apart w a b \<Longrightarrow> rd m' b = rd m b"
    and getb_wr: "0 \<le> a \<Longrightarrow> 0 \<le> k \<Longrightarrow> k < msize m \<Longrightarrow> wr m a v = Inr m' \<Longrightarrow> k < a \<or> a + w \<le> k
      \<Longrightarrow> getb m' k = getb m k"
    and msize_wr: "0 \<le> a \<Longrightarrow> wr m a v = Inr m' \<Longrightarrow> msize m' = msize m"
begin

text \<open>One read-modify-write, and a sequence of them.\<close>

definition patch :: "'m \<Rightarrow> int \<times> ('v \<Rightarrow> 'v) \<Rightarrow> 'm result" where
  "patch m p = rbind (rd m (fst p)) (\<lambda>v. wr m (fst p) (snd p v))"

definition patches :: "'m \<Rightarrow> (int \<times> ('v \<Rightarrow> 'v)) list \<Rightarrow> 'm result" where
  "patches m ps = foldM_r patch m ps"

lemma patches_simps [simp]:
  "patches m [] = Inr m"
  "patches m (p # ps) = rbind (patch m p) (\<lambda>m'. patches m' ps)"
  by (simp_all add: patches_def)

lemma patch_rd:
  assumes "0 \<le> a" and "patch m (a, f) = Inr m'" and "rd m a = Inr v"
  shows "rd m' a = Inr (f v)"
  using assms by (auto simp: patch_def intro: rd_wr)

lemma patch_other:
  assumes "0 \<le> a" and "0 \<le> b" and "patch m (a, f) = Inr m'" and "apart w a b"
  shows "rd m' b = rd m b"
  using assms by (auto simp: patch_def result_iff intro: rd_wr_other)

lemma patch_msize: "0 \<le> fst p \<Longrightarrow> patch m p = Inr m' \<Longrightarrow> msize m' = msize m"
  by (auto simp: patch_def result_iff intro: msize_wr)

lemma patches_msize:
  "\<forall>p \<in> set ps. 0 \<le> fst p \<Longrightarrow> patches m ps = Inr m' \<Longrightarrow> msize m' = msize m"
proof (induction ps arbitrary: m)
  case Nil
  then show ?case by simp
next
  case (Cons p ps)
  then obtain m1 where "patch m p = Inr m1" "patches m1 ps = Inr m'" by (auto simp: result_iff)
  then show ?case using Cons patch_msize[of p m m1] by auto
qed

text \<open>A slot apart from every patch keeps its value.\<close>

lemma patches_other:
  assumes "patches m ps = Inr m'" and "\<forall>p \<in> set ps. 0 \<le> fst p \<and> apart w (fst p) b" and "0 \<le> b"
  shows "rd m' b = rd m b"
  using assms
proof (induction ps arbitrary: m)
  case Nil
  then show ?case by simp
next
  case (Cons p ps)
  obtain m1 where m1: "patch m p = Inr m1" "patches m1 ps = Inr m'"
    using Cons.prems(1) by (auto simp: result_iff)
  have "rd m' b = rd m1 b" using Cons m1 by auto
  moreover have "rd m1 b = rd m b"
    using Cons.prems m1(1) patch_other[of "fst p" b m "snd p" m1] by auto
  ultimately show ?case by simp
qed

text \<open>A byte outside every patched slot keeps its value.\<close>

lemma patches_byte:
  assumes "patches m ps = Inr m'" and "\<forall>p \<in> set ps. 0 \<le> fst p \<and> (k < fst p \<or> fst p + w \<le> k)"
    and "0 \<le> k" and "k < msize m"
  shows "getb m' k = getb m k"
  using assms
proof (induction ps arbitrary: m)
  case Nil
  then show ?case by simp
next
  case (Cons p ps)
  obtain m1 where m1: "patch m p = Inr m1" "patches m1 ps = Inr m'"
    using Cons.prems(1) by (auto simp: result_iff)
  have "msize m1 = msize m" using Cons.prems(2) m1(1) by (intro patch_msize) auto
  then have "getb m' k = getb m1 k" using Cons m1 by auto
  moreover have "getb m1 k = getb m k"
    using Cons.prems(2-4) m1(1) by (auto simp: patch_def result_iff intro: getb_wr)
  ultimately show ?case by simp
qed

text \<open>
  When the slots do not overlap, every patch takes effect exactly once, on the value its slot had
  before the first patch: the order of the patches does not matter.
\<close>

theorem patches_effect:
  assumes "patches m ps = Inr m'" and "slots_apart w (map fst ps)" and "\<forall>p \<in> set ps. 0 \<le> fst p"
    and "(a, f) \<in> set ps" and "rd m a = Inr v"
  shows "rd m' a = Inr (f v)"
  using assms
proof (induction ps arbitrary: m)
  case Nil
  then show ?case by simp
next
  case (Cons p ps)
  obtain m1 where m1: "patch m p = Inr m1" "patches m1 ps = Inr m'"
    using Cons.prems(1) by (auto simp: result_iff)
  show ?case
  proof (cases "(a, f) \<in> set ps")
    case True
    have "apart w (fst p) a" using Cons.prems(2) True by force
    then have "rd m1 a = rd m a"
      using Cons.prems(3) True m1(1) patch_other[of "fst p" a m "snd p" m1] by auto
    then show ?thesis using Cons m1 True by auto
  next
    case False
    then have p: "p = (a, f)" using Cons.prems(4) by auto
    have "\<forall>q \<in> set ps. 0 \<le> fst q \<and> apart w (fst q) a"
      using Cons.prems(2,3) p by (auto simp: apart_sym)
    then have "rd m' a = rd m1 a"
      using m1(2) Cons.prems(3) p by (intro patches_other[of m1 ps]) auto
    moreover have "rd m1 a = Inr (f v)"
      using patch_rd[of a m f m1 v] Cons.prems(3,5) m1(1) p by auto
    ultimately show ?thesis by simp
  qed
qed

text \<open>Patches inside the store always go through.\<close>

lemma patches_defined:
  assumes "\<forall>p \<in> set ps. 0 \<le> fst p \<and> fst p + w \<le> msize m \<and> (\<forall>v. ok v \<longrightarrow> ok (snd p v))"
  shows "\<exists>m'. patches m ps = Inr m'"
  using assms
proof (induction ps arbitrary: m)
  case Nil
  then show ?case by simp
next
  case (Cons p ps)
  obtain v where v: "rd m (fst p) = Inr v" using Cons.prems rd_Inr[of "fst p" m] by auto
  then obtain m1 where m1: "wr m (fst p) (snd p v) = Inr m1"
    using Cons.prems wr_Inr[of "fst p" "snd p v" m] rd_ok by auto
  then have p: "patch m p = Inr m1" using v by (simp add: patch_def)
  then have "msize m1 = msize m" using Cons.prems by (intro patch_msize) auto
  then show ?case using Cons p by auto
qed

end

end
