(* ===== verification/Py_Struct.thy ===== *)
theory Py_Struct
  imports Slots
begin

section \<open>Python's \<open>struct\<close> on bytes\<close>

text \<open>
  The little-endian formats of \<open>struct.pack\<close>, \<open>struct.unpack_from\<close> and \<open>struct.pack_into\<close> that
  the program uses. An \<open>item\<close> is a value tagged with its format character, a \<open>code\<close> the
  character alone; packing raises \<open>StructError\<close> for a value outside its width, unpacking and
  packing into a buffer raise it when the buffer is too short. The theory proves that packing
  and unpacking are inverse, and shows the 64-bit slots of a \<open>bytearray\<close> to be a store
  (locale \<open>slot_store\<close>), which is what the relocation code relies on.
\<close>

subsection \<open>Little-endian integers\<close>

fun le_bytes :: "nat \<Rightarrow> int \<Rightarrow> bytes" where
  "le_bytes 0 v = []"
| "le_bytes (Suc n) v = word_of_int v # le_bytes n (v div 256)"

fun le_int :: "bytes \<Rightarrow> int" where
  "le_int [] = 0"
| "le_int (b # bs) = uint b + 256 * le_int bs"

lemma length_le_bytes [simp]: "length (le_bytes n v) = n"
  by (induction n arbitrary: v) auto

lemma uint_u8: "uint (word_of_int v :: u8) = v mod 256"
  by (simp add: uint_word_of_int)

lemma le_int_le_bytes_mod: "le_int (le_bytes n v) = v mod 256 ^ n"
proof (induction n arbitrary: v)
  case 0
  then show ?case by simp
next
  case (Suc n)
  have "v mod (256 * 256 ^ n) = 256 * (v div 256 mod 256 ^ n) + v mod 256"
    by (rule zmod_zmult2_eq) simp
  then show ?case using Suc by (simp add: uint_u8)
qed

lemma le_int_le_bytes: "0 \<le> v \<Longrightarrow> v < 256 ^ n \<Longrightarrow> le_int (le_bytes n v) = v"
  by (simp add: le_int_le_bytes_mod)

lemma le_int_nonneg [simp]: "0 \<le> le_int bs"
  by (induction bs) auto

lemma le_int_less: "le_int bs < 256 ^ length bs"
proof (induction bs)
  case Nil
  then show ?case by simp
next
  case (Cons b bs)
  have "uint b < 256" using uint_lt2p[of b] by simp
  moreover have "le_int bs + 1 \<le> 256 ^ length bs" using Cons by simp
  ultimately show ?case by simp
qed

lemma le_bytes_le_int: "le_bytes (length bs) (le_int bs) = bs"
proof (induction bs)
  case Nil
  then show ?case by simp
next
  case (Cons b bs)
  have b: "0 \<le> uint b" "uint b < 256" using uint_lt2p[of b] by simp_all
  have "word_of_int (uint b + 256 * le_int bs) = b"
    using b by (intro word_uint_eqI) (simp add: uint_u8 del: of_int_add of_int_mult)
  moreover have "(uint b + 256 * le_int bs) div 256 = le_int bs"
    using b by simp
  ultimately show ?case using Cons by simp
qed

subsection \<open>Items\<close>

datatype code = C_B | C_H | C_I | C_Q | C_i | C_q | C_16s

datatype item = U8 int | U16 int | U32 int | U64 int | I32 int | I64 int | S16 bytes

fun code_size :: "code \<Rightarrow> nat" where
  "code_size C_B = 1"
| "code_size C_H = 2"
| "code_size C_I = 4"
| "code_size C_Q = 8"
| "code_size C_i = 4"
| "code_size C_q = 8"
| "code_size C_16s = 16"

fun code_of :: "item \<Rightarrow> code" where
  "code_of (U8 v) = C_B"
| "code_of (U16 v) = C_H"
| "code_of (U32 v) = C_I"
| "code_of (U64 v) = C_Q"
| "code_of (I32 v) = C_i"
| "code_of (I64 v) = C_q"
| "code_of (S16 bs) = C_16s"

definition pack_unsigned :: "nat \<Rightarrow> int \<Rightarrow> bytes result" where
  "pack_unsigned n v = (if 0 \<le> v \<and> v < 256 ^ n then Inr (le_bytes n v) else Inl StructError)"

definition pack_signed :: "nat \<Rightarrow> int \<Rightarrow> bytes result" where
  "pack_signed n v =
     (if - (256 ^ n div 2) \<le> v \<and> v < 256 ^ n div 2 then Inr (le_bytes n v) else Inl StructError)"

definition signed_of :: "nat \<Rightarrow> int \<Rightarrow> int" where
  "signed_of n u = (if u < 256 ^ n div 2 then u else u - 256 ^ n)"

text \<open>\<open>16s\<close> truncates its argument to 16 bytes and pads it with NUL bytes.\<close>

definition pad16 :: "bytes \<Rightarrow> bytes" where
  "pad16 bs = take 16 bs @ replicate (16 - length bs) 0"

fun pack_item :: "item \<Rightarrow> bytes result" where
  "pack_item (U8 v) = pack_unsigned 1 v"
| "pack_item (U16 v) = pack_unsigned 2 v"
| "pack_item (U32 v) = pack_unsigned 4 v"
| "pack_item (U64 v) = pack_unsigned 8 v"
| "pack_item (I32 v) = pack_signed 4 v"
| "pack_item (I64 v) = pack_signed 8 v"
| "pack_item (S16 bs) = Inr (pad16 bs)"

fun unpack_item :: "code \<Rightarrow> bytes \<Rightarrow> item" where
  "unpack_item C_B bs = U8 (le_int bs)"
| "unpack_item C_H bs = U16 (le_int bs)"
| "unpack_item C_I bs = U32 (le_int bs)"
| "unpack_item C_Q bs = U64 (le_int bs)"
| "unpack_item C_i bs = I32 (signed_of 4 (le_int bs))"
| "unpack_item C_q bs = I64 (signed_of 8 (le_int bs))"
| "unpack_item C_16s bs = S16 bs"

text \<open>The items a format can carry unchanged: integers in range, strings of exactly 16 bytes.\<close>

fun item_ok :: "item \<Rightarrow> bool" where
  "item_ok (U8 v) = (0 \<le> v \<and> v < 256)"
| "item_ok (U16 v) = (0 \<le> v \<and> v < 65536)"
| "item_ok (U32 v) = (0 \<le> v \<and> v < 4294967296)"
| "item_ok (U64 v) = (0 \<le> v \<and> v < 18446744073709551616)"
| "item_ok (I32 v) = (-2147483648 \<le> v \<and> v < 2147483648)"
| "item_ok (I64 v) = (-9223372036854775808 \<le> v \<and> v < 9223372036854775808)"
| "item_ok (S16 bs) = (length bs = 16)"

lemma length_pad16 [simp]: "length (pad16 bs) = 16"
  by (simp add: pad16_def)

lemma pad16_id: "length bs = 16 \<Longrightarrow> pad16 bs = bs"
  by (simp add: pad16_def)

lemma code_size_pos [simp]: "0 < code_size c"
  by (cases c) auto

lemma pack_item_length: "pack_item x = Inr bs \<Longrightarrow> length bs = code_size (code_of x)"
  by (cases x) (auto simp: pack_unsigned_def pack_signed_def split: if_splits)

lemma signed_of_le_bytes:
  assumes "- (256 ^ n div 2) \<le> v" and "v < 256 ^ n div 2" and "0 < n"
  shows "signed_of n (le_int (le_bytes n v)) = v"
proof (cases "0 \<le> v")
  case True
  then have "v mod 256 ^ n = v" using assms by simp
  then show ?thesis using assms by (simp add: signed_of_def le_int_le_bytes_mod)
next
  case False
  have even: "(256::int) ^ n = 2 * (256 ^ n div 2)" using assms(3) by simp
  have "v mod 256 ^ n = (v + 256 ^ n) mod 256 ^ n" by simp
  also have "\<dots> = v + 256 ^ n" using False assms even by (intro mod_pos_pos_trivial) linarith+
  finally show ?thesis using False assms even
    by (simp add: signed_of_def le_int_le_bytes_mod)
qed

lemma unpack_pack_item:
  assumes "item_ok x" and "pack_item x = Inr bs"
  shows "unpack_item (code_of x) bs = x"
  using assms
  by (cases x)
    (auto simp: pack_unsigned_def pack_signed_def pad16_id le_int_le_bytes signed_of_le_bytes
      uint_u8 split: if_splits)

lemma pack_item_ok: "item_ok x \<Longrightarrow> \<exists>bs. pack_item x = Inr bs"
  by (cases x) (auto simp: pack_unsigned_def pack_signed_def)

text \<open>An integer that packs is in range (a string always packs).\<close>

lemma pack_item_range: "pack_item x = Inr bs \<Longrightarrow> item_ok x \<or> (\<exists>s. x = S16 s)"
  by (cases x) (auto simp: pack_unsigned_def pack_signed_def split: if_splits)

lemma item_ok_unpack:
  "length bs = code_size c \<Longrightarrow> item_ok (unpack_item c bs)"
  using le_int_less[of bs] le_int_nonneg[of bs]
  by (cases c) (auto simp: signed_of_def simp del: le_int_nonneg)

lemma code_of_unpack_item [simp]: "code_of (unpack_item c bs) = c"
  by (cases c) auto

subsection \<open>Formats\<close>

definition calcsize :: "code list \<Rightarrow> nat" where
  "calcsize cs = sum_list (map code_size cs)"

text \<open>\<open>struct.pack(fmt, ...)\<close>\<close>

definition pack :: "item list \<Rightarrow> bytes result" where
  "pack xs = rmap concat (mapM_r pack_item xs)"

fun unpack :: "code list \<Rightarrow> bytes \<Rightarrow> item list" where
  "unpack [] bs = []"
| "unpack (c # cs) bs = unpack_item c (take (code_size c) bs) # unpack cs (drop (code_size c) bs)"

text \<open>
  Where an access of \<open>sz\<close> bytes at \<open>off\<close> lands in a buffer of \<open>n\<close> bytes, a negative offset
  counting from the end; \<open>None\<close> when it does not fit.
\<close>

definition buf_index :: "int \<Rightarrow> int \<Rightarrow> int \<Rightarrow> nat option" where
  "buf_index n sz off =
     (let r = (if off < 0 then off + n else off)
      in if 0 \<le> r \<and> r + sz \<le> n then Some (nat r) else None)"

text \<open>
  An offset is a C \<open>Py_ssize_t\<close>. One that does not fit in 63 bits and a sign (and so lies outside every buffer there
  can be) raises before the length of the buffer is looked at: \<open>unpack_from\<close> an \<open>OverflowError\<close>, \<open>pack_into\<close> an
  \<open>IndexError\<close>.
\<close>

definition fits_ssize :: "int \<Rightarrow> bool" where
  "fits_ssize off \<longleftrightarrow> - (2 ^ 63) \<le> off \<and> off < 2 ^ 63"

text \<open>\<open>struct.unpack_from(fmt, buf, off)\<close>\<close>

definition unpack_from :: "code list \<Rightarrow> bytes \<Rightarrow> int \<Rightarrow> item list result" where
  "unpack_from cs buf off =
     (case buf_index (int (length buf)) (int (calcsize cs)) off of
        None \<Rightarrow> Inl (if fits_ssize off then StructError else OverflowError)
      | Some i \<Rightarrow> Inr (unpack cs (drop i buf)))"

text \<open>\<open>struct.pack_into(fmt, buf, off, ...)\<close>: the updated buffer. The place is checked before the values.\<close>

definition pack_into :: "item list \<Rightarrow> bytes \<Rightarrow> int \<Rightarrow> bytes result" where
  "pack_into xs buf off =
     (case buf_index (int (length buf)) (int (calcsize (map code_of xs))) off of
        None \<Rightarrow> Inl (if fits_ssize off then StructError else IndexError)
      | Some i \<Rightarrow> rmap (\<lambda>p. take i buf @ p @ drop (i + length p) buf) (pack xs))"

lemma calcsize_simps [simp]:
  "calcsize [] = 0" "calcsize (c # cs) = code_size c + calcsize cs"
  by (simp_all add: calcsize_def)

lemma calcsize_append [simp]: "calcsize (cs @ ds) = calcsize cs + calcsize ds"
  by (simp add: calcsize_def)

lemma pack_Nil [simp]: "pack [] = Inr []"
  by (simp add: pack_def)

lemma pack_Cons: "pack (x # xs) = rbind (pack_item x) (\<lambda>b. rmap ((@) b) (pack xs))"
  by (cases "pack_item x"; cases "mapM_r pack_item xs") (auto simp: pack_def)

lemma pack_length: "pack xs = Inr bs \<Longrightarrow> length bs = calcsize (map code_of xs)"
proof (induction xs arbitrary: bs)
  case Nil
  then show ?case by simp
next
  case (Cons x xs)
  then show ?case by (auto simp: pack_Cons result_iff dest: pack_item_length)
qed

lemma pack_ok: "\<forall>x \<in> set xs. item_ok x \<Longrightarrow> \<exists>bs. pack xs = Inr bs"
proof (induction xs)
  case Nil
  then show ?case by simp
next
  case (Cons x xs)
  from Cons obtain bs where "pack xs = Inr bs" by auto
  moreover from Cons.prems obtain b where "pack_item x = Inr b"
    using pack_item_ok[of x] by auto
  ultimately show ?case by (simp add: pack_Cons)
qed

lemma unpack_pack:
  assumes "\<forall>x \<in> set xs. item_ok x" and "pack xs = Inr bs"
  shows "unpack (map code_of xs) (bs @ rest) = xs"
  using assms
proof (induction xs arbitrary: bs)
  case Nil
  then show ?case by simp
next
  case (Cons x xs)
  from Cons.prems(2) obtain b bs' where b: "pack_item x = Inr b" "pack xs = Inr bs'"
    and bs: "bs = b @ bs'" by (auto simp: pack_Cons result_iff)
  have "unpack (map code_of xs) (bs' @ rest) = xs"
    by (rule Cons.IH) (use Cons.prems(1) b in auto)
  then show ?case using b bs Cons.prems(1) pack_item_length[OF b(1)] unpack_pack_item[OF _ b(1)]
    by auto
qed

lemma length_unpack [simp]: "length (unpack cs bs) = length cs"
  by (induction cs arbitrary: bs) auto

lemma map_code_of_unpack [simp]: "map code_of (unpack cs bs) = cs"
  by (induction cs arbitrary: bs) auto

lemma item_ok_unpack_list:
  "calcsize cs \<le> length bs \<Longrightarrow> \<forall>x \<in> set (unpack cs bs). item_ok x"
proof (induction cs arbitrary: bs)
  case Nil
  then show ?case by simp
next
  case (Cons c cs)
  have "\<forall>x \<in> set (unpack cs (drop (code_size c) bs)). item_ok x"
    by (rule Cons.IH) (use Cons.prems in simp)
  moreover have "item_ok (unpack_item c (take (code_size c) bs))"
    using Cons.prems by (intro item_ok_unpack) simp
  ultimately show ?case by simp
qed

lemma buf_index_nonneg:
  "0 \<le> off \<Longrightarrow> buf_index n sz off = (if off + sz \<le> n then Some (nat off) else None)"
  by (simp add: buf_index_def Let_def)

lemma unpack_from_Inr:
  assumes "0 \<le> off" and "off + int (calcsize cs) \<le> int (length buf)"
  shows "unpack_from cs buf off = Inr (unpack cs (drop (nat off) buf))"
  using assms by (simp add: unpack_from_def buf_index_nonneg)

lemma unpack_from_short:
  assumes "0 \<le> off" and "int (length buf) < off + int (calcsize cs)"
  shows "unpack_from cs buf off = Inl (if off < 2 ^ 63 then StructError else OverflowError)"
  using assms by (simp add: unpack_from_def buf_index_nonneg fits_ssize_def)

lemma unpack_from_ok:
  assumes "unpack_from cs buf off = Inr xs"
  shows "map code_of xs = cs" and "\<forall>x \<in> set xs. item_ok x"
proof -
  from assms obtain i where i: "xs = unpack cs (drop i buf)"
    "buf_index (int (length buf)) (int (calcsize cs)) off = Some i"
    by (auto simp: unpack_from_def split: option.splits)
  then have "calcsize cs \<le> length (drop i buf)"
    by (auto simp: buf_index_def Let_def split: if_splits)
  then show "\<forall>x \<in> set xs. item_ok x" unfolding i(1) by (rule item_ok_unpack_list)
  show "map code_of xs = cs" using i(1) by simp
qed

lemma unpack_from_packed:
  assumes "\<forall>x \<in> set xs. item_ok x" and "pack xs = Inr p"
    and "buf = pre @ p @ post" and "off = int (length pre)"
  shows "unpack_from (map code_of xs) buf off = Inr xs"
  using assms pack_length[OF assms(2)]
  by (simp add: unpack_from_Inr unpack_pack)

subsection \<open>The 64-bit slots of a \<open>bytearray\<close>\<close>

text \<open>\<open>struct.unpack_from("<Q", buf, off)[0]\<close> and \<open>struct.pack_into("<Q", buf, off, v)\<close>.\<close>

definition read_u64 :: "bytes \<Rightarrow> int \<Rightarrow> int result" where
  "read_u64 buf off =
     rbind (unpack_from [C_Q] buf off)
       (\<lambda>xs. case xs of [U64 v] \<Rightarrow> Inr v | _ \<Rightarrow> Inl StructError)"

definition write_u64 :: "bytes \<Rightarrow> int \<Rightarrow> int \<Rightarrow> bytes result" where
  "write_u64 buf off v = pack_into [U64 v] buf off"

text \<open>What a format yields: one item per code.\<close>

lemma code_of_eq [simp]:
  "code_of x = C_B \<longleftrightarrow> (\<exists>v. x = U8 v)" "code_of x = C_H \<longleftrightarrow> (\<exists>v. x = U16 v)"
  "code_of x = C_I \<longleftrightarrow> (\<exists>v. x = U32 v)" "code_of x = C_Q \<longleftrightarrow> (\<exists>v. x = U64 v)"
  "code_of x = C_i \<longleftrightarrow> (\<exists>v. x = I32 v)" "code_of x = C_q \<longleftrightarrow> (\<exists>v. x = I64 v)"
  "code_of x = C_16s \<longleftrightarrow> (\<exists>s. x = S16 s)"
  by (cases x; simp)+

lemma read_u64_Inr:
  assumes "read_u64 buf off = Inr v"
  shows "unpack_from [C_Q] buf off = Inr [U64 v]"
proof -
  obtain xs where xs: "unpack_from [C_Q] buf off = Inr xs"
    and v: "(case xs of [U64 v] \<Rightarrow> Inr v | _ \<Rightarrow> Inl StructError) = Inr v"
    using assms by (auto simp: read_u64_def rbind_Inr_iff)
  obtain u where "xs = [U64 u]"
    using unpack_from_ok(1)[OF xs] by (auto simp: map_eq_Cons_conv)
  then show ?thesis using xs v by simp
qed

lemma read_u64_eq:
  "0 \<le> off \<Longrightarrow> read_u64 buf off =
     (if off + 8 \<le> int (length buf) then Inr (le_int (take 8 (drop (nat off) buf)))
      else Inl (if off < 2 ^ 63 then StructError else OverflowError))"
  by (auto simp: read_u64_def unpack_from_Inr unpack_from_short)

lemma write_u64_eq:
  "0 \<le> off \<Longrightarrow> write_u64 buf off v =
     (if 0 \<le> v \<and> v < 2 ^ 64 \<and> off + 8 \<le> int (length buf)
      then Inr (take (nat off) buf @ le_bytes 8 v @ drop (nat off + 8) buf)
      else Inl (if off + 8 \<le> int (length buf) \<or> off < 2 ^ 63 then StructError else IndexError))"
  by (auto simp: write_u64_def pack_into_def pack_Cons pack_unsigned_def buf_index_nonneg fits_ssize_def)

lemma write_u64_Inr:
  assumes "0 \<le> off" and "write_u64 buf off v = Inr buf'"
  shows "0 \<le> v" "v < 2 ^ 64" "off + 8 \<le> int (length buf)"
    "buf' = take (nat off) buf @ le_bytes 8 v @ drop (nat off + 8) buf"
  using assms by (auto simp: write_u64_eq split: if_splits)

lemma length_write_u64:
  "0 \<le> off \<Longrightarrow> write_u64 buf off v = Inr buf' \<Longrightarrow> length buf' = length buf"
  by (auto simp: write_u64_eq split: if_splits)

lemma nth_write_u64:
  assumes "0 \<le> off" and "write_u64 buf off v = Inr buf'" and "k < length buf"
  shows "buf' ! k = (if nat off \<le> k \<and> k < nat off + 8 then le_bytes 8 v ! (k - nat off) else buf ! k)"
proof -
  have "nat off + length (le_bytes 8 v) \<le> length buf"
    using write_u64_Inr(3)[OF assms(1,2)] assms(1) by (simp add: nat_le_iff)
  from nth_patch[OF this assms(3)] show ?thesis
    by (simp add: write_u64_Inr(4)[OF assms(1,2)])
qed

lemma read_u64_cong:
  assumes "0 \<le> b" and "length buf' = length buf"
    and "\<And>k. nat b \<le> k \<Longrightarrow> k < nat b + 8 \<Longrightarrow> k < length buf \<Longrightarrow> buf' ! k = buf ! k"
  shows "read_u64 buf' b = read_u64 buf b"
proof -
  have "take 8 (drop (nat b) buf') = take 8 (drop (nat b) buf)"
    using assms by (intro nth_equalityI) auto
  then show ?thesis using assms by (simp add: read_u64_eq)
qed

lemma read_u64_transfer:
  assumes "0 \<le> p" and "p + 8 \<le> int (length a)" and "0 \<le> q" and "q + 8 \<le> int (length b)"
    and "\<And>i. 0 \<le> i \<Longrightarrow> i < 8 \<Longrightarrow> a ! nat (p + i) = b ! nat (q + i)"
  shows "read_u64 a p = read_u64 b q"
proof -
  have "take 8 (drop (nat p) a) = take 8 (drop (nat q) b)"
  proof (rule nth_equalityI)
    show "length (take 8 (drop (nat p) a)) = length (take 8 (drop (nat q) b))" using assms(1-4) by simp
    fix i assume "i < length (take 8 (drop (nat p) a))"
    then have i: "i < 8" by simp
    have "nat (p + int i) = nat p + i" "nat (q + int i) = nat q + i" using assms(1,3) by linarith+
    then show "take 8 (drop (nat p) a) ! i = take 8 (drop (nat q) b) ! i"
      using assms(5)[of "int i"] i assms(1-4) by simp
  qed
  then show ?thesis using assms(1-4) by (simp add: read_u64_eq)
qed

lemma read_u64_range: "read_u64 buf off = Inr v \<Longrightarrow> 0 \<le> v \<and> v < 2 ^ 64"
  using unpack_from_ok(2)[OF read_u64_Inr] by fastforce

lemma read_write_u64: "0 \<le> a \<Longrightarrow> write_u64 m a v = Inr m' \<Longrightarrow> read_u64 m' a = Inr v"
  using write_u64_Inr[of a m v m'] by (simp add: read_u64_eq le_int_le_bytes)

lemma read_write_u64_other:
  assumes "0 \<le> a" "0 \<le> b" "write_u64 m a v = Inr m'" "apart 8 a b"
  shows "read_u64 m' b = read_u64 m b"
proof (rule read_u64_cong)
  fix k assume k: "nat b \<le> k" "k < nat b + 8" "k < length m"
  then have "\<not> (nat a \<le> k \<and> k < nat a + 8)"
    using assms(1,2,4) unfolding apart_def by linarith
  then show "m' ! k = m ! k" using nth_write_u64[OF assms(1,3) k(3)] by auto
qed (use assms length_write_u64 in auto)

lemma nth_write_u64_other:
  assumes "0 \<le> a" "0 \<le> k" "k < int (length m)" "write_u64 m a v = Inr m'" "k < a \<or> a + 8 \<le> k"
  shows "m' ! nat k = m ! nat k"
proof -
  have "\<not> (nat a \<le> nat k \<and> nat k < nat a + 8)" and "nat k < length m"
    using assms(1,2,3,5) by linarith+
  then show ?thesis using nth_write_u64[OF assms(1,4)] by auto
qed

interpretation u64: slot_store read_u64 write_u64 "\<lambda>buf k. buf ! nat k" "\<lambda>buf. int (length buf)"
  "\<lambda>v. 0 \<le> v \<and> v < 2 ^ 64" 8
proof (unfold_locales, goal_cases)
  case (1 a v m) then show ?case by (simp add: write_u64_eq)
next
  case (2 a m) then show ?case by (simp add: read_u64_eq)
next
  case (3 m a v) then show ?case by (rule read_u64_range)
next
  case (4 a m v m') then show ?case by (rule read_write_u64)
next
  case (5 a b m v m') then show ?case by (rule read_write_u64_other)
next
  case (6 a k m v m') then show ?case by (rule nth_write_u64_other)
next
  case (7 a m v m') then show ?case using length_write_u64 by simp
qed

end
