(* ===== verification/Py_Text.thy ===== *)
theory Py_Text
  imports Prelude
begin

section \<open>Python text: UTF-8, C strings, numerals\<close>

text \<open>
  The string operations of the standard library the program uses: \<open>str.encode("utf-8")\<close>,
  \<open>str.encode("ascii")\<close>, \<open>bytes.decode("utf-8", "replace")\<close>, \<open>bytes.find\<close> of one byte,
  \<open>ljust(16, b"\0")\<close>, the decimal digits of an f-string, \<open>hex\<close> and \<open>int(s, 16)\<close>.
  The round trips proved here (\<open>utf8_decode_encode\<close>, \<open>int16_hex\<close>) are what the symbol names and
  the offsets a report carries rest on.
\<close>

subsection \<open>UTF-8\<close>

definition is_surrogate :: "nat \<Rightarrow> bool" where
  "is_surrogate c \<longleftrightarrow> 0xD800 \<le> c \<and> c \<le> 0xDFFF"

text \<open>The code points UTF-8 can carry.\<close>

definition is_scalar :: "nat \<Rightarrow> bool" where
  "is_scalar c \<longleftrightarrow> c < 0x110000 \<and> \<not> is_surrogate c"

abbreviation byte_of :: "nat \<Rightarrow> u8" where
  "byte_of \<equiv> word_of_nat"

definition utf8_char :: "nat \<Rightarrow> bytes" where
  "utf8_char c =
     (if c < 0x80 then [byte_of c]
      else if c < 0x800 then [byte_of (0xC0 + c div 64), byte_of (0x80 + c mod 64)]
      else if c < 0x10000 then
        [byte_of (0xE0 + c div 4096), byte_of (0x80 + c div 64 mod 64), byte_of (0x80 + c mod 64)]
      else
        [byte_of (0xF0 + c div 262144), byte_of (0x80 + c div 4096 mod 64),
         byte_of (0x80 + c div 64 mod 64), byte_of (0x80 + c mod 64)])"

text \<open>\<open>s.encode("utf-8")\<close> raises on a lone surrogate; \<open>s.encode("ascii")\<close> on any non-ASCII.\<close>

definition encode_utf8 :: "pystr \<Rightarrow> bytes result" where
  "encode_utf8 s =
     (if list_all is_scalar s then Inr (concat (map utf8_char s)) else Inl UnicodeEncodeError)"

definition encode_ascii :: "pystr \<Rightarrow> bytes result" where
  "encode_ascii s =
     (if list_all (\<lambda>c. c < 128) s then Inr (map byte_of s) else Inl UnicodeEncodeError)"

definition cont_byte :: "nat \<Rightarrow> bool" where
  "cont_byte b \<longleftrightarrow> 0x80 \<le> b \<and> b \<le> 0xBF"

text \<open>
  The second byte a three- or four-byte sequence allows: overlong forms, surrogates and code
  points beyond \<open>0x10FFFF\<close> are excluded there.
\<close>

definition second_ok :: "nat \<Rightarrow> nat \<Rightarrow> bool" where
  "second_ok b0 b1 =
     (if b0 = 0xE0 then 0xA0 \<le> b1 \<and> b1 \<le> 0xBF
      else if b0 = 0xED then 0x80 \<le> b1 \<and> b1 \<le> 0x9F
      else if b0 = 0xF0 then 0x90 \<le> b1 \<and> b1 \<le> 0xBF
      else if b0 = 0xF4 then 0x80 \<le> b1 \<and> b1 \<le> 0x8F
      else cont_byte b1)"

definition replacement :: nat where
  "replacement = 0xFFFD"

text \<open>
  One step of \<open>decode("utf-8", "replace")\<close> on a non-empty list of byte values: the code point
  and the number of bytes consumed. An ill-formed sequence yields U+FFFD for its longest
  well-formed prefix, as CPython does.
\<close>

definition decode_step :: "nat \<Rightarrow> nat list \<Rightarrow> nat \<times> nat" where
  "decode_step b0 bs =
     (if b0 < 0x80 then (b0, 1)
      else if 0xC2 \<le> b0 \<and> b0 \<le> 0xDF then
        (case bs of
           b1 # _ \<Rightarrow> if cont_byte b1 then ((b0 - 0xC0) * 64 + (b1 - 0x80), 2) else (replacement, 1)
         | [] \<Rightarrow> (replacement, 1))
      else if 0xE0 \<le> b0 \<and> b0 \<le> 0xEF then
        (case bs of
           b1 # bs' \<Rightarrow>
             if second_ok b0 b1 then
               (case bs' of
                  b2 # _ \<Rightarrow>
                    if cont_byte b2
                    then ((b0 - 0xE0) * 4096 + (b1 - 0x80) * 64 + (b2 - 0x80), 3)
                    else (replacement, 2)
                | [] \<Rightarrow> (replacement, 2))
             else (replacement, 1)
         | [] \<Rightarrow> (replacement, 1))
      else if 0xF0 \<le> b0 \<and> b0 \<le> 0xF4 then
        (case bs of
           b1 # bs' \<Rightarrow>
             if second_ok b0 b1 then
               (case bs' of
                  b2 # bs'' \<Rightarrow>
                    if cont_byte b2 then
                      (case bs'' of
                         b3 # _ \<Rightarrow>
                           if cont_byte b3
                           then ((b0 - 0xF0) * 262144 + (b1 - 0x80) * 4096 + (b2 - 0x80) * 64
                                   + (b3 - 0x80), 4)
                           else (replacement, 3)
                       | [] \<Rightarrow> (replacement, 3))
                    else (replacement, 2)
                | [] \<Rightarrow> (replacement, 2))
             else (replacement, 1)
         | [] \<Rightarrow> (replacement, 1))
      else (replacement, 1))"

function decode_values :: "nat list \<Rightarrow> pystr" where
  "decode_values [] = []"
| "decode_values (b # bs) =
     (let (c, n) = decode_step b bs in c # decode_values (drop (n - 1) bs))"
  by pat_completeness auto
termination
  by (relation "measure length") auto

definition decode_utf8_replace :: "bytes \<Rightarrow> pystr" where
  "decode_utf8_replace bs = decode_values (map unat bs)"

lemma scalar_ascii: "b < 128 \<Longrightarrow> is_scalar b"
  and scalar_replacement: "is_scalar replacement"
  by (simp_all add: is_scalar_def is_surrogate_def replacement_def)

lemma scalar_two:
  "b0 \<le> 0xDF \<Longrightarrow> cont_byte b1 \<Longrightarrow> is_scalar ((b0 - 0xC0) * 64 + (b1 - 0x80))"
  unfolding is_scalar_def is_surrogate_def cont_byte_def by linarith

lemma scalar_three:
  assumes "0xE0 \<le> b0" "b0 \<le> 0xEF" "second_ok b0 b1" "cont_byte b2"
  shows "is_scalar ((b0 - 0xE0) * 4096 + (b1 - 0x80) * 64 + (b2 - 0x80))"
proof -
  have r: "0x80 \<le> b1" "b1 \<le> 0xBF" "b0 = 0xED \<Longrightarrow> b1 \<le> 0x9F" "0x80 \<le> b2" "b2 \<le> 0xBF"
    using assms by (auto simp: second_ok_def cont_byte_def split: if_splits)
  obtain x y z where xyz: "b0 = 0xE0 + x" "b1 = 0x80 + y" "b2 = 0x80 + z"
    using assms(1) r(1,4) by (metis le_Suc_ex)
  have b: "x \<le> 15" "y \<le> 63" "z \<le> 63" "x = 13 \<Longrightarrow> y \<le> 31" using xyz assms r by auto
  have "x * 4096 + y * 64 + z < 0x110000" using b by linarith
  moreover have "\<not> is_surrogate (x * 4096 + y * 64 + z)"
  proof -
    consider "x \<le> 12" | "x = 13" | "14 \<le> x" by linarith
    then show ?thesis unfolding is_surrogate_def using b by cases linarith+
  qed
  ultimately show ?thesis by (simp add: xyz is_scalar_def)
qed

lemma scalar_four:
  assumes "0xF0 \<le> b0" "b0 \<le> 0xF4" "second_ok b0 b1" "cont_byte b2" "cont_byte b3"
  shows "is_scalar ((b0 - 0xF0) * 262144 + (b1 - 0x80) * 4096 + (b2 - 0x80) * 64 + (b3 - 0x80))"
proof -
  have r: "0x80 \<le> b1" "b1 \<le> 0xBF" "b0 = 0xF0 \<Longrightarrow> 0x90 \<le> b1" "b0 = 0xF4 \<Longrightarrow> b1 \<le> 0x8F"
    "0x80 \<le> b2" "b2 \<le> 0xBF" "0x80 \<le> b3" "b3 \<le> 0xBF"
    using assms by (auto simp: second_ok_def cont_byte_def split: if_splits)
  obtain x y z u where xyz: "b0 = 0xF0 + x" "b1 = 0x80 + y" "b2 = 0x80 + z" "b3 = 0x80 + u"
    using assms(1) r(1,5,7) by (metis le_Suc_ex)
  have b: "x \<le> 4" "y \<le> 63" "z \<le> 63" "u \<le> 63" "x = 0 \<Longrightarrow> 16 \<le> y" "x = 4 \<Longrightarrow> y \<le> 15"
    using xyz assms r by auto
  have "x * 262144 + y * 4096 + z * 64 + u < 0x110000"
    using b by (cases "x = 4") linarith+
  moreover have "\<not> is_surrogate (x * 262144 + y * 4096 + z * 64 + u)"
    unfolding is_surrogate_def using b by (cases "x = 0") linarith+
  ultimately show ?thesis by (simp add: xyz is_scalar_def)
qed

lemma decode_step_scalar: "is_scalar (fst (decode_step b0 bs))"
proof -
  consider "b0 < 0x80" | "0xC2 \<le> b0 \<and> b0 \<le> 0xDF" | "0xE0 \<le> b0 \<and> b0 \<le> 0xEF"
    | "0xF0 \<le> b0 \<and> b0 \<le> 0xF4" | "0x80 \<le> b0 \<and> b0 < 0xC2 \<or> 0xF4 < b0"
    by linarith
  then show ?thesis
    by cases (simp_all add: decode_step_def scalar_ascii scalar_replacement scalar_two
      scalar_three scalar_four split: list.split)
qed

text \<open>Whatever the bytes, decoding gives code points that encode again.\<close>

lemma decode_values_scalar: "list_all is_scalar (decode_values bs)"
proof (induction bs rule: decode_values.induct)
  case 1
  then show ?case by simp
next
  case (2 b bs)
  obtain c n where cn: "decode_step b bs = (c, n)" by fastforce
  have "list_all is_scalar (decode_values (drop (n - 1) bs))"
    using "2.IH"[OF cn[symmetric] refl] .
  then show ?case using decode_step_scalar[of b bs] cn by simp
qed

lemma decode_utf8_scalar: "list_all is_scalar (decode_utf8_replace bs)"
  unfolding decode_utf8_replace_def by (rule decode_values_scalar)

lemma unat_byte_of: "n < 256 \<Longrightarrow> unat (byte_of n) = n"
  by (simp add: unat_of_nat)

text \<open>The digits of a code point in base 64, with the bounds of each length of encoding.\<close>

lemma base64_digits:
  fixes c :: nat
  shows "c = c div 64 * 64 + c mod 64" "c mod 64 < 64"
    "c = c div 4096 * 4096 + c div 64 mod 64 * 64 + c mod 64" "c div 64 mod 64 < 64"
    "c = c div 262144 * 262144 + c div 4096 mod 64 * 4096 + c div 64 mod 64 * 64 + c mod 64"
    "c div 4096 mod 64 < 64"
proof -
  have 2: "c div 4096 = c div 64 div 64" by (simp flip: div_mult2_eq)
  have 3: "c div 262144 = c div 4096 div 64" by (simp flip: div_mult2_eq)
  have d: "n = n div 64 * 64 + n mod 64" for n :: nat by simp
  show c1: "c = c div 64 * 64 + c mod 64" by (rule d)
  show c2: "c = c div 4096 * 4096 + c div 64 mod 64 * 64 + c mod 64"
    using c1 d[of "c div 64"] unfolding 2 by linarith
  show "c = c div 262144 * 262144 + c div 4096 mod 64 * 4096 + c div 64 mod 64 * 64 + c mod 64"
    using c2 d[of "c div 4096"] unfolding 3 by linarith
qed simp_all

lemma utf8_two:
  fixes c :: nat assumes "0x80 \<le> c" "c < 0x800"
  shows "0xC2 \<le> 0xC0 + c div 64" "0xC0 + c div 64 \<le> 0xDF" "c div 64 * 64 + c mod 64 = c"
  using assms base64_digits(1,2)[of c] by linarith+

lemma utf8_three:
  fixes c :: nat assumes "0x800 \<le> c" "c < 0x10000" "\<not> is_surrogate c"
  shows "0xE0 + c div 4096 \<le> 0xEF" "second_ok (0xE0 + c div 4096) (0x80 + c div 64 mod 64)"
    "c div 4096 * 4096 + c div 64 mod 64 * 64 + c mod 64 = c"
proof -
  note d = base64_digits(2,3,4)[of c]
  show "0xE0 + c div 4096 \<le> 0xEF" using assms d by linarith
  show "c div 4096 * 4096 + c div 64 mod 64 * 64 + c mod 64 = c" using d by linarith
  have "c div 4096 = 0 \<Longrightarrow> 32 \<le> c div 64 mod 64" using assms(1) d by linarith
  moreover have "c div 4096 = 13 \<Longrightarrow> c div 64 mod 64 \<le> 31"
    using assms(3) d unfolding is_surrogate_def by linarith
  moreover have "c div 4096 \<le> 15" using assms d by linarith
  ultimately show "second_ok (0xE0 + c div 4096) (0x80 + c div 64 mod 64)"
    using d(3) unfolding second_ok_def cont_byte_def by auto
qed

lemma utf8_four:
  fixes c :: nat assumes "0x10000 \<le> c" "c < 0x110000"
  shows "0xF0 + c div 262144 \<le> 0xF4" "second_ok (0xF0 + c div 262144) (0x80 + c div 4096 mod 64)"
    "c div 262144 * 262144 + c div 4096 mod 64 * 4096 + c div 64 mod 64 * 64 + c mod 64 = c"
proof -
  note d = base64_digits(2,4,5,6)[of c]
  show "0xF0 + c div 262144 \<le> 0xF4" using assms d by linarith
  show "c div 262144 * 262144 + c div 4096 mod 64 * 4096 + c div 64 mod 64 * 64 + c mod 64 = c"
    using d by linarith
  have "c div 262144 = 0 \<Longrightarrow> 16 \<le> c div 4096 mod 64" using assms(1) d by linarith
  moreover have "c div 262144 = 4 \<Longrightarrow> c div 4096 mod 64 \<le> 15" using assms(2) d by linarith
  ultimately show "second_ok (0xF0 + c div 262144) (0x80 + c div 4096 mod 64)"
    using d(4) unfolding second_ok_def cont_byte_def by auto
qed

lemma cont_byte_mod [simp]: "cont_byte (0x80 + n mod 64)"
  unfolding cont_byte_def using base64_digits(2)[of n] by linarith

lemma unat_utf8_char:
  assumes "c < 0x110000"
  shows "map unat (utf8_char c) =
    (if c < 0x80 then [c] else if c < 0x800 then [0xC0 + c div 64, 0x80 + c mod 64]
     else if c < 0x10000 then [0xE0 + c div 4096, 0x80 + c div 64 mod 64, 0x80 + c mod 64]
     else [0xF0 + c div 262144, 0x80 + c div 4096 mod 64, 0x80 + c div 64 mod 64, 0x80 + c mod 64])"
proof -
  have "0x80 + n mod 64 < 256" for n :: nat using base64_digits(2)[of n] by linarith
  moreover have "c < 0x800 \<Longrightarrow> 0xC0 + c div 64 < 256" "c < 0x10000 \<Longrightarrow> 0xE0 + c div 4096 < 256"
    "0xF0 + c div 262144 < 256" using assms base64_digits[of c] by linarith+
  ultimately show ?thesis
    by (simp add: utf8_char_def unat_byte_of del: of_nat_add of_nat_mult)
qed

lemma decode_step_utf8_char:
  assumes "is_scalar c"
  obtains b bs where "map unat (utf8_char c) = b # bs"
    and "decode_step b (bs @ rest) = (c, Suc (length bs))"
proof -
  have c: "c < 0x110000" "\<not> is_surrogate c" using assms by (auto simp: is_scalar_def)
  consider "c < 0x80" | "0x80 \<le> c" "c < 0x800" | "0x800 \<le> c" "c < 0x10000" | "0x10000 \<le> c"
    by linarith
  then show thesis
  proof cases
    case 1
    then show ?thesis using c by (intro that[of c "[]"]) (auto simp: unat_utf8_char decode_step_def)
  next
    case 2
    then show ?thesis using c utf8_two[of c]
      by (intro that[of "0xC0 + c div 64" "[0x80 + c mod 64]"])
        (auto simp: unat_utf8_char decode_step_def)
  next
    case 3
    then show ?thesis using c utf8_three[of c]
      by (intro that[of "0xE0 + c div 4096" "[0x80 + c div 64 mod 64, 0x80 + c mod 64]"])
        (auto simp: unat_utf8_char decode_step_def)
  next
    case 4
    then show ?thesis using c utf8_four[of c]
      by (intro that[of "0xF0 + c div 262144"
            "[0x80 + c div 4096 mod 64, 0x80 + c div 64 mod 64, 0x80 + c mod 64]"])
        (auto simp: unat_utf8_char decode_step_def)
  qed
qed

lemma decode_values_utf8_char:
  assumes "is_scalar c"
  shows "decode_values (map unat (utf8_char c) @ rest) = c # decode_values rest"
proof -
  obtain b bs where "map unat (utf8_char c) = b # bs"
    "decode_step b (bs @ rest) = (c, Suc (length bs))"
    by (rule decode_step_utf8_char[OF assms])
  then show ?thesis by simp
qed

text \<open>Decoding what was encoded gives the string back.\<close>

lemma utf8_decode_encode: "encode_utf8 s = Inr bs \<Longrightarrow> decode_utf8_replace bs = s"
proof -
  assume "encode_utf8 s = Inr bs"
  then have s: "list_all is_scalar s" and bs: "bs = concat (map utf8_char s)"
    by (auto simp: encode_utf8_def split: if_splits)
  from s have "decode_values (map unat (concat (map utf8_char s))) = s"
    by (induction s) (auto simp: decode_values_utf8_char)
  then show ?thesis by (simp add: bs decode_utf8_replace_def)
qed

text \<open>NUL is the only code point whose encoding holds a zero byte, and only a zero byte decodes to it.\<close>

lemma decode_step_nonzero: "b0 \<noteq> 0 \<Longrightarrow> fst (decode_step b0 bs) \<noteq> 0"
proof -
  assume "b0 \<noteq> 0"
  consider "b0 < 0x80" | "0xC2 \<le> b0 \<and> b0 \<le> 0xDF" | "0xE0 \<le> b0 \<and> b0 \<le> 0xEF"
    | "0xF0 \<le> b0 \<and> b0 \<le> 0xF4" | "0x80 \<le> b0 \<and> b0 < 0xC2 \<or> 0xF4 < b0"
    by linarith
  then show ?thesis using \<open>b0 \<noteq> 0\<close>
    by cases (auto simp: decode_step_def replacement_def second_ok_def split: list.split if_splits)
qed

lemma decode_values_nonzero: "0 \<notin> set bs \<Longrightarrow> 0 \<notin> set (decode_values bs)"
proof (induction bs rule: decode_values.induct)
  case 1
  then show ?case by simp
next
  case (2 b bs)
  obtain c n where cn: "decode_step b bs = (c, n)" by fastforce
  have "0 \<notin> set (drop (n - 1) bs)" using "2.prems" by (auto dest: in_set_dropD)
  then have "0 \<notin> set (decode_values (drop (n - 1) bs))"
    by (rule "2.IH"[OF cn[symmetric] refl])
  then show ?case using decode_step_nonzero[of b bs] "2.prems" cn by auto
qed

lemma decode_utf8_nonzero: "0 \<notin> set bs \<Longrightarrow> 0 \<notin> set (decode_utf8_replace bs)"
  unfolding decode_utf8_replace_def by (rule decode_values_nonzero) (auto simp: unat_eq_zero)

lemma utf8_char_nonzero: "is_scalar c \<Longrightarrow> c \<noteq> 0 \<Longrightarrow> 0 \<notin> set (utf8_char c)"
proof
  assume c: "is_scalar c" "c \<noteq> 0" and "0 \<in> set (utf8_char c)"
  then have "0 \<in> set (map unat (utf8_char c))" by force
  moreover have "c < 0x110000" using c by (simp add: is_scalar_def)
  ultimately show False using c(2) by (subst (asm) unat_utf8_char) (auto split: if_splits)
qed

lemma encode_utf8_nonzero:
  "encode_utf8 s = Inr bs \<Longrightarrow> 0 \<notin> set s \<Longrightarrow> 0 \<notin> set bs"
proof -
  assume "encode_utf8 s = Inr bs" and "0 \<notin> set s"
  then have "list_all is_scalar s" and bs: "bs = concat (map utf8_char s)"
    by (auto simp: encode_utf8_def split: if_splits)
  then show ?thesis using \<open>0 \<notin> set s\<close> utf8_char_nonzero
    by (auto simp: list_all_iff)
qed

lemma encode_utf8_Cons:
  "encode_utf8 (c # s) =
     (if is_scalar c then rmap ((@) (utf8_char c)) (encode_utf8 s) else Inl UnicodeEncodeError)"
  by (simp add: encode_utf8_def)

lemma encode_utf8_Nil [simp]: "encode_utf8 [] = Inr []"
  by (simp add: encode_utf8_def)

lemma encode_utf8_inj:
  "encode_utf8 s = Inr bs \<Longrightarrow> encode_utf8 t = Inr bs \<Longrightarrow> s = t"
  using utf8_decode_encode by metis

lemma encode_utf8_ascii:
  "list_all (\<lambda>c. c < 128) s \<Longrightarrow> encode_utf8 s = Inr (map byte_of s)"
proof -
  assume s: "list_all (\<lambda>c. c < 128) s"
  then have "list_all is_scalar s" by (rule list.pred_mono_strong) (rule scalar_ascii)
  moreover from s have "concat (map utf8_char s) = map byte_of s"
    by (induction s) (auto simp: utf8_char_def)
  ultimately show ?thesis by (simp add: encode_utf8_def)
qed

subsection \<open>Fixed-width names\<close>

text \<open>\<open>name.encode("ascii")[:16].ljust(16, b"\0")\<close>\<close>

definition name16 :: "pystr \<Rightarrow> bytes result" where
  "name16 s = rmap (\<lambda>bs. take 16 bs @ replicate (16 - length (take 16 bs)) 0) (encode_ascii s)"

lemma name16_length: "name16 s = Inr bs \<Longrightarrow> length bs = 16"
  by (auto simp: name16_def result_iff)

lemma name16_ok: "list_all (\<lambda>c. c < 128) s \<Longrightarrow> \<exists>bs. name16 s = Inr bs"
  by (simp add: name16_def encode_ascii_def)

subsection \<open>Numerals\<close>

function digits :: "nat \<Rightarrow> nat \<Rightarrow> nat list" where
  "digits base n = (if base \<le> 1 \<or> n < base then [n] else digits base (n div base) @ [n mod base])"
  by pat_completeness auto
termination
  by (relation "measure snd") auto

declare digits.simps [simp del]

definition digit_char :: "nat \<Rightarrow> nat" where
  "digit_char d = (if d < 10 then 48 + d else 87 + d)"

text \<open>\<open>f"{n}"\<close> and \<open>hex(n)\<close>, with the sign of a negative number.\<close>

definition py_dec :: "int \<Rightarrow> pystr" where
  "py_dec n = (if n < 0 then lit ''-'' else []) @ map digit_char (digits 10 (nat \<bar>n\<bar>))"

definition py_hex :: "int \<Rightarrow> pystr" where
  "py_hex n = (if n < 0 then lit ''-'' else []) @ lit ''0x'' @ map digit_char (digits 16 (nat \<bar>n\<bar>))"

definition digit_value :: "nat \<Rightarrow> nat option" where
  "digit_value c =
     (if 48 \<le> c \<and> c \<le> 57 then Some (c - 48)
      else if 97 \<le> c \<and> c \<le> 102 then Some (c - 87)
      else if 65 \<le> c \<and> c \<le> 70 then Some (c - 55)
      else None)"

fun digits_value :: "int \<Rightarrow> pystr \<Rightarrow> int result" where
  "digits_value acc [] = Inr acc"
| "digits_value acc (c # cs) =
     (case digit_value c of None \<Rightarrow> Inl BadIntLiteral
      | Some d \<Rightarrow> digits_value (16 * acc + int d) cs)"

text \<open>
  \<open>int(s, 16)\<close> on an optional sign, an optional \<open>0x\<close> and hexadecimal digits; every other
  literal raises \<open>ValueError\<close> here (surrounding blanks and underscores between digits, which
  Python also accepts, never occur in what \<open>hex\<close> prints).
\<close>

definition strip_0x :: "pystr \<Rightarrow> pystr" where
  "strip_0x s = (if take 2 s = lit ''0x'' \<or> take 2 s = lit ''0X'' then drop 2 s else s)"

definition int16 :: "pystr \<Rightarrow> int result" where
  "int16 s =
     (let neg = (take 1 s = lit ''-'');
          body = strip_0x (if neg \<or> take 1 s = lit ''+'' then drop 1 s else s)
      in if body = [] then Inl BadIntLiteral
         else rmap (\<lambda>v. if neg then - v else v) (digits_value 0 body))"

lemma digits_nonempty [simp]: "digits base n \<noteq> []"
  by (subst digits.simps) simp

lemma digits_less: "1 < base \<Longrightarrow> d \<in> set (digits base n) \<Longrightarrow> d < base"
proof (induction base n rule: digits.induct)
  case (1 base n)
  then show ?case by (subst (asm) (2) digits.simps) (auto split: if_splits)
qed

lemma digit_value_char: "d < 16 \<Longrightarrow> digit_value (digit_char d) = Some d"
  by (auto simp: digit_value_def digit_char_def)

lemma digits_value_append:
  "digits_value acc (s @ t) = rbind (digits_value acc s) (\<lambda>v. digits_value v t)"
  by (induction s arbitrary: acc) (auto split: option.split)

lemma digits_value_digits:
  "digits_value 0 (map digit_char (digits 16 n)) = Inr (int n)"
proof (induction "16::nat" n rule: digits.induct)
  case (1 n)
  show ?case
  proof (cases "n < 16")
    case True
    then show ?thesis by (subst digits.simps) (simp add: digit_value_char)
  next
    case False
    then have "digits_value 0 (map digit_char (digits 16 (n div 16))) = Inr (int (n div 16))"
      using 1 by simp
    moreover have "16 * int (n div 16) + int (n mod 16) = int n"
      by (metis of_nat_add of_nat_mult mult_div_mod_eq of_nat_numeral)
    ultimately show ?thesis using False
      by (subst digits.simps) (simp add: digits_value_append digit_value_char)
  qed
qed

text \<open>\<open>int(hex(n), 16) == n\<close>\<close>

lemma int16_hex: "int16 (py_hex n) = Inr n"
proof (cases "n < 0")
  case True
  then show ?thesis
    by (simp add: int16_def py_hex_def strip_0x_def digits_value_digits Let_def lit_simps)
next
  case False
  then show ?thesis
    by (simp add: int16_def py_hex_def strip_0x_def digits_value_digits Let_def lit_simps)
qed

lemma py_dec_ascii: "list_all (\<lambda>c. c < 128) (py_dec n)"
  using digits_less[of 10 _ "nat \<bar>n\<bar>"]
  by (force simp: py_dec_def list_all_iff digit_char_def lit_simps)

lemma length_utf8_char: "length (utf8_char c) \<le> 4"
  by (simp add: utf8_char_def)

lemma length_encode_utf8: "encode_utf8 s = Inr bs \<Longrightarrow> length bs \<le> 4 * length s"
proof -
  have "length (concat (map utf8_char s)) \<le> 4 * length s"
    using length_utf8_char by (induction s) (simp_all add: add_le_mono)
  then show "encode_utf8 s = Inr bs \<Longrightarrow> ?thesis" by (auto simp: encode_utf8_def split: if_splits)
qed

end
