(* ===== verification/Elf.thy ===== *)
theory Elf
  imports Py_Struct Py_Text
begin

section \<open>The ELF64 reader (\<open>elf.py\<close>)\<close>

text \<open>
  \<open>Elf64.__init__\<close> parses the file header, the program headers and the section headers and keeps
  them with the bytes; everything else reads tables out of the bytes on demand. The parser is
  \<open>parse_elf\<close>; an \<open>elf64\<close> record is the object. Every integer is a Python \<open>int\<close>; \<open>elf_wf\<close> states
  the widths the header fields have after parsing, and the table readers are shown never to
  raise on such an object, whatever the bytes say.
\<close>

subsection \<open>Constants and records\<close>

definition elf_magic :: bytes where
  "elf_magic = [0x7F, 0x45, 0x4C, 0x46]"

definition EM_AARCH64 :: int where "EM_AARCH64 = 183"
definition ET_DYN :: int where "ET_DYN = 3"
definition SHT_DYNSYM :: int where "SHT_DYNSYM = 11"
definition SHT_RELA :: int where "SHT_RELA = 4"
definition SHN_UNDEF :: int where "SHN_UNDEF = 0"
definition DT_NEEDED :: int where "DT_NEEDED = 1"

lemmas elf_consts = EM_AARCH64_def ET_DYN_def SHT_DYNSYM_def SHT_RELA_def SHN_UNDEF_def DT_NEEDED_def

definition aarch64_relocs :: "(int \<times> pystr) list" where
  "aarch64_relocs =
     [(257, lit ''R_AARCH64_ABS64''), (1025, lit ''R_AARCH64_GLOB_DAT''),
      (1026, lit ''R_AARCH64_JUMP_SLOT''), (1027, lit ''R_AARCH64_RELATIVE'')]"

definition android_import_prefixes :: "pystr list" where
  "android_import_prefixes =
     [lit ''__android_'', lit ''ANativeWindow_'', lit ''ALooper_'', lit ''AInput'', lit ''AAsset'',
      lit ''AMotionEvent_'', lit ''AKeyEvent_'', lit ''android_'']"

record program_header =
  p_type :: int
  p_flags :: int
  p_offset :: int
  p_vaddr :: int
  p_filesz :: int
  p_memsz :: int
  p_align :: int

record section_header =
  sh_name_off :: int
  sh_type :: int
  sh_flags :: int
  sh_addr :: int
  sh_offset :: int
  sh_size :: int
  sh_link :: int
  sh_info :: int
  sh_addralign :: int
  sh_entsize :: int
  sh_name :: pystr

record elf_header =
  e_type :: int
  e_machine :: int
  e_version :: int
  e_entry :: int
  e_phoff :: int
  e_shoff :: int
  e_flags :: int
  e_ehsize :: int
  e_phentsize :: int
  e_phnum :: int
  e_shentsize :: int
  e_shnum :: int
  e_shstrndx :: int

record elf64 =
  edata :: bytes
  esource :: pystr
  ehdr :: elf_header
  program_headers :: "program_header list"
  sections :: "section_header list"

record elf_symbol =
  sym_name :: pystr
  st_info :: int
  st_other :: int
  st_shndx :: int
  st_value :: int
  st_size :: int

subsection \<open>Parsing\<close>

definition header_codes :: "code list" where
  "header_codes = [C_16s, C_H, C_H, C_I, C_Q, C_Q, C_Q, C_I, C_H, C_H, C_H, C_H, C_H, C_H]"

definition parse_header :: "bytes \<Rightarrow> elf_header result" where
  "parse_header d =
     (if length d < 64 \<or> py_slice d 0 4 \<noteq> elf_magic then Inl (ElfError Not_An_Elf_File)
      else if d ! 4 \<noteq> 2 then Inl (ElfError Only_Elf64)
      else if d ! 5 \<noteq> 1 then Inl (ElfError Only_Little_Endian)
      else rbind (unpack_from header_codes d 0) (\<lambda>hdr.
        case hdr of
          [S16 _, U16 ty, U16 machine, U32 version, U64 entry, U64 phoff, U64 shoff, U32 fl,
           U16 ehsize, U16 phentsize, U16 phnum, U16 shentsize, U16 shnum, U16 shstrndx] \<Rightarrow>
            Inr \<lparr>e_type = ty, e_machine = machine, e_version = version, e_entry = entry,
                 e_phoff = phoff, e_shoff = shoff, e_flags = fl, e_ehsize = ehsize,
                 e_phentsize = phentsize, e_phnum = phnum, e_shentsize = shentsize,
                 e_shnum = shnum, e_shstrndx = shstrndx\<rparr>
        | _ \<Rightarrow> Inl StructError))"

definition phdr_codes :: "code list" where
  "phdr_codes = [C_I, C_I, C_Q, C_Q, C_Q, C_Q, C_Q, C_Q]"

definition parse_program_header :: "bytes \<Rightarrow> int \<Rightarrow> program_header result" where
  "parse_program_header d off =
     rbind (unpack_from phdr_codes d off) (\<lambda>vals.
       case vals of
         [U32 ty, U32 fl, U64 offset, U64 vaddr, U64 _, U64 filesz, U64 memsz, U64 al] \<Rightarrow>
           Inr \<lparr>p_type = ty, p_flags = fl, p_offset = offset, p_vaddr = vaddr,
                p_filesz = filesz, p_memsz = memsz, p_align = al\<rparr>
       | _ \<Rightarrow> Inl StructError)"

definition parse_program_headers :: "elf_header \<Rightarrow> bytes \<Rightarrow> program_header list result" where
  "parse_program_headers h d =
     mapM_r (\<lambda>i. parse_program_header d (e_phoff h + i * e_phentsize h)) [0 .. e_phnum h - 1]"

definition shdr_codes :: "code list" where
  "shdr_codes = [C_I, C_I, C_Q, C_Q, C_Q, C_Q, C_I, C_I, C_Q, C_Q]"

definition parse_section_header :: "bytes \<Rightarrow> int \<Rightarrow> section_header result" where
  "parse_section_header d off =
     rbind (unpack_from shdr_codes d off) (\<lambda>vals.
       case vals of
         [U32 name_off, U32 ty, U64 fl, U64 addr, U64 offset, U64 sz, U32 link, U32 info,
          U64 addralign, U64 entsize] \<Rightarrow>
           Inr \<lparr>sh_name_off = name_off, sh_type = ty, sh_flags = fl, sh_addr = addr,
                sh_offset = offset, sh_size = sz, sh_link = link, sh_info = info,
                sh_addralign = addralign, sh_entsize = entsize, sh_name = []\<rparr>
       | _ \<Rightarrow> Inl StructError)"

definition raw_sections :: "elf_header \<Rightarrow> bytes \<Rightarrow> section_header list result" where
  "raw_sections h d =
     mapM_r (\<lambda>i. parse_section_header d (e_shoff h + i * e_shentsize h)) [0 .. e_shnum h - 1]"

text \<open>\<open>buf.find(b"\0", off)\<close> for an offset inside the buffer: -1 when there is none.\<close>

definition find_zero :: "bytes \<Rightarrow> int \<Rightarrow> int" where
  "find_zero buf off =
     (let k = off + int (length (takeWhile (\<lambda>b. b \<noteq> 0) (drop (nat off) buf)))
      in if k < int (length buf) then k else -1)"

definition cstring :: "bytes \<Rightarrow> int \<Rightarrow> pystr" where
  "cstring buf off =
     (if off < 0 \<or> off \<ge> int (length buf) then []
      else (let e = find_zero buf off;
                e' = (if e < 0 then int (length buf) else e)
            in decode_utf8_replace (py_slice buf off e')))"

definition parse_sections :: "elf_header \<Rightarrow> bytes \<Rightarrow> section_header list result" where
  "parse_sections h d =
     rbind (raw_sections h d) (\<lambda>raw.
       if raw = [] \<or> e_shstrndx h \<ge> int (length raw) then Inr raw
       else (let shstr = raw ! nat (e_shstrndx h);
                 names = py_slice d (sh_offset shstr) (sh_offset shstr + sh_size shstr)
             in Inr (map (\<lambda>s. s\<lparr>sh_name := cstring names (sh_name_off s)\<rparr>) raw)))"

definition parse_elf :: "bytes \<Rightarrow> pystr \<Rightarrow> elf64 result" where
  "parse_elf d src =
     rbind (parse_header d) (\<lambda>h.
       rbind (parse_program_headers h d) (\<lambda>phs.
         rbind (parse_sections h d) (\<lambda>secs.
           Inr \<lparr>edata = d, esource = src, ehdr = h, program_headers = phs, sections = secs\<rparr>)))"

subsection \<open>C strings\<close>

lemma cstring_takeWhile:
  assumes "0 \<le> off" and "off < int (length buf)"
  shows "cstring buf off = decode_utf8_replace (takeWhile (\<lambda>b. b \<noteq> 0) (drop (nat off) buf))"
proof -
  define tail where "tail = drop (nat off) buf"
  define w where "w = takeWhile (\<lambda>b. b \<noteq> 0) tail"
  have len: "length tail = length buf - nat off" by (simp add: tail_def)
  have w_le: "length w \<le> length tail" by (simp add: w_def length_takeWhile_le)
  have pre: "w = take (length w) tail"
    unfolding w_def by (rule takeWhile_eq_take)
  show ?thesis
  proof (cases "length w = length tail")
    case True
    then have "py_slice buf off (int (length buf)) = w"
      using assms pre len by (simp add: py_slice_nonneg tail_def)
    moreover have "find_zero buf off = -1"
      using True assms len by (simp add: find_zero_def Let_def w_def tail_def)
    ultimately show ?thesis using assms by (simp add: cstring_def w_def tail_def)
  next
    case False
    then have f: "find_zero buf off = off + int (length w)"
      using w_le assms len by (simp add: find_zero_def Let_def w_def tail_def)
    then have "py_slice buf off (off + int (length w)) = w"
      using assms pre by (simp add: py_slice_nonneg tail_def)
    then show ?thesis using assms f by (simp add: cstring_def w_def tail_def)
  qed
qed

lemma cstring_scalar: "list_all is_scalar (cstring buf off)"
  by (simp add: cstring_def Let_def decode_utf8_scalar)

lemma cstring_no_nul: "0 \<notin> set (cstring buf off)"
proof (cases "off < 0 \<or> off \<ge> int (length buf)")
  case True
  then show ?thesis by (simp add: cstring_def)
next
  case False
  have "0 \<notin> set (takeWhile (\<lambda>b. b \<noteq> 0) (drop (nat off) buf))"
    using set_takeWhileD by fastforce
  then show ?thesis using False decode_utf8_nonzero by (simp add: cstring_takeWhile)
qed

text \<open>A string stored with its terminating NUL reads back.\<close>

lemma cstring_stored:
  assumes "encode_utf8 s = Inr bs" and "0 \<notin> set s" and "buf = pre @ bs @ 0 # post"
  shows "cstring buf (int (length pre)) = s"
proof -
  have "0 \<notin> set bs" by (rule encode_utf8_nonzero[OF assms(1,2)])
  then have "takeWhile (\<lambda>b. b \<noteq> 0) (bs @ 0 # post) = bs"
    by (subst takeWhile_append2) auto
  then show ?thesis
    using assms by (simp add: cstring_takeWhile utf8_decode_encode)
qed

subsection \<open>Field widths\<close>

definition phdr_ok :: "program_header \<Rightarrow> bool" where
  "phdr_ok ph \<longleftrightarrow> item_ok (U32 (p_type ph)) \<and> item_ok (U32 (p_flags ph)) \<and> item_ok (U64 (p_offset ph))
     \<and> item_ok (U64 (p_vaddr ph)) \<and> item_ok (U64 (p_filesz ph)) \<and> item_ok (U64 (p_memsz ph))
     \<and> item_ok (U64 (p_align ph))"

definition shdr_ok :: "section_header \<Rightarrow> bool" where
  "shdr_ok s \<longleftrightarrow> item_ok (U32 (sh_name_off s)) \<and> item_ok (U32 (sh_type s)) \<and> item_ok (U64 (sh_flags s))
     \<and> item_ok (U64 (sh_addr s)) \<and> item_ok (U64 (sh_offset s)) \<and> item_ok (U64 (sh_size s))
     \<and> item_ok (U32 (sh_link s)) \<and> item_ok (U32 (sh_info s)) \<and> item_ok (U64 (sh_addralign s))
     \<and> item_ok (U64 (sh_entsize s))"

definition ehdr_ok :: "elf_header \<Rightarrow> bool" where
  "ehdr_ok h \<longleftrightarrow> item_ok (U16 (e_type h)) \<and> item_ok (U16 (e_machine h)) \<and> item_ok (U32 (e_version h))
     \<and> item_ok (U64 (e_entry h)) \<and> item_ok (U64 (e_phoff h)) \<and> item_ok (U64 (e_shoff h))
     \<and> item_ok (U32 (e_flags h)) \<and> item_ok (U16 (e_ehsize h)) \<and> item_ok (U16 (e_phentsize h))
     \<and> item_ok (U16 (e_phnum h)) \<and> item_ok (U16 (e_shentsize h)) \<and> item_ok (U16 (e_shnum h))
     \<and> item_ok (U16 (e_shstrndx h))"

definition elf_wf :: "elf64 \<Rightarrow> bool" where
  "elf_wf e \<longleftrightarrow> ehdr_ok (ehdr e) \<and> list_all phdr_ok (program_headers e) \<and> list_all shdr_ok (sections e)"

text \<open>The fields of each header, in file order: what the formats above read.\<close>

definition phdr_items :: "int \<Rightarrow> program_header \<Rightarrow> item list" where
  "phdr_items paddr ph =
     [U32 (p_type ph), U32 (p_flags ph), U64 (p_offset ph), U64 (p_vaddr ph), U64 paddr,
      U64 (p_filesz ph), U64 (p_memsz ph), U64 (p_align ph)]"

definition shdr_items :: "section_header \<Rightarrow> item list" where
  "shdr_items s =
     [U32 (sh_name_off s), U32 (sh_type s), U64 (sh_flags s), U64 (sh_addr s), U64 (sh_offset s),
      U64 (sh_size s), U32 (sh_link s), U32 (sh_info s), U64 (sh_addralign s), U64 (sh_entsize s)]"

definition ehdr_items :: "bytes \<Rightarrow> elf_header \<Rightarrow> item list" where
  "ehdr_items ident h =
     [S16 ident, U16 (e_type h), U16 (e_machine h), U32 (e_version h), U64 (e_entry h),
      U64 (e_phoff h), U64 (e_shoff h), U32 (e_flags h), U16 (e_ehsize h), U16 (e_phentsize h),
      U16 (e_phnum h), U16 (e_shentsize h), U16 (e_shnum h), U16 (e_shstrndx h)]"

lemma parse_program_header_Inr:
  "parse_program_header d off = Inr ph \<longleftrightarrow>
     (\<exists>paddr. unpack_from phdr_codes d off = Inr (phdr_items paddr ph))"
proof
  assume "parse_program_header d off = Inr ph"
  then obtain vals where v: "unpack_from phdr_codes d off = Inr vals"
    and c: "(case vals of
         [U32 ty, U32 fl, U64 offset, U64 vaddr, U64 _, U64 filesz, U64 memsz, U64 al] \<Rightarrow>
           Inr \<lparr>p_type = ty, p_flags = fl, p_offset = offset, p_vaddr = vaddr,
                p_filesz = filesz, p_memsz = memsz, p_align = al\<rparr>
       | _ \<Rightarrow> Inl StructError) = Inr ph"
    by (auto simp: parse_program_header_def rbind_Inr_iff)
  from unpack_from_ok(1)[OF v] c have "\<exists>paddr. vals = phdr_items paddr ph"
    by (auto simp: phdr_codes_def map_eq_Cons_conv phdr_items_def)
  then show "\<exists>paddr. unpack_from phdr_codes d off = Inr (phdr_items paddr ph)" using v by auto
next
  assume "\<exists>paddr. unpack_from phdr_codes d off = Inr (phdr_items paddr ph)"
  then show "parse_program_header d off = Inr ph"
    by (auto simp: parse_program_header_def phdr_items_def)
qed

lemma parse_section_header_Inr:
  "parse_section_header d off = Inr s \<longleftrightarrow>
     unpack_from shdr_codes d off = Inr (shdr_items s) \<and> sh_name s = []"
proof
  assume "parse_section_header d off = Inr s"
  then obtain vals where v: "unpack_from shdr_codes d off = Inr vals"
    and c: "(case vals of
         [U32 name_off, U32 ty, U64 fl, U64 addr, U64 offset, U64 sz, U32 link, U32 info,
          U64 addralign, U64 entsize] \<Rightarrow>
           Inr \<lparr>sh_name_off = name_off, sh_type = ty, sh_flags = fl, sh_addr = addr,
                sh_offset = offset, sh_size = sz, sh_link = link, sh_info = info,
                sh_addralign = addralign, sh_entsize = entsize, sh_name = []\<rparr>
       | _ \<Rightarrow> Inl StructError) = Inr s"
    by (auto simp: parse_section_header_def rbind_Inr_iff)
  from unpack_from_ok(1)[OF v] c have "vals = shdr_items s \<and> sh_name s = []"
    by (auto simp: shdr_codes_def map_eq_Cons_conv shdr_items_def)
  then show "unpack_from shdr_codes d off = Inr (shdr_items s) \<and> sh_name s = []" using v by auto
next
  assume "unpack_from shdr_codes d off = Inr (shdr_items s) \<and> sh_name s = []"
  then show "parse_section_header d off = Inr s"
    by (auto simp: parse_section_header_def shdr_items_def)
qed

text \<open>The header fields at their offsets in the file.\<close>

definition field :: "bytes \<Rightarrow> nat \<Rightarrow> nat \<Rightarrow> int" where
  "field d off n = le_int (take n (drop off d))"

definition header_fields :: "bytes \<Rightarrow> elf_header" where
  "header_fields d =
     \<lparr>e_type = field d 16 2, e_machine = field d 18 2, e_version = field d 20 4,
      e_entry = field d 24 8, e_phoff = field d 32 8, e_shoff = field d 40 8,
      e_flags = field d 48 4, e_ehsize = field d 52 2, e_phentsize = field d 54 2,
      e_phnum = field d 56 2, e_shentsize = field d 58 2, e_shnum = field d 60 2,
      e_shstrndx = field d 62 2\<rparr>"

definition header_valid :: "bytes \<Rightarrow> bool" where
  "header_valid d \<longleftrightarrow> 64 \<le> length d \<and> take 4 d = elf_magic \<and> d ! 4 = 2 \<and> d ! 5 = 1"

lemma parse_header_result:
  "parse_header d =
     (if length d < 64 \<or> take 4 d \<noteq> elf_magic then Inl (ElfError Not_An_Elf_File)
      else if d ! 4 \<noteq> 2 then Inl (ElfError Only_Elf64)
      else if d ! 5 \<noteq> 1 then Inl (ElfError Only_Little_Endian)
      else Inr (header_fields d))"
proof (cases "length d < 64")
  case True
  then show ?thesis by (simp add: parse_header_def)
next
  case False
  then have "unpack_from header_codes d 0 = Inr (unpack header_codes d)"
    by (subst unpack_from_Inr) (simp_all add: header_codes_def)
  then show ?thesis
    by (simp add: parse_header_def header_codes_def header_fields_def field_def py_slice_nonneg)
qed

lemma parse_header_Inr: "parse_header d = Inr h \<longleftrightarrow> header_valid d \<and> h = header_fields d"
  by (auto simp: parse_header_result header_valid_def)

lemma field_bounds: "0 \<le> field d off n" "field d off n < 256 ^ n"
proof -
  have "le_int (take n (drop off d)) < 256 ^ length (take n (drop off d))" by (rule le_int_less)
  also have "(256::int) ^ length (take n (drop off d)) \<le> 256 ^ n"
    by (rule power_increasing) simp_all
  finally show "field d off n < 256 ^ n" by (simp add: field_def)
qed (simp add: field_def)

lemma header_fields_ok: "ehdr_ok (header_fields d)"
  using field_bounds[of d _ 2] field_bounds[of d _ 4] field_bounds[of d _ 8]
  by (simp add: ehdr_ok_def header_fields_def)

lemma code_sizes [simp]:
  "calcsize phdr_codes = 56" "calcsize shdr_codes = 64" "calcsize header_codes = 64"
  by (simp_all add: phdr_codes_def shdr_codes_def header_codes_def)

text \<open>What \<open>struct\<close> raises for an entry at a non-negative offset that runs past the end of the file.\<close>

definition out_of_range :: "int \<Rightarrow> exn" where
  "out_of_range off = (if off < 2 ^ 63 then StructError else OverflowError)"

lemma parse_program_header_bounds:
  assumes "0 \<le> off"
  shows "off + 56 \<le> int (length d) \<Longrightarrow> \<exists>ph. parse_program_header d off = Inr ph \<and> phdr_ok ph"
    and "int (length d) < off + 56 \<Longrightarrow> parse_program_header d off = Inl (out_of_range off)"
proof -
  assume "off + 56 \<le> int (length d)"
  then have v: "unpack_from phdr_codes d off = Inr (unpack phdr_codes (drop (nat off) d))"
    using assms by (intro unpack_from_Inr) simp_all
  obtain a1 a2 a3 a4 a5 a6 a7 a8 where
    a: "unpack phdr_codes (drop (nat off) d) = [U32 a1, U32 a2, U64 a3, U64 a4, U64 a5, U64 a6, U64 a7, U64 a8]"
    using unpack_from_ok(1)[OF v] by (auto simp: phdr_codes_def map_eq_Cons_conv)
  show "\<exists>ph. parse_program_header d off = Inr ph \<and> phdr_ok ph"
    using v unpack_from_ok(2)[OF v] by (simp add: parse_program_header_def a phdr_ok_def)
next
  assume "int (length d) < off + 56"
  then show "parse_program_header d off = Inl (out_of_range off)"
    using assms by (simp add: parse_program_header_def unpack_from_short out_of_range_def)
qed

lemma parse_section_header_bounds:
  assumes "0 \<le> off"
  shows "off + 64 \<le> int (length d) \<Longrightarrow> \<exists>s. parse_section_header d off = Inr s \<and> shdr_ok s"
    and "int (length d) < off + 64 \<Longrightarrow> parse_section_header d off = Inl (out_of_range off)"
proof -
  assume "off + 64 \<le> int (length d)"
  then have v: "unpack_from shdr_codes d off = Inr (unpack shdr_codes (drop (nat off) d))"
    using assms by (intro unpack_from_Inr) simp_all
  obtain a1 a2 a3 a4 a5 a6 a7 a8 a9 a10 where
    a: "unpack shdr_codes (drop (nat off) d)
      = [U32 a1, U32 a2, U64 a3, U64 a4, U64 a5, U64 a6, U32 a7, U32 a8, U64 a9, U64 a10]"
    using unpack_from_ok(1)[OF v] by (auto simp: shdr_codes_def map_eq_Cons_conv)
  show "\<exists>s. parse_section_header d off = Inr s \<and> shdr_ok s"
    using v unpack_from_ok(2)[OF v] by (simp add: parse_section_header_def a shdr_ok_def)
next
  assume "int (length d) < off + 64"
  then show "parse_section_header d off = Inl (out_of_range off)"
    using assms by (simp add: parse_section_header_def unpack_from_short out_of_range_def)
qed

text \<open>
  The entries of the two header tables, each as its offset and its size, in the order the constructor reads them; the
  file holds them all, or one is the first that runs past the end.
\<close>

definition program_entries :: "elf_header \<Rightarrow> (int \<times> int) list" where
  "program_entries h = map (\<lambda>i. (e_phoff h + i * e_phentsize h, 56)) [0 .. e_phnum h - 1]"

definition section_entries :: "elf_header \<Rightarrow> (int \<times> int) list" where
  "section_entries h = map (\<lambda>i. (e_shoff h + i * e_shentsize h, 64)) [0 .. e_shnum h - 1]"

definition past_end :: "bytes \<Rightarrow> int \<times> int \<Rightarrow> bool" where
  "past_end d x \<longleftrightarrow> int (length d) < fst x + snd x"

definition tables_fit :: "elf_header \<Rightarrow> bytes \<Rightarrow> bool" where
  "tables_fit h d \<longleftrightarrow>
     (\<forall>i \<in> set [0 .. e_phnum h - 1]. e_phoff h + i * e_phentsize h + 56 \<le> int (length d)) \<and>
     (\<forall>i \<in> set [0 .. e_shnum h - 1]. e_shoff h + i * e_shentsize h + 64 \<le> int (length d))"

lemma tables_fit_find:
  "tables_fit h d \<longleftrightarrow> find (past_end d) (program_entries h) = None \<and> find (past_end d) (section_entries h) = None"
  by (auto simp: tables_fit_def find_None_iff past_end_def program_entries_def section_entries_def not_less)

text \<open>A loop over a table reads every entry, or raises what the first one past the end raises; both tables share it.\<close>

lemma mapM_r_table:
  assumes "\<And>x. x \<in> set xs \<Longrightarrow> \<not> past_end d x \<Longrightarrow> \<exists>y. f (fst x) = Inr y \<and> good y"
    and "\<And>x. x \<in> set xs \<Longrightarrow> past_end d x \<Longrightarrow> f (fst x) = Inl (out_of_range (fst x))"
  shows "case find (past_end d) xs of
      None \<Rightarrow> \<exists>ys. mapM_r f (map fst xs) = Inr ys \<and> list_all good ys
    | Some x \<Rightarrow> mapM_r f (map fst xs) = Inl (out_of_range (fst x))"
  using assms
proof (induction xs)
  case (Cons x xs)
  have IH: "case find (past_end d) xs of None \<Rightarrow> \<exists>ys. mapM_r f (map fst xs) = Inr ys \<and> list_all good ys
      | Some x \<Rightarrow> mapM_r f (map fst xs) = Inl (out_of_range (fst x))"
    using Cons by simp
  show ?case
  proof (cases "past_end d x")
    case False
    have "\<exists>y. f (fst x) = Inr y \<and> good y" by (rule Cons.prems(1)) (use False in simp_all)
    then show ?thesis using False IH by (auto split: option.splits)
  qed (use Cons.prems(2) in simp)
qed simp

lemma mapM_r_map: "mapM_r f (map g xs) = mapM_r (\<lambda>x. f (g x)) xs"
  by (induction xs) simp_all

lemma parse_program_headers_total:
  assumes "ehdr_ok h"
  shows "case find (past_end d) (program_entries h) of
      None \<Rightarrow> \<exists>phs. parse_program_headers h d = Inr phs \<and> list_all phdr_ok phs
    | Some x \<Rightarrow> parse_program_headers h d = Inl (out_of_range (fst x))"
proof -
  have off: "0 \<le> fst x \<and> snd x = 56" if "x \<in> set (program_entries h)" for x
    using that assms by (auto simp: program_entries_def ehdr_ok_def)
  have eq: "parse_program_headers h d = mapM_r (parse_program_header d) (map fst (program_entries h))"
    by (simp add: parse_program_headers_def program_entries_def mapM_r_map)
  show ?thesis
    unfolding eq
  proof (rule mapM_r_table)
    fix x assume x: "x \<in> set (program_entries h)"
    show "\<not> past_end d x \<Longrightarrow> \<exists>y. parse_program_header d (fst x) = Inr y \<and> phdr_ok y"
      using off[OF x] by (intro parse_program_header_bounds(1)) (simp_all add: past_end_def)
    show "past_end d x \<Longrightarrow> parse_program_header d (fst x) = Inl (out_of_range (fst x))"
      using off[OF x] by (intro parse_program_header_bounds(2)) (simp_all add: past_end_def)
  qed
qed

lemma raw_sections_total:
  assumes "ehdr_ok h"
  shows "case find (past_end d) (section_entries h) of
      None \<Rightarrow> \<exists>ss. raw_sections h d = Inr ss \<and> list_all shdr_ok ss
    | Some x \<Rightarrow> raw_sections h d = Inl (out_of_range (fst x))"
proof -
  have off: "0 \<le> fst x \<and> snd x = 64" if "x \<in> set (section_entries h)" for x
    using that assms by (auto simp: section_entries_def ehdr_ok_def)
  have eq: "raw_sections h d = mapM_r (parse_section_header d) (map fst (section_entries h))"
    by (simp add: raw_sections_def section_entries_def mapM_r_map)
  show ?thesis
    unfolding eq
  proof (rule mapM_r_table)
    fix x assume x: "x \<in> set (section_entries h)"
    show "\<not> past_end d x \<Longrightarrow> \<exists>y. parse_section_header d (fst x) = Inr y \<and> shdr_ok y"
      using off[OF x] by (intro parse_section_header_bounds(1)) (simp_all add: past_end_def)
    show "past_end d x \<Longrightarrow> parse_section_header d (fst x) = Inl (out_of_range (fst x))"
      using off[OF x] by (intro parse_section_header_bounds(2)) (simp_all add: past_end_def)
  qed
qed

lemma shdr_ok_name [simp]: "shdr_ok (s\<lparr>sh_name := n\<rparr>) = shdr_ok s"
  by (simp add: shdr_ok_def)

lemma parse_sections_ok:
  "raw_sections h d = Inr raw \<Longrightarrow> list_all shdr_ok raw \<Longrightarrow>
     \<exists>ss. parse_sections h d = Inr ss \<and> list_all shdr_ok ss"
  by (auto simp: parse_sections_def Let_def list_all_iff)

lemma parse_sections_Inl: "raw_sections h d = Inl x \<Longrightarrow> parse_sections h d = Inl x"
  by (simp add: parse_sections_def)

text \<open>What \<open>Elf64(data)\<close> accepts, and how it rejects: the program headers are read before the sections.\<close>

definition first_past_end :: "elf_header \<Rightarrow> bytes \<Rightarrow> int option" where
  "first_past_end h d = map_option fst (find (past_end d) (program_entries h @ section_entries h))"

lemma find_append_cases: "find P (xs @ ys) = (case find P xs of None \<Rightarrow> find P ys | Some x \<Rightarrow> Some x)"
  by (induction xs) simp_all

lemma tables_fit_first: "tables_fit h d \<longleftrightarrow> first_past_end h d = None"
  by (auto simp: tables_fit_find first_past_end_def find_append_cases split: option.splits)

lemma parse_elf_cases:
  "(header_valid d \<and> tables_fit (header_fields d) d \<longrightarrow>
      (\<exists>e. parse_elf d src = Inr e \<and> elf_wf e \<and> edata e = d \<and> ehdr e = header_fields d)) \<and>
   (\<forall>off. header_valid d \<and> first_past_end (header_fields d) d = Some off \<longrightarrow> parse_elf d src = Inl (out_of_range off)) \<and>
   (\<not> header_valid d \<longrightarrow> (\<exists>r. parse_elf d src = Inl (ElfError r)))"
proof (cases "header_valid d")
  case False
  then show ?thesis
    by (auto simp: parse_elf_def parse_header_result header_valid_def)
next
  case True
  let ?h = "header_fields d"
  note ok = header_fields_ok[of d]
  note ph = parse_program_headers_total[OF ok, of d] and sh = raw_sections_total[OF ok, of d]
  have h: "parse_header d = Inr ?h" using True by (simp add: parse_header_Inr)
  show ?thesis
  proof (cases "tables_fit ?h d")
    case fit: True
    obtain phs where phs: "parse_program_headers ?h d = Inr phs" "list_all phdr_ok phs"
      using ph fit by (auto simp: tables_fit_find)
    obtain raw where raw: "raw_sections ?h d = Inr raw" "list_all shdr_ok raw"
      using sh fit by (auto simp: tables_fit_find)
    obtain ss where "parse_sections ?h d = Inr ss" "list_all shdr_ok ss"
      using parse_sections_ok[OF raw] by blast
    then show ?thesis using True fit h phs ok by (simp add: parse_elf_def elf_wf_def tables_fit_first)
  next
    case unfit: False
    have "parse_elf d src = Inl (out_of_range off)" if off: "first_past_end ?h d = Some off" for off
    proof (cases "find (past_end d) (program_entries ?h)")
      case (Some x)
      then show ?thesis using ph off h by (simp add: parse_elf_def first_past_end_def find_append_cases)
    next
      case None
      then obtain x where x: "find (past_end d) (section_entries ?h) = Some x" "off = fst x"
        using off by (auto simp: first_past_end_def find_append_cases)
      obtain phs where "parse_program_headers ?h d = Inr phs" using ph None by auto
      moreover have "parse_sections ?h d = Inl (out_of_range off)"
        using sh x by (intro parse_sections_Inl) simp
      ultimately show ?thesis using h by (simp add: parse_elf_def)
    qed
    then show ?thesis using True unfit by blast
  qed
qed

lemma parse_elf_wf:
  assumes "parse_elf d src = Inr e"
  shows "elf_wf e" "edata e = d" "ehdr e = header_fields d" "header_valid d"
  using parse_elf_cases[of d src] assms
  by (cases "header_valid d"; cases "first_past_end (header_fields d) d"; fastforce simp: tables_fit_first)+

text \<open>Headers laid out by the format parse back to themselves.\<close>

lemma parse_header_packed:
  assumes "ehdr_ok h" and "length ident = 16" and "take 6 ident = elf_magic @ [2, 1]"
    and "pack (ehdr_items ident h) = Inr p" and "d = p @ rest"
  shows "parse_header d = Inr h"
proof -
  have ok: "\<forall>x \<in> set (ehdr_items ident h). item_ok x"
    using assms(1,2) by (simp add: ehdr_items_def ehdr_ok_def)
  have codes: "map code_of (ehdr_items ident h) = header_codes"
    by (simp add: ehdr_items_def header_codes_def)
  have u: "unpack_from header_codes d 0 = Inr (ehdr_items ident h)"
    using unpack_from_packed[OF ok assms(4), of d "[]" rest 0] assms(5) codes by simp
  have len: "64 \<le> length d"
    using pack_length[OF assms(4)] assms(5) by (simp add: codes)
  have "take 16 d = ident"
    using assms(2,4,5) by (auto simp: ehdr_items_def pack_Cons result_iff pad16_id)
  then have t6: "take 6 d = elf_magic @ [2, 1]" using assms(3) by (auto simp: min_def)
  have "take 4 d = take 4 (take 6 d)" "d ! 4 = take 6 d ! 4" "d ! 5 = take 6 d ! 5" by simp_all
  then have "take 4 d = elf_magic" "d ! 4 = 2" "d ! 5 = 1"
    unfolding t6 by (simp_all add: elf_magic_def)
  then show ?thesis using len u
    by (simp add: parse_header_def py_slice_nonneg ehdr_items_def)
qed

lemma parse_program_header_packed:
  assumes "phdr_ok ph" and "item_ok (U64 paddr)" and "pack (phdr_items paddr ph) = Inr p"
    and "d = pre @ p @ post"
  shows "parse_program_header d (int (length pre)) = Inr ph"
proof -
  have "\<forall>x \<in> set (phdr_items paddr ph). item_ok x"
    using assms(1,2) by (simp add: phdr_items_def phdr_ok_def)
  moreover have "map code_of (phdr_items paddr ph) = phdr_codes"
    by (simp add: phdr_items_def phdr_codes_def)
  ultimately show ?thesis
    using unpack_from_packed[OF _ assms(3,4) refl] by (auto simp: parse_program_header_Inr)
qed

lemma parse_section_header_packed:
  assumes "shdr_ok s" and "sh_name s = []" and "pack (shdr_items s) = Inr p" and "d = pre @ p @ post"
  shows "parse_section_header d (int (length pre)) = Inr s"
proof -
  have "\<forall>x \<in> set (shdr_items s). item_ok x"
    using assms(1) by (simp add: shdr_items_def shdr_ok_def)
  moreover have "map code_of (shdr_items s) = shdr_codes"
    by (simp add: shdr_items_def shdr_codes_def)
  ultimately show ?thesis
    using unpack_from_packed[OF _ assms(3,4) refl] assms(2) by (simp add: parse_section_header_Inr)
qed

end
