(* ===== verification/Elf_Tables.thy ===== *)
theory Elf_Tables
  imports Elf
begin

section \<open>The ELF tables and the report (\<open>elf.py\<close>, lines 114 to 199)\<close>

text \<open>
  Section lookup, the dynamic symbol table, the needed libraries, the relocation counts and the
  report. The loops \<open>for off in range(start, stop, step)\<close> that stop at the first entry past
  the end of the file are \<open>entry_offsets\<close>; the theory shows what the tables contain and that
  reading them never raises.
\<close>

definition section_named :: "elf64 \<Rightarrow> pystr \<Rightarrow> section_header option" where
  "section_named e name = find (\<lambda>s. sh_name s = name) (sections e)"

definition section_data :: "elf64 \<Rightarrow> section_header \<Rightarrow> bytes" where
  "section_data e sec = py_slice (edata e) (sh_offset sec) (sh_offset sec + sh_size sec)"

text \<open>
  The offsets a table loop visits: from \<open>off\<close> in steps below \<open>stop\<close>, until an entry of \<open>need\<close>
  bytes would run past the \<open>len\<close> bytes of the file.
\<close>

function entry_offsets :: "int \<Rightarrow> int \<Rightarrow> int \<Rightarrow> int \<Rightarrow> int \<Rightarrow> int list" where
  "entry_offsets need len step stop off =
     (if 0 < step \<and> off < stop \<and> off + need \<le> len
      then off # entry_offsets need len step stop (off + step) else [])"
  by pat_completeness auto
termination
  by (relation "measure (\<lambda>(need, len, step, stop, off). nat (stop - off))") auto

declare entry_offsets.simps [simp del]

text \<open>\<open>sec.entsize or 24\<close>\<close>

definition entsize_or_24 :: "section_header \<Rightarrow> int" where
  "entsize_or_24 sec = (if sh_entsize sec = 0 then 24 else sh_entsize sec)"

definition table_offsets :: "elf64 \<Rightarrow> section_header \<Rightarrow> int list" where
  "table_offsets e sec =
     entry_offsets 24 (int (length (edata e))) (entsize_or_24 sec)
       (sh_offset sec + sh_size sec) (sh_offset sec)"

definition sym_codes :: "code list" where
  "sym_codes = [C_I, C_B, C_B, C_H, C_Q, C_Q]"

definition read_symbol :: "bytes \<Rightarrow> bytes \<Rightarrow> int \<Rightarrow> elf_symbol result" where
  "read_symbol d strtab off =
     rbind (unpack_from sym_codes d off) (\<lambda>vals.
       case vals of
         [U32 name, U8 info, U8 other, U16 shndx, U64 val, U64 sz] \<Rightarrow>
           Inr \<lparr>sym_name = cstring strtab name, st_info = info, st_other = other,
                st_shndx = shndx, st_value = val, st_size = sz\<rparr>
       | _ \<Rightarrow> Inl StructError)"

definition dynamic_symbols :: "elf64 \<Rightarrow> elf_symbol list result" where
  "dynamic_symbols e =
     (case find (\<lambda>s. sh_type s = SHT_DYNSYM) (sections e) of
        None \<Rightarrow> Inr []
      | Some sec \<Rightarrow>
          if sh_link sec \<ge> int (length (sections e)) then Inr []
          else (let strtab = section_data e (sections e ! nat (sh_link sec))
                in mapM_r (read_symbol (edata e) strtab) (table_offsets e sec)))"

definition undefined_symbols :: "elf64 \<Rightarrow> pystr list result" where
  "undefined_symbols e =
     rmap (\<lambda>syms. sorted_set (map sym_name
             (filter (\<lambda>s. st_shndx s = SHN_UNDEF \<and> sym_name s \<noteq> []) syms)))
       (dynamic_symbols e)"

definition dyn_codes :: "code list" where
  "dyn_codes = [C_q, C_Q]"

fun needed_loop :: "bytes \<Rightarrow> bytes \<Rightarrow> int list \<Rightarrow> pystr list result" where
  "needed_loop d strtab [] = Inr []"
| "needed_loop d strtab (off # offs) =
     rbind (unpack_from dyn_codes d off) (\<lambda>vals.
       case vals of
         [I64 tag, U64 val] \<Rightarrow>
           (let here = (if tag = DT_NEEDED then [cstring strtab val] else [])
            in if tag = 0 then Inr here else rmap ((@) here) (needed_loop d strtab offs))
       | _ \<Rightarrow> Inl StructError)"

definition needed_libraries :: "elf64 \<Rightarrow> pystr list result" where
  "needed_libraries e =
     (case section_named e (lit ''.dynamic'') of
        None \<Rightarrow> Inr []
      | Some dyn \<Rightarrow>
          if sh_link dyn \<ge> int (length (sections e)) then Inr []
          else (let strtab = section_data e (sections e ! nat (sh_link dyn))
                in needed_loop (edata e) strtab
                     (entry_offsets 16 (int (length (edata e))) 16
                        (sh_offset dyn + sh_size dyn) (sh_offset dyn))))"

definition rela_codes :: "code list" where
  "rela_codes = [C_Q, C_Q, C_q]"

text \<open>One \<open>Elf64_Rela\<close> entry: offset, info and addend.\<close>

definition read_rela :: "bytes \<Rightarrow> int \<Rightarrow> (int \<times> int \<times> int) result" where
  "read_rela d off =
     rbind (unpack_from rela_codes d off) (\<lambda>vals.
       case vals of [U64 r_offset, U64 r_info, I64 r_addend] \<Rightarrow> Inr (r_offset, r_info, r_addend)
       | _ \<Rightarrow> Inl StructError)"

text \<open>The entries of all \<open>SHT_RELA\<close> sections, in file order.\<close>

definition rela_entries :: "elf64 \<Rightarrow> (int \<times> int \<times> int) list result" where
  "rela_entries e =
     rmap concat (mapM_r (\<lambda>sec. mapM_r (read_rela (edata e)) (table_offsets e sec))
       (filter (\<lambda>s. sh_type s = SHT_RELA) (sections e)))"

definition reloc_name :: "int \<Rightarrow> pystr" where
  "reloc_name r_type =
     (case map_of aarch64_relocs r_type of
        Some n \<Rightarrow> n
      | None \<Rightarrow> lit ''AARCH64_RELOC_'' @ py_dec r_type)"

definition relocation_counts :: "elf64 \<Rightarrow> (pystr \<times> int) list result" where
  "relocation_counts e =
     rmap (\<lambda>rs. sorted_counts (count_all (map (\<lambda>(_, info, _). reloc_name (info AND 0xFFFFFFFF)) rs)))
       (rela_entries e)"

definition android_specific_imports :: "elf64 \<Rightarrow> pystr list result" where
  "android_specific_imports e =
     rmap (filter (\<lambda>s. list_ex (starts_with s) android_import_prefixes)) (undefined_symbols e)"

record elf_report =
  rep_source :: pystr
  rep_elf64 :: bool
  rep_machine :: int
  rep_is_aarch64 :: bool
  rep_type :: int
  rep_is_shared_object :: bool
  rep_entry :: pystr
  rep_program_headers :: int
  rep_sections :: int
  rep_needed :: "pystr list"
  rep_undefined_import_count :: int
  rep_android_specific_import_count :: int
  rep_android_specific_imports :: "pystr list"
  rep_relocations :: "(pystr \<times> int) list"
  rep_unknown_relocation_types :: "pystr list"
  rep_phase1_candidate :: bool

definition report :: "elf64 \<Rightarrow> elf_report result" where
  "report e =
     rbind (undefined_symbols e) (\<lambda>imports.
     rbind (android_specific_imports e) (\<lambda>android_imports.
     rbind (relocation_counts e) (\<lambda>counts.
     rbind (needed_libraries e) (\<lambda>needed.
       let unknown = filter (\<lambda>k. k \<notin> set (map snd aarch64_relocs)) (map fst counts);
           machine = e_machine (ehdr e); ty = e_type (ehdr e)
       in Inr \<lparr>rep_source = esource e, rep_elf64 = True, rep_machine = machine,
               rep_is_aarch64 = (machine = EM_AARCH64), rep_type = ty,
               rep_is_shared_object = (ty = ET_DYN), rep_entry = py_hex (e_entry (ehdr e)),
               rep_program_headers = int (length (program_headers e)),
               rep_sections = int (length (sections e)), rep_needed = needed,
               rep_undefined_import_count = int (length imports),
               rep_android_specific_import_count = int (length android_imports),
               rep_android_specific_imports = android_imports, rep_relocations = counts,
               rep_unknown_relocation_types = unknown,
               rep_phase1_candidate =
                 (machine = EM_AARCH64 \<and> ty = ET_DYN \<and> unknown = [])\<rparr>))))"

subsection \<open>Reading the tables never raises\<close>

lemma entry_offsets_range:
  "x \<in> set (entry_offsets need len step stop off) \<Longrightarrow> off \<le> x \<and> x < stop \<and> x + need \<le> len"
proof (induction need len step stop off rule: entry_offsets.induct)
  case (1 need len step stop off)
  then show ?case
    by (subst (asm) (2) entry_offsets.simps) (fastforce split: if_splits)
qed

lemma entry_offsets_sorted: "sorted_wrt (<) (entry_offsets need len step stop off)"
proof (induction need len step stop off rule: entry_offsets.induct)
  case (1 need len step stop off)
  then show ?case
    by (subst entry_offsets.simps) (auto dest: entry_offsets_range)
qed

text \<open>The loop visits the multiples of the entry size that lie inside the table and the file.\<close>

lemma set_entry_offsets:
  assumes "0 < step"
  shows "set (entry_offsets need len step stop off)
    = {x. \<exists>k \<ge> 0. x = off + k * step \<and> x < stop \<and> x + need \<le> len}"
  using assms
proof (induction need len step stop off rule: entry_offsets.induct)
  case (1 need len step stop off)
  let ?S = "\<lambda>o'. {x. \<exists>k \<ge> 0. x = o' + k * step \<and> x < stop \<and> x + need \<le> len}"
  have later: "?S (off + step) = {x. \<exists>k \<ge> 1. x = off + k * step \<and> x < stop \<and> x + need \<le> len}"
  proof (intro set_eqI iffI)
    fix x assume "x \<in> ?S (off + step)"
    then obtain k where "k \<ge> 0" "x = off + step + k * step" "x < stop" "x + need \<le> len" by auto
    then show "x \<in> {x. \<exists>k \<ge> 1. x = off + k * step \<and> x < stop \<and> x + need \<le> len}"
      by (intro CollectI exI[of _ "k + 1"]) (simp add: algebra_simps)
  next
    fix x assume "x \<in> {x. \<exists>k \<ge> 1. x = off + k * step \<and> x < stop \<and> x + need \<le> len}"
    then obtain k where "k \<ge> 1" "x = off + k * step" "x < stop" "x + need \<le> len" by auto
    then show "x \<in> ?S (off + step)"
      by (intro CollectI exI[of _ "k - 1"]) (simp add: algebra_simps)
  qed
  show ?case
  proof (cases "off < stop \<and> off + need \<le> len")
    case True
    then have "set (entry_offsets need len step stop off)
      = insert off (set (entry_offsets need len step stop (off + step)))"
      using 1 by (subst entry_offsets.simps) simp
    also have "\<dots> = insert off (?S (off + step))" using 1 True by simp
    also have "\<dots> = ?S off"
    proof (intro set_eqI iffI)
      fix x assume "x \<in> insert off (?S (off + step))"
      then consider "x = off" | k where "k \<ge> 1" "x = off + k * step" "x < stop" "x + need \<le> len"
        unfolding later by auto
      then show "x \<in> ?S off"
      proof cases
        case 1
        then show ?thesis using True by (auto intro!: exI[of _ 0])
      next
        case (2 k)
        then show ?thesis by (auto intro!: exI[of _ k])
      qed
    next
      fix x assume "x \<in> ?S off"
      then obtain k where k: "k \<ge> 0" "x = off + k * step" "x < stop" "x + need \<le> len" by auto
      show "x \<in> insert off (?S (off + step))"
      proof (cases "k = 0")
        case False
        then have "k \<ge> 1" using k(1) by simp
        then show ?thesis unfolding later using k by auto
      qed (use k in simp)
    qed
    finally show ?thesis .
  next
    case False
    have "x < stop \<and> x + need \<le> len \<Longrightarrow> x = off + k * step \<Longrightarrow> k \<ge> 0 \<Longrightarrow> False" for x k
    proof -
      assume a: "x < stop \<and> x + need \<le> len" "x = off + k * step" "k \<ge> 0"
      have "0 \<le> k * step" using a(3) "1.prems" by simp
      then show False using a False by linarith
    qed
    then show ?thesis using False by (subst entry_offsets.simps) auto
  qed
qed

lemma entsize_or_24_pos: "shdr_ok sec \<Longrightarrow> 0 < entsize_or_24 sec"
  by (auto simp: shdr_ok_def entsize_or_24_def)

lemma table_offsets_range:
  assumes "shdr_ok sec" and "off \<in> set (table_offsets e sec)"
  shows "0 \<le> off" "off + 24 \<le> int (length (edata e))"
  using entry_offsets_range[of off] assms by (force simp: table_offsets_def shdr_ok_def)+

definition symbol_ok :: "elf_symbol \<Rightarrow> bool" where
  "symbol_ok s \<longleftrightarrow> list_all is_scalar (sym_name s) \<and> 0 \<notin> set (sym_name s) \<and> item_ok (U8 (st_info s))
     \<and> item_ok (U8 (st_other s)) \<and> item_ok (U16 (st_shndx s)) \<and> item_ok (U64 (st_value s))
     \<and> item_ok (U64 (st_size s))"

lemma read_symbol_total:
  assumes "0 \<le> off" and "off + 24 \<le> int (length d)"
  shows "\<exists>s. read_symbol d strtab off = Inr s \<and> symbol_ok s"
proof -
  have v: "unpack_from sym_codes d off = Inr (unpack sym_codes (drop (nat off) d))"
    using assms by (intro unpack_from_Inr) (simp_all add: sym_codes_def)
  obtain a1 a2 a3 a4 a5 a6 where
    a: "unpack sym_codes (drop (nat off) d) = [U32 a1, U8 a2, U8 a3, U16 a4, U64 a5, U64 a6]"
    using unpack_from_ok(1)[OF v] by (auto simp: sym_codes_def map_eq_Cons_conv)
  show ?thesis
    using v unpack_from_ok(2)[OF v]
    by (simp add: read_symbol_def a symbol_ok_def cstring_scalar cstring_no_nul)
qed

definition rela_ok :: "int \<times> int \<times> int \<Rightarrow> bool" where
  "rela_ok r = (case r of (off, info, addend) \<Rightarrow>
     item_ok (U64 off) \<and> item_ok (U64 info) \<and> item_ok (I64 addend))"

lemma read_rela_total:
  assumes "0 \<le> off" and "off + 24 \<le> int (length d)"
  shows "\<exists>r. read_rela d off = Inr r \<and> rela_ok r"
proof -
  have v: "unpack_from rela_codes d off = Inr (unpack rela_codes (drop (nat off) d))"
    using assms by (intro unpack_from_Inr) (simp_all add: rela_codes_def)
  obtain a1 a2 a3 where a: "unpack rela_codes (drop (nat off) d) = [U64 a1, U64 a2, I64 a3]"
    using unpack_from_ok(1)[OF v] by (auto simp: rela_codes_def map_eq_Cons_conv)
  show ?thesis using v unpack_from_ok(2)[OF v] by (simp add: read_rela_def a rela_ok_def)
qed

lemma mapM_r_total_good:
  assumes "\<And>x. x \<in> set xs \<Longrightarrow> \<exists>y. f x = Inr y \<and> good y"
  shows "\<exists>ys. mapM_r f xs = Inr ys \<and> list_all good ys"
  using assms by (induction xs) fastforce+

lemma dynamic_symbols_total:
  assumes "elf_wf e"
  shows "\<exists>syms. dynamic_symbols e = Inr syms \<and> list_all symbol_ok syms"
proof (cases "find (\<lambda>s. sh_type s = SHT_DYNSYM) (sections e)")
  case None
  then show ?thesis by (simp add: dynamic_symbols_def)
next
  case (Some sec)
  then have sec: "shdr_ok sec"
    using assms by (auto simp: elf_wf_def list_all_iff find_Some_iff)
  show ?thesis
    unfolding dynamic_symbols_def Some option.case Let_def
    using mapM_r_total_good[of "table_offsets e sec" "read_symbol (edata e) _" symbol_ok]
      read_symbol_total table_offsets_range[OF sec]
    by (auto split: if_splits)
qed

lemma rela_entries_total:
  assumes "elf_wf e"
  shows "\<exists>rs. rela_entries e = Inr rs \<and> list_all rela_ok rs"
proof -
  have "\<exists>rs. mapM_r (read_rela (edata e)) (table_offsets e sec) = Inr rs \<and> list_all rela_ok rs"
    if "sec \<in> set (filter (\<lambda>s. sh_type s = SHT_RELA) (sections e))" for sec
    using that assms table_offsets_range[of sec _ e]
    by (intro mapM_r_total_good read_rela_total) (auto simp: elf_wf_def list_all_iff)
  then obtain rss where "mapM_r (\<lambda>sec. mapM_r (read_rela (edata e)) (table_offsets e sec))
       (filter (\<lambda>s. sh_type s = SHT_RELA) (sections e)) = Inr rss" "list_all (list_all rela_ok) rss"
    using mapM_r_total_good[of "filter (\<lambda>s. sh_type s = SHT_RELA) (sections e)"
      "\<lambda>sec. mapM_r (read_rela (edata e)) (table_offsets e sec)" "list_all rela_ok"] by blast
  then show ?thesis by (auto simp: rela_entries_def list_all_iff)
qed

lemma needed_loop_total:
  assumes "\<forall>off \<in> set offs. 0 \<le> off \<and> off + 16 \<le> int (length d)"
  shows "\<exists>ns. needed_loop d strtab offs = Inr ns \<and> list_all (list_all is_scalar) ns"
  using assms
proof (induction offs)
  case Nil
  then show ?case by simp
next
  case (Cons off offs)
  have v: "unpack_from dyn_codes d off = Inr (unpack dyn_codes (drop (nat off) d))"
    using Cons.prems by (intro unpack_from_Inr) (simp_all add: dyn_codes_def)
  obtain tag val where a: "unpack dyn_codes (drop (nat off) d) = [I64 tag, U64 val]"
    using unpack_from_ok(1)[OF v] by (auto simp: dyn_codes_def map_eq_Cons_conv)
  obtain ns where "needed_loop d strtab offs = Inr ns" "list_all (list_all is_scalar) ns"
    using Cons by auto
  then show ?case by (auto simp: v a cstring_scalar)
qed

lemma needed_libraries_total:
  assumes "elf_wf e"
  shows "\<exists>ns. needed_libraries e = Inr ns \<and> list_all (list_all is_scalar) ns"
proof (cases "section_named e (lit ''.dynamic'')")
  case None
  then show ?thesis by (simp add: needed_libraries_def)
next
  case (Some dyn)
  then have "shdr_ok dyn"
    using assms by (auto simp: section_named_def elf_wf_def list_all_iff find_Some_iff)
  then have "\<forall>off \<in> set (entry_offsets 16 (int (length (edata e))) 16
      (sh_offset dyn + sh_size dyn) (sh_offset dyn)). 0 \<le> off \<and> off + 16 \<le> int (length (edata e))"
    using entry_offsets_range by (fastforce simp: shdr_ok_def)
  from needed_loop_total[OF this] show ?thesis
    by (simp add: needed_libraries_def Some Let_def)
qed

lemma report_total:
  assumes "elf_wf e"
  shows "\<exists>r. report e = Inr r"
proof -
  obtain syms rs ns where "dynamic_symbols e = Inr syms" "rela_entries e = Inr rs"
    "needed_libraries e = Inr ns"
    using dynamic_symbols_total[OF assms] rela_entries_total[OF assms]
      needed_libraries_total[OF assms] by blast
  then show ?thesis
    by (simp add: report_def undefined_symbols_def android_specific_imports_def
        relocation_counts_def Let_def)
qed

subsection \<open>What the queries return\<close>

lemma undefined_symbols_spec:
  assumes "dynamic_symbols e = Inr syms" and "undefined_symbols e = Inr us"
  shows "sorted us" "distinct us"
    "set us = sym_name ` {s \<in> set syms. st_shndx s = SHN_UNDEF \<and> sym_name s \<noteq> []}"
  using assms by (auto simp: undefined_symbols_def)

lemma relocation_counts_spec:
  assumes "rela_entries e = Inr rs" and "relocation_counts e = Inr cs"
  defines "names \<equiv> map (\<lambda>(_, info, _). reloc_name (info AND 0xFFFFFFFF)) rs"
  shows "map_of cs k = (if k \<in> set names then Some (int (count_list names k)) else None)"
    and "sum_list (map snd cs) = int (length rs)" and "sorted (map fst cs)" and "distinct (map fst cs)"
proof -
  have cs: "cs = sort (count_all names)"
    using assms by (simp add: relocation_counts_def sorted_counts_def)
  have m: "mset cs = mset (count_all names)" by (simp add: cs)
  have d: "distinct (map fst (count_all names))" by (rule distinct_count_all)
  have md: "mset (map fst cs) = mset (map fst (count_all names))" using m by (metis mset_map)
  show dist: "distinct (map fst cs)" using d md by (metis mset_eq_imp_distinct_iff)
  have "map_of cs = map_of (count_all names)"
    using m d dist by (intro map_of_inject_set[THEN iffD2]) (auto dest: mset_eq_setD)
  then show "map_of cs k = (if k \<in> set names then Some (int (count_list names k)) else None)"
    by (simp add: map_of_count_all)
  have "mset (map snd cs) = mset (map snd (count_all names))" using m by (metis mset_map)
  then have "sum_list (map snd cs) = sum_list (map snd (count_all names))"
    by (metis sum_mset_sum_list)
  then show "sum_list (map snd cs) = int (length rs)"
    by (simp add: sum_count_all names_def)
  have "sorted cs" by (simp add: cs)
  then show "sorted (map fst cs)"
    by (simp add: sorted_map) (rule sorted_wrt_mono_rel, auto simp: less_eq_prod_def less_le)
qed

lemma android_specific_imports_spec:
  assumes "undefined_symbols e = Inr us" and "android_specific_imports e = Inr as"
  shows "set as = {s \<in> set us. \<exists>p \<in> set android_import_prefixes. \<exists>r. s = p @ r}" "sorted us \<Longrightarrow> sorted as"
proof -
  have as: "as = filter (\<lambda>s. \<exists>p \<in> set android_import_prefixes. \<exists>r. s = p @ r) us"
    using assms by (simp add: android_specific_imports_def list_ex_iff starts_with_append)
  show "set as = {s \<in> set us. \<exists>p \<in> set android_import_prefixes. \<exists>r. s = p @ r}"
    unfolding as by (rule set_filter)
  show "sorted us \<Longrightarrow> sorted as" unfolding as by (rule sorted_wrt_filter)
qed

text \<open>The names of the unknown relocation types never clash with the known ones.\<close>

lemma reloc_name_known:
  "reloc_name r \<in> set (map snd aarch64_relocs) \<longleftrightarrow> r \<in> {257, 1025, 1026, 1027}"
proof (cases "map_of aarch64_relocs r")
  case None
  then have "r \<notin> {257, 1025, 1026, 1027}"
    by (auto simp: aarch64_relocs_def split: if_splits)
  moreover have "reloc_name r \<notin> set (map snd aarch64_relocs)"
    using None by (simp add: reloc_name_def aarch64_relocs_def lit_simps)
  ultimately show ?thesis by simp
next
  case (Some n)
  then show ?thesis
    by (auto simp: reloc_name_def aarch64_relocs_def split: if_splits)
qed

end
