(* ===== verification/Layout.thy ===== *)
theory Layout
  imports Py_Struct Py_Text
begin

section \<open>Alignment and protections (\<open>_align\<close>, \<open>_floor\<close>, \<open>_mach_prot\<close>)\<close>

text \<open>
  The arithmetic both translators use to lay segments out on pages (\<open>translate.py\<close>, lines 55 to
  72, and the identical copies in \<open>phase3.py\<close>, lines 77 to 93). The code works on bits; for an
  alignment that is a power of two the lemmas give the arithmetic meaning.
\<close>

definition VM_PROT_READ :: int where "VM_PROT_READ = 1"
definition VM_PROT_WRITE :: int where "VM_PROT_WRITE = 2"
definition VM_PROT_EXECUTE :: int where "VM_PROT_EXECUTE = 4"

definition IOS_PAGE :: int where "IOS_PAGE = 0x4000"

definition PT_LOAD :: int where "PT_LOAD = 1"
definition R_AARCH64_ABS64 :: int where "R_AARCH64_ABS64 = 257"
definition R_AARCH64_GLOB_DAT :: int where "R_AARCH64_GLOB_DAT = 1025"
definition R_AARCH64_JUMP_SLOT :: int where "R_AARCH64_JUMP_SLOT = 1026"
definition R_AARCH64_RELATIVE :: int where "R_AARCH64_RELATIVE = 1027"

lemmas reloc_consts =
  R_AARCH64_ABS64_def R_AARCH64_GLOB_DAT_def R_AARCH64_JUMP_SLOT_def R_AARCH64_RELATIVE_def

definition align :: "int \<Rightarrow> int \<Rightarrow> int" where
  "align v a = (v + a - 1) AND NOT (a - 1)"

definition floor_to :: "int \<Rightarrow> int \<Rightarrow> int" where
  "floor_to v a = v AND NOT (a - 1)"

definition mach_prot :: "int \<Rightarrow> int" where
  "mach_prot elf_flags =
     (let v0 = 0;
          v1 = (if elf_flags AND 4 \<noteq> 0 then v0 OR VM_PROT_READ else v0);
          v2 = (if elf_flags AND 2 \<noteq> 0 then v1 OR VM_PROT_WRITE else v1);
          v3 = (if elf_flags AND 1 \<noteq> 0 then v2 OR VM_PROT_EXECUTE else v2)
      in v3)"

text \<open>\<open>value & 0xFFFFFFFFFFFFFFFF\<close>\<close>

definition mask64 :: "int \<Rightarrow> int" where
  "mask64 v = v AND 0xFFFFFFFFFFFFFFFF"

lemma mask64_mod: "mask64 v = v mod 2 ^ 64"
  using take_bit_eq_mask[of 64 v] by (simp add: mask64_def take_bit_int_def mask_eq_exp_minus_1)

lemma mask64_range [simp]: "0 \<le> mask64 v" "mask64 v < 2 ^ 64"
  unfolding mask64_mod by (rule pos_mod_sign, simp, rule pos_mod_bound, simp)

subsection \<open>Powers of two\<close>

definition pow2 :: "int \<Rightarrow> bool" where
  "pow2 a \<longleftrightarrow> (\<exists>k. a = 2 ^ k)"

lemma pow2_pos: "pow2 a \<Longrightarrow> 0 < a"
  by (auto simp: pow2_def)

lemma pow2I: "a = 2 ^ k \<Longrightarrow> pow2 a"
  by (auto simp: pow2_def)

lemma pow2_numerals [simp]: "pow2 1" "pow2 8" "pow2 0x4000" "pow2 0x10000"
  using pow2I[of 1 0] pow2I[of 8 3] pow2I[of "0x4000" 14] pow2I[of "0x10000" 16] by simp_all

lemma and_not_mask_int: "(v::int) AND NOT (mask k) = v div 2 ^ k * 2 ^ k"
proof -
  have "v AND NOT (mask k) = push_bit k (drop_bit k v)"
    by (rule bit_eqI) (auto simp: bit_simps)
  then show ?thesis by (simp add: push_bit_eq_mult drop_bit_eq_div)
qed

lemma floor_to_div: "pow2 a \<Longrightarrow> floor_to v a = v div a * a"
  by (auto simp: pow2_def floor_to_def and_not_mask_int mask_eq_exp_minus_1 simp flip: mask_eq_exp_minus_1)

lemma align_div: "pow2 a \<Longrightarrow> align v a = (v + a - 1) div a * a"
  using floor_to_div[of a "v + a - 1"] by (simp add: align_def floor_to_def)

lemma floor_to_bounds:
  assumes "pow2 a"
  shows "floor_to v a \<le> v" "v < floor_to v a + a" "a dvd floor_to v a"
proof -
  have "v = v div a * a + v mod a" by simp
  moreover have "0 \<le> v mod a" "v mod a < a" using pow2_pos[OF assms] by simp_all
  ultimately show "floor_to v a \<le> v" "v < floor_to v a + a"
    unfolding floor_to_div[OF assms] by linarith+
  show "a dvd floor_to v a" by (simp add: floor_to_div[OF assms])
qed

lemma align_bounds:
  assumes "pow2 a"
  shows "v \<le> align v a" "align v a < v + a" "a dvd align v a"
proof -
  have "align v a = floor_to (v + a - 1) a"
    by (simp add: align_def floor_to_def)
  then show "v \<le> align v a" "align v a < v + a" "a dvd align v a"
    using floor_to_bounds[OF assms, of "v + a - 1"] by simp_all
qed

lemma align_least:
  assumes "pow2 a" and "a dvd u" and "v \<le> u"
  shows "align v a \<le> u"
proof -
  obtain m q where m: "u = a * m" and q: "align v a = a * q"
    using assms(2) align_bounds(3)[OF assms(1), of v] by (auto elim!: dvdE)
  have "a * q < a * (m + 1)"
    using align_bounds(2)[OF assms(1), of v] assms(3) m q by (simp add: distrib_left)
  then have "q \<le> m" using pow2_pos[OF assms(1)] by simp
  then show ?thesis using pow2_pos[OF assms(1)] m q by simp
qed

lemma align_id: "pow2 a \<Longrightarrow> a dvd v \<Longrightarrow> align v a = v"
  using align_least[of a v v] align_bounds(1)[of a v] by simp

lemma align_mono: "pow2 a \<Longrightarrow> u \<le> v \<Longrightarrow> align u a \<le> align v a"
  using align_least[of a "align v a" u] align_bounds[of a v] by simp

lemma align_nonneg: "pow2 a \<Longrightarrow> 0 \<le> v \<Longrightarrow> 0 \<le> align v a"
  using align_bounds(1)[of a v] by linarith

lemma floor_to_nonneg: "pow2 a \<Longrightarrow> 0 \<le> v \<Longrightarrow> 0 \<le> floor_to v a"
  using pow2_pos[of a] by (simp add: floor_to_div pos_imp_zdiv_nonneg_iff)

lemma and_bit_0: "(f::int) AND 1 \<noteq> 0 \<longleftrightarrow> bit f 0"
  and and_bit_1: "(f::int) AND 2 \<noteq> 0 \<longleftrightarrow> bit f 1"
  and and_bit_2: "(f::int) AND 4 \<noteq> 0 \<longleftrightarrow> bit f 2"
  using bit_iff_and_push_bit_not_eq_0[of f 0] bit_iff_and_push_bit_not_eq_0[of f 1]
    bit_iff_and_push_bit_not_eq_0[of f 2] by (simp_all add: push_bit_eq_mult)

text \<open>The three ELF permissions, carried over to the Mach-O bits.\<close>

lemma mach_prot_flags:
  "mach_prot f = (if bit f 2 then 1 else 0) + (if bit f 1 then 2 else 0) + (if bit f 0 then 4 else 0)"
  by (simp add: mach_prot_def and_bit_0 and_bit_1 and_bit_2 VM_PROT_READ_def VM_PROT_WRITE_def
      VM_PROT_EXECUTE_def Let_def)

lemma mach_prot_range: "0 \<le> mach_prot f" "mach_prot f \<le> 7"
  by (simp_all add: mach_prot_flags)

text \<open>\<open>max\<close> over the segments.\<close>

definition max_list :: "int list \<Rightarrow> int" where
  "max_list xs = fold max (tl xs) (hd xs)"

lemma max_list_Max: "xs \<noteq> [] \<Longrightarrow> max_list xs = Max (set xs)"
  by (cases xs) (simp_all only: max_list_def list.sel Max.set_eq_fold)

lemma max_list_ge: "x \<in> set xs \<Longrightarrow> x \<le> max_list xs"
  by (subst max_list_Max) auto

lemma max_list_in: "xs \<noteq> [] \<Longrightarrow> max_list xs \<in> set xs"
  by (simp add: max_list_Max)

lemma pow2_IOS_PAGE [simp]: "pow2 IOS_PAGE"
  by (rule pow2I[of _ 14]) (simp add: IOS_PAGE_def)

end
