(* ===== verification/Relocs.thy ===== *)
theory Relocs
  imports Elf_Tables Layout
begin

section \<open>Relocations (\<open>_iter_relocations\<close>)\<close>

text \<open>
  The relocation entries as both translators iterate over them (\<open>translate.py\<close>, lines 201 to 217,
  and the same code in \<open>phase3.py\<close>, lines 339 to 355), and the value the AArch64 relocation rules
  give the slot an entry names: \<open>reloc_patch\<close> is the specification the two relocation loops
  are compared with. The generator of the source reads an entry when the loop asks for it; since
  reading never raises on a parsed file (\<open>rela_entries_total\<close>), reading all of them first is
  the same.
\<close>

record relocation =
  rel_offset :: int
  rel_type :: int
  rel_sym :: int
  rel_addend :: int

definition mk_relocation :: "int \<times> int \<times> int \<Rightarrow> relocation" where
  "mk_relocation r =
     (case r of (r_offset, r_info, r_addend) \<Rightarrow>
        \<lparr>rel_offset = r_offset, rel_type = r_info AND 0xFFFFFFFF, rel_sym = drop_bit 32 r_info,
         rel_addend = r_addend\<rparr>)"

definition iter_relocations :: "elf64 \<Rightarrow> relocation list result" where
  "iter_relocations e = rmap (map mk_relocation) (rela_entries e)"

definition reloc_ok :: "relocation \<Rightarrow> bool" where
  "reloc_ok r \<longleftrightarrow> 0 \<le> rel_offset r \<and> rel_offset r < 2 ^ 64 \<and> 0 \<le> rel_type r \<and> rel_type r < 2 ^ 32
     \<and> 0 \<le> rel_sym r \<and> rel_sym r < 2 ^ 32 \<and> - (2 ^ 63) \<le> rel_addend r \<and> rel_addend r < 2 ^ 63"

lemma and_32_mod: "(v::int) AND 0xFFFFFFFF = v mod 2 ^ 32"
  using take_bit_eq_mask[of 32 v] by (simp add: take_bit_int_def mask_eq_exp_minus_1)

lemma mk_relocation_ok: "rela_ok r \<Longrightarrow> reloc_ok (mk_relocation r)"
  by (cases r) (auto simp: rela_ok_def mk_relocation_def reloc_ok_def and_32_mod drop_bit_eq_div
      pos_imp_zdiv_nonneg_iff)

text \<open>The symbol index and the type are the two halves of \<open>r_info\<close>.\<close>

lemma mk_relocation_info: "rel_sym (mk_relocation (a, info, b)) * 2 ^ 32 + rel_type (mk_relocation (a, info, b)) = info"
  by (simp add: mk_relocation_def and_32_mod drop_bit_eq_div)

lemma iter_relocations_total:
  "elf_wf e \<Longrightarrow> \<exists>rs. iter_relocations e = Inr rs \<and> list_all reloc_ok rs"
  using rela_entries_total[of e] mk_relocation_ok by (auto simp: iter_relocations_def list_all_iff)

subsection \<open>The relocation rules\<close>

definition symbol_relocs :: "int list" where
  "symbol_relocs = [R_AARCH64_ABS64, R_AARCH64_GLOB_DAT, R_AARCH64_JUMP_SLOT]"

text \<open>
  The new contents of the slot from the old ones; \<open>None\<close> when the entry needs a symbol the file
  does not define (or is not a relocation the translators know).
\<close>

definition reloc_patch :: "int \<Rightarrow> elf_symbol list \<Rightarrow> relocation \<Rightarrow> (int \<Rightarrow> int) option" where
  "reloc_patch slide syms r =
     (if rel_type r = R_AARCH64_RELATIVE then Some (\<lambda>_. mask64 (slide + rel_addend r))
      else if rel_type r \<in> set symbol_relocs \<and> rel_sym r < int (length syms)
        \<and> st_shndx (syms ! nat (rel_sym r)) \<noteq> SHN_UNDEF
      then Some (\<lambda>old. mask64 (slide + st_value (syms ! nat (rel_sym r)) + rel_addend r
                  + (if rel_type r = R_AARCH64_ABS64 then old else 0)))
      else None)"

text \<open>The patches of a list of relocations, each at the image offset \<open>place\<close> gives its target.\<close>

definition reloc_patches ::
  "(int \<Rightarrow> int) \<Rightarrow> int \<Rightarrow> elf_symbol list \<Rightarrow> relocation list \<Rightarrow> (int \<times> (int \<Rightarrow> int)) list" where
  "reloc_patches place slide syms rs =
     List.map_filter (\<lambda>r. map_option (Pair (place (rel_offset r))) (reloc_patch slide syms r)) rs"

lemma reloc_patches_simps [simp]:
  "reloc_patches place slide syms [] = []"
  "reloc_patches place slide syms (r # rs) =
     (case reloc_patch slide syms r of None \<Rightarrow> [] | Some f \<Rightarrow> [(place (rel_offset r), f)])
       @ reloc_patches place slide syms rs"
  by (auto simp: reloc_patches_def map_filter_simps split: option.split)

lemma reloc_patches_append:
  "reloc_patches place slide syms (rs @ qs) =
     reloc_patches place slide syms rs @ reloc_patches place slide syms qs"
  by (induction rs) auto

lemma set_reloc_patches:
  "set (reloc_patches place slide syms rs) =
     {(place (rel_offset r), f) | r f. r \<in> set rs \<and> reloc_patch slide syms r = Some f}"
  by (induction rs) (auto split: option.splits)

lemma reloc_patch_range: "reloc_patch slide syms r = Some f \<Longrightarrow> 0 \<le> f v \<and> f v < 2 ^ 64"
  by (auto simp: reloc_patch_def simp del: mask64_range split: if_splits
      intro: mask64_range(1) mask64_range(2)[simplified])

text \<open>Relocations whose slots do not overlap, placed at offsets that do not overlap.\<close>

lemma reloc_patches_apart:
  assumes "sorted_wrt (\<lambda>r q. apart w (place (rel_offset r)) (place (rel_offset q))) rs"
  shows "slots_apart w (map fst (reloc_patches place slide syms rs))"
  using assms
proof (induction rs)
  case (Cons r rs)
  then show ?case by (auto simp: set_reloc_patches split: option.split)
qed simp

text \<open>Entries against a symbol the file does not define, and entries the translators can process.\<close>

definition is_import :: "elf_symbol list \<Rightarrow> relocation \<Rightarrow> bool" where
  "is_import syms r \<longleftrightarrow> rel_type r \<in> set symbol_relocs \<and> rel_sym r < int (length syms)
     \<and> st_shndx (syms ! nat (rel_sym r)) = SHN_UNDEF"

definition known_reloc :: "elf_symbol list \<Rightarrow> relocation \<Rightarrow> bool" where
  "known_reloc syms r \<longleftrightarrow> rel_type r = R_AARCH64_RELATIVE
     \<or> rel_type r \<in> set symbol_relocs \<and> rel_sym r < int (length syms)"

definition count_kind :: "elf_symbol list \<Rightarrow> int \<Rightarrow> relocation list \<Rightarrow> int" where
  "count_kind syms ty rs = int (length (filter (\<lambda>r. rel_type r = ty \<and> \<not> is_import syms r) rs))"

lemma reloc_types_distinct [simp]:
  "R_AARCH64_RELATIVE \<noteq> R_AARCH64_ABS64" "R_AARCH64_RELATIVE \<noteq> R_AARCH64_GLOB_DAT"
  "R_AARCH64_RELATIVE \<noteq> R_AARCH64_JUMP_SLOT" "R_AARCH64_ABS64 \<noteq> R_AARCH64_RELATIVE"
  "R_AARCH64_ABS64 \<noteq> R_AARCH64_GLOB_DAT" "R_AARCH64_ABS64 \<noteq> R_AARCH64_JUMP_SLOT"
  "R_AARCH64_GLOB_DAT \<noteq> R_AARCH64_RELATIVE" "R_AARCH64_GLOB_DAT \<noteq> R_AARCH64_ABS64"
  "R_AARCH64_GLOB_DAT \<noteq> R_AARCH64_JUMP_SLOT" "R_AARCH64_JUMP_SLOT \<noteq> R_AARCH64_RELATIVE"
  "R_AARCH64_JUMP_SLOT \<noteq> R_AARCH64_ABS64" "R_AARCH64_JUMP_SLOT \<noteq> R_AARCH64_GLOB_DAT"
  by (simp_all add: reloc_consts)

lemma relative_not_symbol [simp]: "R_AARCH64_RELATIVE \<notin> set symbol_relocs"
  by (simp add: symbol_relocs_def reloc_consts)

lemma reloc_patch_None_iff:
  "known_reloc syms r \<Longrightarrow> reloc_patch slide syms r = None \<longleftrightarrow> is_import syms r"
  by (auto simp: reloc_patch_def known_reloc_def is_import_def)

lemma count_kind_simps [simp]:
  "count_kind syms ty [] = 0"
  "count_kind syms ty (r # rs) = (if rel_type r = ty \<and> \<not> is_import syms r then 1 else 0) + count_kind syms ty rs"
  by (simp_all add: count_kind_def)

text \<open>Every relocation a loop gets through is either patched or an import.\<close>

lemma count_kinds_total:
  assumes "\<forall>r \<in> set rs. known_reloc syms r"
  shows "count_kind syms R_AARCH64_RELATIVE rs + count_kind syms R_AARCH64_ABS64 rs
     + count_kind syms R_AARCH64_GLOB_DAT rs + count_kind syms R_AARCH64_JUMP_SLOT rs
     + int (length (filter (is_import syms) rs)) = int (length rs)"
  using assms
proof (induction rs)
  case (Cons r rs)
  then show ?case
    by (auto simp: known_reloc_def is_import_def symbol_relocs_def reloc_consts)
qed simp

lemma length_reloc_patches:
  assumes "\<forall>r \<in> set rs. known_reloc syms r"
  shows "length (reloc_patches place slide syms rs) = length (filter (\<lambda>r. \<not> is_import syms r) rs)"
  using assms
proof (induction rs)
  case (Cons r rs)
  then show ?case
    using reloc_patch_None_iff[of syms r slide] by (cases "reloc_patch slide syms r") auto
qed simp

lemma count_kind_append [simp]:
  "count_kind syms ty (rs @ qs) = count_kind syms ty rs + count_kind syms ty qs"
  by (simp add: count_kind_def)

text \<open>The counters of the relocation loops: the dict \<open>patched\<close> of both translators.\<close>

record patched_counts =
  n_relative :: int
  n_abs64 :: int
  n_glob_dat :: int
  n_jump_slot :: int

definition no_patches :: patched_counts where
  "no_patches = \<lparr>n_relative = 0, n_abs64 = 0, n_glob_dat = 0, n_jump_slot = 0\<rparr>"

definition patched_total :: "patched_counts \<Rightarrow> int" where
  "patched_total c = n_relative c + n_abs64 c + n_glob_dat c + n_jump_slot c"

text \<open>The loadable segments of a file.\<close>

definition pt_loads :: "elf64 \<Rightarrow> program_header list" where
  "pt_loads e = filter (\<lambda>ph. p_type ph = PT_LOAD) (program_headers e)"

lemma pt_loads_ok: "elf_wf e \<Longrightarrow> ph \<in> set (pt_loads e) \<Longrightarrow> phdr_ok ph"
  by (simp add: pt_loads_def elf_wf_def list_all_iff)

subsection \<open>Patches as the loops make them\<close>

text \<open>A write that goes through at an offset that is not negative is a patch of that slot.\<close>

lemma write_is_patch:
  assumes "0 \<le> dst" and "write_u64 img dst v = Inr img'" and "\<And>old. read_u64 img dst = Inr old \<Longrightarrow> f old = v"
  shows "u64.patch img (dst, f) = Inr img'"
proof -
  obtain old where "read_u64 img dst = Inr old"
    using u64.rd_Inr[OF assms(1), of img] write_u64_Inr(3)[OF assms(1,2)] by auto
  then show ?thesis using assms(2,3) by (simp add: u64.patch_def)
qed

lemma patches_append:
  "u64.patches m (ps @ qs) = rbind (u64.patches m ps) (\<lambda>m'. u64.patches m' qs)"
  by (simp add: u64.patches_def foldM_r_append)

end
