(* ===== verification/Address_Map.thy ===== *)
theory Address_Map
  imports Py_Struct
begin

section \<open>Segments: copying them into an image, and mapping addresses to image offsets\<close>

text \<open>
  Both translators copy every loadable segment to a region of the output image and later map a
  virtual address of the ELF file to the offset of its byte in the image. The theory holds what
  they share: regions laid out one after the other, the copying loop with what it does to the
  image, and the interface \<open>address_map\<close> of the address lookup, with the facts the relocation
  code needs of it. \<open>Phase2\<close> and \<open>Phase3\<close> interpret the locale on their own lookups.
\<close>

subsection \<open>Regions in ascending order\<close>

text \<open>Regions \<open>(start, length)\<close> one after the other between \<open>a\<close> and \<open>b\<close>.\<close>

fun regions_ordered :: "int \<Rightarrow> (int \<times> int) list \<Rightarrow> int \<Rightarrow> bool" where
  "regions_ordered a [] b = (a \<le> b)"
| "regions_ordered a ((s, n) # rs) b = (a \<le> s \<and> 0 \<le> n \<and> regions_ordered (s + n) rs b)"

lemma regions_ordered_le: "regions_ordered a rs b \<Longrightarrow> a \<le> b"
  by (induction a rs b rule: regions_ordered.induct) auto

lemma regions_ordered_bounds:
  "regions_ordered a rs b \<Longrightarrow> (s, n) \<in> set rs \<Longrightarrow> a \<le> s \<and> 0 \<le> n \<and> s + n \<le> b"
proof (induction a rs b rule: regions_ordered.induct)
  case (2 a s' n' rs b)
  then show ?case using regions_ordered_le[of "s' + n'" rs b] by fastforce
qed simp

lemma regions_ordered_mono: "regions_ordered a rs b \<Longrightarrow> a' \<le> a \<Longrightarrow> b \<le> b' \<Longrightarrow> regions_ordered a' rs b'"
proof (induction rs arbitrary: a a')
  case Nil
  then show ?case by simp
next
  case (Cons r rs)
  obtain s n where r: "r = (s, n)" by (cases r)
  have "regions_ordered (s + n) rs b'"
    by (rule Cons.IH[of "s + n"]) (use Cons.prems r in simp_all)
  then show ?case using Cons.prems r by simp
qed

lemma regions_ordered_disjoint:
  assumes "regions_ordered a rs b" and "i < j" and "j < length rs"
  shows "fst (rs ! i) + snd (rs ! i) \<le> fst (rs ! j)"
  using assms
proof (induction rs arbitrary: a i j)
  case Nil
  then show ?case by simp
next
  case (Cons r rs)
  obtain s n where r: "r = (s, n)" by (cases r)
  have ord: "regions_ordered (s + n) rs b" using Cons.prems(1) r by simp
  obtain j' where j': "j = Suc j'" using Cons.prems(2) by (cases j) auto
  then have len: "j' < length rs" using Cons.prems(3) by simp
  show ?case
  proof (cases i)
    case 0
    have "(fst (rs ! j'), snd (rs ! j')) \<in> set rs" using len by simp
    from regions_ordered_bounds[OF ord this] show ?thesis using 0 j' r by simp
  next
    case (Suc i')
    then have "i' < j'" using Cons.prems(2) j' by simp
    from Cons.IH[OF ord this len] show ?thesis using Suc j' by simp
  qed
qed

lemma regions_ordered_limit:
  assumes "regions_ordered a rs b0" and "\<forall>r \<in> set rs. fst r + snd r \<le> b" and "a \<le> b"
  shows "regions_ordered a rs b"
  using assms
proof (induction rs arbitrary: a)
  case (Cons r rs)
  obtain s n where r: "r = (s, n)" by (cases r)
  have "regions_ordered (s + n) rs b"
    by (rule Cons.IH) (use Cons.prems r in simp_all)
  then show ?case using Cons.prems(1) r by simp
qed simp

text \<open>Regions shrunk to a part of themselves stay in order.\<close>

lemma regions_ordered_shrink:
  assumes "list_all2 (\<lambda>r q. fst r \<le> fst q \<and> 0 \<le> snd q \<and> fst q + snd q \<le> fst r + snd r) rs qs"
    and "regions_ordered a rs b" and "a' \<le> a"
  shows "regions_ordered a' qs b"
  using assms
proof (induction rs qs arbitrary: a a' rule: list_all2_induct)
  case Nil
  then show ?case by simp
next
  case (Cons r rs q qs)
  obtain s n s' n' where r: "r = (s, n)" "q = (s', n')" by (cases r; cases q)
  have "regions_ordered (s' + n') qs b"
    by (rule Cons.IH[of "s + n"]) (use Cons r in simp_all)
  then show ?case using Cons.prems Cons.hyps(1) r by simp
qed

subsection \<open>Copying\<close>

text \<open>One iteration of \<open>image[dst:dst + n] = data[src:src + n]\<close>.\<close>

definition copy_region :: "bytes \<Rightarrow> int \<times> int \<times> int \<Rightarrow> bytes \<Rightarrow> bytes" where
  "copy_region d r img =
     (case r of (dst, src, n) \<Rightarrow> py_slice_assign img dst (dst + n) (py_slice d src (src + n)))"

definition copy_regions :: "bytes \<Rightarrow> (int \<times> int \<times> int) list \<Rightarrow> bytes \<Rightarrow> bytes" where
  "copy_regions d rs img = fold (copy_region d) rs img"

text \<open>Regions whose source lies inside the file.\<close>

definition region_in_file :: "bytes \<Rightarrow> int \<times> int \<times> int \<Rightarrow> bool" where
  "region_in_file d r = (case r of (dst, src, n) \<Rightarrow> 0 \<le> src \<and> 0 \<le> n \<and> src + n \<le> int (length d))"

abbreviation dst_region :: "int \<times> int \<times> int \<Rightarrow> int \<times> int" where
  "dst_region r \<equiv> (fst r, snd (snd r))"

lemma copy_region_inside:
  assumes "region_in_file d (dst, src, n)" and "0 \<le> dst" and "dst + n \<le> int (length img)"
  shows "length (copy_region d (dst, src, n) img) = length img"
    and "k < length img \<Longrightarrow> copy_region d (dst, src, n) img ! k =
      (if dst \<le> int k \<and> int k < dst + n then d ! nat (src + (int k - dst)) else img ! k)"
proof -
  have len: "int (length (py_slice d src (src + n))) = n"
    using assms by (simp add: region_in_file_def length_py_slice)
  show "length (copy_region d (dst, src, n) img) = length img"
    using assms len by (simp add: copy_region_def length_py_slice_assign)
  assume k: "k < length img"
  have split: "copy_region d (dst, src, n) img ! k =
    (if nat dst \<le> k \<and> k < nat dst + length (py_slice d src (src + n))
     then py_slice d src (src + n) ! (k - nat dst) else img ! k)"
    unfolding copy_region_def prod.case
    by (rule nth_py_slice_assign) (use assms len k in auto)
  show "copy_region d (dst, src, n) img ! k =
      (if dst \<le> int k \<and> int k < dst + n then d ! nat (src + (int k - dst)) else img ! k)"
  proof (cases "dst \<le> int k \<and> int k < dst + n")
    case True
    then have c: "nat dst \<le> k \<and> k < nat dst + length (py_slice d src (src + n))"
      using assms(2) len by linarith
    have "py_slice d src (src + n) ! (k - nat dst) = d ! (nat src + (k - nat dst))"
      using True assms(1,2) by (intro nth_py_slice) (auto simp: region_in_file_def)
    moreover have "nat src + (k - nat dst) = nat (src + (int k - dst))"
      using True assms(1,2) by (auto simp: region_in_file_def nat_diff_distrib nat_add_distrib)
    ultimately show ?thesis using True c split by simp
  next
    case False
    then have "\<not> (nat dst \<le> k \<and> k < nat dst + length (py_slice d src (src + n)))"
      using assms(2) len by linarith
    then show ?thesis using False split by auto
  qed
qed

lemma copy_regions_simps [simp]:
  "copy_regions d [] img = img"
  "copy_regions d (r # rs) img = copy_regions d rs (copy_region d r img)"
  by (simp_all add: copy_regions_def)

lemma copy_regions_length:
  assumes "\<forall>r \<in> set rs. region_in_file d r \<and> 0 \<le> fst r \<and> fst r + snd (snd r) \<le> int (length img)"
  shows "length (copy_regions d rs img) = length img"
  using assms
proof (induction rs arbitrary: img)
  case (Cons r rs)
  obtain dst src n where r: "r = (dst, src, n)" by (cases r)
  have "length (copy_region d r img) = length img"
    using Cons.prems r by (auto intro: copy_region_inside(1))
  then show ?case using Cons by simp
qed simp

text \<open>Bytes outside every destination region are untouched.\<close>

lemma copy_regions_outside:
  assumes "\<forall>r \<in> set rs. region_in_file d r \<and> 0 \<le> fst r \<and> fst r + snd (snd r) \<le> int (length img)"
    and "k < length img" and "\<forall>r \<in> set rs. int k < fst r \<or> fst r + snd (snd r) \<le> int k"
  shows "copy_regions d rs img ! k = img ! k"
  using assms
proof (induction rs arbitrary: img)
  case (Cons r rs)
  obtain dst src n where r: "r = (dst, src, n)" by (cases r)
  have len: "length (copy_region d r img) = length img"
    using Cons.prems r by (auto intro: copy_region_inside(1))
  have "copy_region d r img ! k = img ! k"
    using Cons.prems r copy_region_inside(2)[of d dst src n img k] by auto
  then show ?case using Cons len by simp
qed simp

text \<open>With ordered destinations every region holds its bytes of the file.\<close>

lemma copy_regions_content:
  assumes "regions_ordered a (map dst_region rs) (int (length img))" and "0 \<le> a"
    and "\<forall>r \<in> set rs. region_in_file d r" and "(dst, src, n) \<in> set rs" and "0 \<le> k" and "k < n"
  shows "copy_regions d rs img ! nat (dst + k) = d ! nat (src + k)"
  using assms
proof (induction rs arbitrary: a img)
  case (Cons r rs)
  obtain dst' src' n' where r: "r = (dst', src', n')" by (cases r)
  have ord: "a \<le> dst'" "0 \<le> n'" "regions_ordered (dst' + n') (map dst_region rs) (int (length img))"
    using Cons.prems(1) r by auto
  have inside: "\<forall>r \<in> set rs. dst' + n' \<le> fst r \<and> fst r + snd (snd r) \<le> int (length img)"
  proof
    fix q assume "q \<in> set rs"
    then have "dst_region q \<in> set (map dst_region rs)" by auto
    from regions_ordered_bounds[OF ord(3), of "fst q" "snd (snd q)"] this
    show "dst' + n' \<le> fst q \<and> fst q + snd (snd q) \<le> int (length img)" by auto
  qed
  have end': "dst' + n' \<le> int (length img)" by (rule regions_ordered_le[OF ord(3)])
  have infile: "region_in_file d (dst', src', n')" using Cons.prems(3) r by simp
  have len: "length (copy_region d r img) = length img"
    using infile Cons.prems(2) ord(1) end' r by (auto intro: copy_region_inside(1))
  show ?case
  proof (cases "(dst, src, n) \<in> set rs")
    case True
    have "copy_regions d rs (copy_region d r img) ! nat (dst + k) = d ! nat (src + k)"
      by (rule Cons.IH[of "dst' + n'"]) (use Cons.prems True ord len in auto)
    then show ?thesis by simp
  next
    case False
    then have same: "dst' = dst" "src' = src" "n' = n" using Cons.prems(4) r by auto
    have idx: "nat (dst + k) < length img" using Cons.prems(2,5,6) ord(1) end' same by linarith
    have pos: "int (nat (dst + k)) = dst + k" using Cons.prems(2,5) ord(1) same by simp
    have later: "\<forall>q \<in> set rs. region_in_file d q \<and> 0 \<le> fst q
        \<and> fst q + snd (snd q) \<le> int (length (copy_region d r img))"
      using Cons.prems(2,3) inside len ord same by force
    have "copy_regions d rs (copy_region d r img) ! nat (dst + k) = copy_region d r img ! nat (dst + k)"
      by (rule copy_regions_outside[OF later]) (use idx pos len inside same Cons.prems(6) in auto)
    also have "\<dots> = d ! nat (src + k)"
      using copy_region_inside(2)[OF infile _ end' idx] Cons.prems(2,5,6) ord(1) pos same r by simp
    finally show ?thesis by simp
  qed
qed simp

subsection \<open>The lookup interface\<close>

locale address_map =
  fixes lo :: "'s \<Rightarrow> int"       \<comment> \<open>the first virtual address of a segment\<close>
    and len :: "'s \<Rightarrow> int"      \<comment> \<open>how many of its bytes the file holds\<close>
    and out :: "'s \<Rightarrow> int"      \<comment> \<open>where its first byte is in the image\<close>
    and locate :: "'s list \<Rightarrow> int \<Rightarrow> int result"
  assumes locate_Inr: "locate ss v = Inr p \<Longrightarrow>
      \<exists>s \<in> set ss. lo s \<le> v \<and> v < lo s + len s \<and> p = out s + (v - lo s)"
    and locate_defined: "s \<in> set ss \<Longrightarrow> lo s \<le> v \<Longrightarrow> v < lo s + len s \<Longrightarrow> \<exists>p. locate ss v = Inr p"
begin

text \<open>A slot of \<open>w\<close> bytes at \<open>v\<close> that no segment covering \<open>v\<close> cuts off.\<close>

definition slot_inside :: "int \<Rightarrow> 's list \<Rightarrow> int \<Rightarrow> bool" where
  "slot_inside w ss v \<longleftrightarrow> (\<forall>s \<in> set ss. lo s \<le> v \<longrightarrow> v < lo s + len s \<longrightarrow> v + w \<le> lo s + len s)"

definition placed :: "int \<Rightarrow> 's list \<Rightarrow> int \<Rightarrow> bool" where
  "placed a ss b \<longleftrightarrow> regions_ordered a (map (\<lambda>s. (out s, len s)) ss) b"

lemma locate_Inl_iff:
  "(\<exists>e. locate ss v = Inl e) \<longleftrightarrow> (\<forall>s \<in> set ss. \<not> (lo s \<le> v \<and> v < lo s + len s))"
proof
  assume "\<exists>e. locate ss v = Inl e"
  then show "\<forall>s \<in> set ss. \<not> (lo s \<le> v \<and> v < lo s + len s)"
    using locate_defined by fastforce
next
  assume "\<forall>s \<in> set ss. \<not> (lo s \<le> v \<and> v < lo s + len s)"
  then show "\<exists>e. locate ss v = Inl e"
    using locate_Inr[of ss v] by (cases "locate ss v") auto
qed

lemma placed_bounds: "placed a ss b \<Longrightarrow> s \<in> set ss \<Longrightarrow> a \<le> out s \<and> 0 \<le> len s \<and> out s + len s \<le> b"
  unfolding placed_def by (drule regions_ordered_bounds[of _ _ _ "out s" "len s"]) auto

lemma locate_bounds:
  assumes "placed a ss b" and "locate ss v = Inr p"
  shows "a \<le> p" "p < b"
  using locate_Inr[OF assms(2)] placed_bounds[OF assms(1)] by force+

lemma locate_slot_bounds:
  assumes "placed a ss b" and "locate ss v = Inr p" and "slot_inside w ss v"
  shows "p + w \<le> b"
  using locate_Inr[OF assms(2)] placed_bounds[OF assms(1)] assms(3)
  unfolding slot_inside_def by force

text \<open>Two segments at different positions have disjoint places in the image.\<close>

lemma placed_disjoint:
  assumes "placed a ss b" and "s \<in> set ss" and "t \<in> set ss" and "s \<noteq> t"
  shows "out s + len s \<le> out t \<or> out t + len t \<le> out s"
proof -
  obtain i j where ij: "i < length ss" "j < length ss" "s = ss ! i" "t = ss ! j"
    using assms(2,3) by (auto simp: in_set_conv_nth)
  then have "i \<noteq> j" using assms(4) by auto
  then show ?thesis
    using regions_ordered_disjoint[OF assms(1)[unfolded placed_def], of i j]
      regions_ordered_disjoint[OF assms(1)[unfolded placed_def], of j i] ij
    by (cases "i < j") auto
qed

text \<open>Slots that do not overlap in the ELF file do not overlap in the image.\<close>

lemma locate_apart:
  assumes "placed a ss b" and "locate ss v = Inr p" and "locate ss u = Inr q"
    and "slot_inside w ss v" and "slot_inside w ss u" and "apart w v u"
  shows "apart w p q"
proof -
  obtain s where s: "s \<in> set ss" "lo s \<le> v" "v < lo s + len s" "p = out s + (v - lo s)"
    using locate_Inr[OF assms(2)] by blast
  obtain t where t: "t \<in> set ss" "lo t \<le> u" "u < lo t + len t" "q = out t + (u - lo t)"
    using locate_Inr[OF assms(3)] by blast
  have "v + w \<le> lo s + len s" "u + w \<le> lo t + len t"
    using assms(4,5) s t by (auto simp: slot_inside_def)
  then show ?thesis
    using placed_disjoint[OF assms(1) s(1) t(1)] s t assms(6)
    by (cases "s = t") (auto simp: apart_def)
qed

text \<open>The same for a list of slots, each with the place \<open>pl\<close> gives its address.\<close>

lemma locates_apart:
  assumes "placed a ss b"
    and "\<forall>r \<in> set rs. slot_inside w ss (off r) \<and> locate ss (off r) = Inr (pl (off r))"
    and "sorted_wrt (\<lambda>r q. apart w (off r) (off q)) rs"
  shows "sorted_wrt (\<lambda>r q. apart w (pl (off r)) (pl (off q))) rs"
  using assms(2,3) locate_apart[OF assms(1)] by (induction rs) auto

end

end
