(* ===== verification/Files.thy ===== *)
theory Files
  imports Prelude
begin

section \<open>Files\<close>

text \<open>
  The file operations of \<open>pathlib.Path\<close> the program uses, on an explicit file system: a map from
  paths to contents. Directories and the failures of the operating system (permissions, a full
  disk) are not part of the model.
\<close>

type_synonym fs = "pystr \<rightharpoonup> bytes"

definition read_bytes :: "fs \<Rightarrow> pystr \<Rightarrow> bytes result" where
  "read_bytes fs path = (case fs path of None \<Rightarrow> Inl FileNotFoundError | Some d \<Rightarrow> Inr d)"

definition write_bytes :: "fs \<Rightarrow> pystr \<Rightarrow> bytes \<Rightarrow> fs" where
  "write_bytes fs path d = fs(path \<mapsto> d)"

definition unlink :: "fs \<Rightarrow> pystr \<Rightarrow> fs" where
  "unlink fs path = fs(path := None)"

text \<open>\<open>dir / name\<close> for a relative \<open>name\<close>.\<close>

definition in_dir :: "pystr \<Rightarrow> pystr \<Rightarrow> pystr" where
  "in_dir dir name = dir @ lit ''/'' @ name"

lemma in_dir_eq [simp]: "in_dir d a = in_dir d b \<longleftrightarrow> a = b"
  by (simp add: in_dir_def)

lemma read_write_same [simp]: "read_bytes (write_bytes fs p d) p = Inr d"
  by (simp add: read_bytes_def write_bytes_def)

lemma read_write_other: "q \<noteq> p \<Longrightarrow> read_bytes (write_bytes fs p d) q = read_bytes fs q"
  by (simp add: read_bytes_def write_bytes_def)

lemma write_bytes_apply: "write_bytes fs p d q = (if q = p then Some d else fs q)"
  by (simp add: write_bytes_def)

lemma unlink_write: "unlink (write_bytes fs p d) p = unlink fs p"
  by (simp add: unlink_def write_bytes_def)

lemma unlink_absent: "fs p = None \<Longrightarrow> unlink fs p = fs"
  by (auto simp: unlink_def)

text \<open>
  The contract of every operation that writes files: it takes and returns the file system, and outside its targets
  no path changes. Each component interprets it on its own operation; the command line rests on it.
\<close>

locale file_op =
  fixes run :: "fs \<Rightarrow> fs \<times> 'r" and targets :: "pystr set"
  assumes frame: "p \<notin> targets \<Longrightarrow> fst (run fs) p = fs p"
begin

lemma confined: "fst (run fs) p = fs p \<or> p \<in> targets"
  using frame by blast

lemma again: "p \<notin> targets \<Longrightarrow> fst (run (fst (run fs))) p = fs p"
  by (simp add: frame)

end

end
