(* ===== verification/Macho.thy ===== *)
theory Macho
  imports Layout Files
begin

section \<open>Mach-O load commands (\<open>macho.py\<close>, and the command builders of the translators)\<close>

text \<open>
  The byte layouts of the Mach-O header, segments, sections and dylib commands, as the
  \<open>struct.pack\<close> calls of \<open>translate.py\<close>, \<open>phase3.py\<close>, \<open>phase4.py\<close> and \<open>macho.py\<close> write
  them, and the smoke-test executable of \<open>macho.py\<close>. Every builder is shown to produce exactly
  the \<open>cmdsize\<close> it declares, a multiple of eight bytes.
\<close>

definition MH_MAGIC_64 :: int where "MH_MAGIC_64 = 0xFEEDFACF"
definition CPU_TYPE_ARM64 :: int where "CPU_TYPE_ARM64 = 0x0100000C"
definition CPU_SUBTYPE_ARM64_ALL :: int where "CPU_SUBTYPE_ARM64_ALL = 0"
definition MH_EXECUTE :: int where "MH_EXECUTE = 2"
definition MH_DYLIB :: int where "MH_DYLIB = 6"
definition MH_DYLDLINK :: int where "MH_DYLDLINK = 0x4"
definition MH_TWOLEVEL :: int where "MH_TWOLEVEL = 0x80"
definition LC_SEGMENT_64 :: int where "LC_SEGMENT_64 = 0x19"
definition LC_MAIN :: int where "LC_MAIN = 0x80000028"
definition LC_LOAD_DYLIB :: int where "LC_LOAD_DYLIB = 0x0C"
definition LC_ID_DYLIB :: int where "LC_ID_DYLIB = 0x0D"
definition LC_BUILD_VERSION :: int where "LC_BUILD_VERSION = 0x32"
definition LC_DYLD_INFO_ONLY :: int where "LC_DYLD_INFO_ONLY = 0x80000022"
definition LC_SYMTAB :: int where "LC_SYMTAB = 0x2"
definition PLATFORM_IOS :: int where "PLATFORM_IOS = 2"

lemmas macho_consts =
  MH_MAGIC_64_def CPU_TYPE_ARM64_def CPU_SUBTYPE_ARM64_ALL_def MH_EXECUTE_def MH_DYLIB_def
  MH_DYLDLINK_def MH_TWOLEVEL_def LC_SEGMENT_64_def LC_MAIN_def LC_LOAD_DYLIB_def LC_ID_DYLIB_def
  LC_BUILD_VERSION_def LC_DYLD_INFO_ONLY_def LC_SYMTAB_def PLATFORM_IOS_def

subsection \<open>Builders\<close>

text \<open>The format \<open>"<II16sQQQQiiII"\<close> of a segment command.\<close>

definition segment_items ::
  "int \<Rightarrow> bytes \<Rightarrow> int \<Rightarrow> int \<Rightarrow> int \<Rightarrow> int \<Rightarrow> int \<Rightarrow> int \<Rightarrow> int \<Rightarrow> item list" where
  "segment_items cmdsize name vmaddr vmsize fileoff filesize maxprot initprot nsects =
     [U32 LC_SEGMENT_64, U32 cmdsize, S16 name, U64 vmaddr, U64 vmsize, U64 fileoff, U64 filesize,
      I32 maxprot, I32 initprot, U32 nsects, U32 0]"

text \<open>The format \<open>"<16s16sQQIIIIIIII"\<close> of a section header.\<close>

definition section_items :: "bytes \<Rightarrow> bytes \<Rightarrow> int \<Rightarrow> int \<Rightarrow> int \<Rightarrow> int \<Rightarrow> int \<Rightarrow> item list" where
  "section_items sectname segname addr sz offset algn fl =
     [S16 sectname, S16 segname, U64 addr, U64 sz, U32 offset, U32 algn, U32 0, U32 0, U32 fl,
      U32 0, U32 0, U32 0]"

text \<open>\<open>_segment_no_sections\<close>\<close>

definition segment_no_sections :: "pystr \<Rightarrow> int \<Rightarrow> int \<Rightarrow> int \<Rightarrow> int \<Rightarrow> int \<Rightarrow> bytes result" where
  "segment_no_sections name vmaddr vmsize fileoff filesize protection =
     rbind (name16 name) (\<lambda>nm.
       pack (segment_items 72 nm vmaddr vmsize fileoff filesize protection protection 0))"

text \<open>\<open>_dylib_command\<close>; \<open>_id_dylib_command\<close> of \<open>translate.py\<close> is the case of \<open>LC_ID_DYLIB\<close>.\<close>

definition dylib_command :: "int \<Rightarrow> pystr \<Rightarrow> bytes result" where
  "dylib_command command name =
     rbind (encode_utf8 name) (\<lambda>enc.
       let raw = enc @ [0]; sz = align (24 + int (length raw)) 8
       in rmap (\<lambda>p. p @ raw @ zeros (sz - 24 - int (length raw)))
            (pack [U32 command, U32 sz, U32 24, U32 0, U32 0x10000, U32 0x10000]))"

definition id_dylib_command :: "pystr \<Rightarrow> bytes result" where
  "id_dylib_command name =
     rbind (encode_utf8 name) (\<lambda>enc.
       let raw = enc @ [0]; sz = align (24 + int (length raw)) 8
       in rmap (\<lambda>p. p @ raw @ zeros (sz - 24 - int (length raw)))
            (pack [U32 LC_ID_DYLIB, U32 sz, U32 24, U32 0, U32 0x10000, U32 0x10000]))"

text \<open>\<open>_build_version_command\<close>: the version packed as \<open>major.minor.patch\<close>.\<close>

definition encode_version :: "int \<times> int \<times> int \<Rightarrow> int" where
  "encode_version v = (case v of (a, b, c) \<Rightarrow> (push_bit 16 a OR push_bit 8 b) OR c)"

definition build_version_command :: "int \<times> int \<times> int \<Rightarrow> bytes result" where
  "build_version_command min_ios =
     (let version = encode_version min_ios
      in pack [U32 LC_BUILD_VERSION, U32 24, U32 PLATFORM_IOS, U32 version, U32 version, U32 0])"

text \<open>The format \<open>"<IiiIIIII"\<close> of the Mach-O header.\<close>

definition header_items :: "int \<Rightarrow> int \<Rightarrow> int \<Rightarrow> int \<Rightarrow> item list" where
  "header_items filetype ncmds sizeofcmds fl =
     [U32 MH_MAGIC_64, I32 CPU_TYPE_ARM64, I32 CPU_SUBTYPE_ARM64_ALL, U32 filetype, U32 ncmds,
      U32 sizeofcmds, U32 fl, U32 0]"

definition mach_header :: "int \<Rightarrow> int \<Rightarrow> int \<Rightarrow> int \<Rightarrow> bytes result" where
  "mach_header filetype ncmds sizeofcmds fl = pack (header_items filetype ncmds sizeofcmds fl)"

text \<open>
  The header page: the Mach-O header and the load commands written over the front of the image, or
  the error \<open>err\<close> when they do not fit into \<open>reserve\<close> bytes.
\<close>

definition header_page :: "exn \<Rightarrow> int \<Rightarrow> int \<Rightarrow> bytes list \<Rightarrow> bytes \<Rightarrow> bytes result" where
  "header_page err fl reserve commands img =
     (let load_commands = concat commands in
      rbind (mach_header MH_DYLIB (int (length commands)) (int (length load_commands)) fl) (\<lambda>header.
        if int (length header) + int (length load_commands) > reserve then Inl err
        else (let img1 = py_slice_assign img 0 (int (length header)) header
              in Inr (py_slice_assign img1 (int (length header))
                        (int (length header) + int (length load_commands)) load_commands))))"

subsection \<open>The smoke executable\<close>

definition PAGE :: int where "PAGE = 0x4000"

definition smoke_code :: bytes where
  "smoke_code = [0x00, 0x00, 0x80, 0x52, 0xC0, 0x03, 0x5F, 0xD6]"

definition build_skeleton_image :: "bytes result" where
  "build_skeleton_image =
     (let code = smoke_code; n = int (length code); seg_cmdsize = 72 + 80;
          text_seg = map byte_of (lit ''__TEXT'') @ replicate 10 0;
          text_sect = map byte_of (lit ''__text'') @ replicate 10 0
      in rbind (pack (segment_items seg_cmdsize text_seg 0x100000000 (PAGE + n) 0 (PAGE + n) 5 5 1))
           (\<lambda>segment.
         rbind (pack (section_items text_sect text_seg (0x100000000 + PAGE) n PAGE 2 0x80000400))
           (\<lambda>sect.
         rbind (pack [U32 LC_MAIN, U32 24, U64 PAGE, U64 0]) (\<lambda>main.
         let commands = segment @ sect @ main
         in rbind (mach_header MH_EXECUTE 2 (int (length commands)) 0) (\<lambda>header.
              let image = header @ commands;
                  image' = image @ zeros (PAGE - int (length image))
              in Inr (image' @ code))))))"

text \<open>\<open>build_arm64_macho_skeleton\<close>: the file system after the call, and the path returned.\<close>

definition build_arm64_macho_skeleton :: "fs \<Rightarrow> pystr \<Rightarrow> (fs \<times> pystr) result" where
  "build_arm64_macho_skeleton fs path =
     rmap (\<lambda>image. (write_bytes fs path image, path)) build_skeleton_image"

subsection \<open>Sizes\<close>

lemma code_of_segment_items [simp]:
  "calcsize (map code_of (segment_items cs nm va vs fo fsz mp ip ns)) = 72"
  by (simp add: segment_items_def)

lemma code_of_section_items [simp]:
  "calcsize (map code_of (section_items sn gn a s off al fl)) = 80"
  by (simp add: section_items_def)

lemma code_of_header_items [simp]: "calcsize (map code_of (header_items ft nc sc fl)) = 32"
  by (simp add: header_items_def)

lemma mach_header_length: "mach_header ft nc sc fl = Inr h \<Longrightarrow> length h = 32"
  unfolding mach_header_def by (drule pack_length) simp

lemma segment_no_sections_length:
  "segment_no_sections nm va vs fo fsz p = Inr c \<Longrightarrow> length c = 72"
  by (auto simp: segment_no_sections_def result_iff dest: pack_length)

text \<open>A dylib command is padded to a multiple of eight bytes, its declared size.\<close>

definition dylib_size :: "bytes \<Rightarrow> int" where
  "dylib_size enc = align (24 + int (length enc) + 1) 8"

lemma dylib_size_bounds:
  "24 + int (length enc) + 1 \<le> dylib_size enc" "dylib_size enc < 24 + int (length enc) + 9"
  "8 dvd dylib_size enc"
  using align_bounds[of 8 "24 + int (length enc) + 1"] by (simp_all add: dylib_size_def)

lemma dylib_command_Inr:
  assumes "dylib_command cmd name = Inr c"
  obtains enc p where "encode_utf8 name = Inr enc"
    and "pack [U32 cmd, U32 (dylib_size enc), U32 24, U32 0, U32 0x10000, U32 0x10000] = Inr p"
    and "c = p @ (enc @ [0]) @ zeros (dylib_size enc - 25 - int (length enc))"
    and "int (length c) = dylib_size enc"
proof -
  from assms obtain enc p where enc: "encode_utf8 name = Inr enc"
    and p: "pack [U32 cmd, U32 (dylib_size enc), U32 24, U32 0, U32 0x10000, U32 0x10000] = Inr p"
    and c: "c = p @ (enc @ [0]) @ zeros (dylib_size enc - 25 - int (length enc))"
    by (auto simp: dylib_command_def result_iff Let_def dylib_size_def algebra_simps)
  have "length p = 24" using pack_length[OF p] by simp
  then have "int (length c) = dylib_size enc"
    using dylib_size_bounds(1)[of enc] by (simp add: c)
  then show thesis using that enc p c by blast
qed

lemma id_dylib_command_eq: "id_dylib_command name = dylib_command LC_ID_DYLIB name"
  by (simp add: id_dylib_command_def dylib_command_def)

lemma build_version_command_length: "build_version_command v = Inr c \<Longrightarrow> length c = 24"
  by (auto simp: build_version_command_def Let_def dest: pack_length)

lemma dylib_command_ok:
  assumes "encode_utf8 name = Inr enc" and "0 \<le> cmd" and "cmd < 2 ^ 32" and "dylib_size enc < 2 ^ 32"
  shows "\<exists>c. dylib_command cmd name = Inr c \<and> int (length c) = dylib_size enc"
proof -
  have "\<forall>x \<in> set [U32 cmd, U32 (dylib_size enc), U32 24, U32 0, U32 0x10000, U32 0x10000]. item_ok x"
    using dylib_size_bounds(1)[of enc] assms by simp
  then obtain p where "pack [U32 cmd, U32 (dylib_size enc), U32 24, U32 0, U32 0x10000, U32 0x10000] = Inr p"
    using pack_ok by blast
  then obtain c where c: "dylib_command cmd name = Inr c"
    by (auto simp: dylib_command_def assms(1) Let_def dylib_size_def algebra_simps)
  then have "int (length c) = dylib_size enc" using assms(1) by (auto elim: dylib_command_Inr)
  then show ?thesis using c by blast
qed

lemma build_version_ok:
  assumes "item_ok (U32 (encode_version v))"
  shows "\<exists>c. build_version_command v = Inr c"
proof -
  have "\<forall>x \<in> set [U32 LC_BUILD_VERSION, U32 24, U32 PLATFORM_IOS, U32 (encode_version v), U32 (encode_version v), U32 0]. item_ok x"
    using assms by (simp add: LC_BUILD_VERSION_def PLATFORM_IOS_def)
  then obtain q where "pack [U32 LC_BUILD_VERSION, U32 24, U32 PLATFORM_IOS, U32 (encode_version v),
      U32 (encode_version v), U32 0] = Inr q"
    using pack_ok by blast
  then show ?thesis by (simp add: build_version_command_def Let_def)
qed

lemma header_page_Inr:
  assumes "header_page err fl reserve cs img = Inr img'" and "reserve \<le> int (length img)"
  obtains h where "mach_header MH_DYLIB (int (length cs)) (int (length (concat cs))) fl = Inr h"
    and "length h = 32" and "32 + int (length (concat cs)) \<le> reserve"
    and "img' = h @ concat cs @ drop (32 + length (concat cs)) img"
proof -
  obtain h where h: "mach_header MH_DYLIB (int (length cs)) (int (length (concat cs))) fl = Inr h"
    and fit: "int (length h) + int (length (concat cs)) \<le> reserve"
    and img': "img' = py_slice_assign (py_slice_assign img 0 (int (length h)) h) (int (length h))
      (int (length h) + int (length (concat cs))) (concat cs)"
    using assms(1) by (auto simp: header_page_def result_iff Let_def split: if_splits)
  have h32: "length h = 32" by (rule mach_header_length[OF h])
  have "py_slice_assign img 0 (int (length h)) h = h @ drop (length h) img"
    using assms(2) fit by (subst py_slice_assign_patch) auto
  moreover have "py_slice_assign (h @ drop (length h) img) (int (length h))
      (int (length h) + int (length (concat cs))) (concat cs)
    = h @ concat cs @ drop (length (concat cs)) (drop (length h) img)"
    by (rule py_slice_assign_behind) (use assms(2) fit in auto)
  ultimately have "img' = h @ concat cs @ drop (32 + length (concat cs)) img"
    using img' h32 by (simp add: add.commute)
  then show thesis using that h fit h32 by simp
qed

text \<open>Nothing changes above the header page.\<close>

lemma header_page_above:
  assumes "header_page err fl reserve cs img = Inr img'" and "reserve \<le> int (length img)"
  shows "length img' = length img"
    and "reserve \<le> int k \<Longrightarrow> k < length img \<Longrightarrow> img' ! k = img ! k"
proof -
  obtain h where e: "length h = 32" "32 + int (length (concat cs)) \<le> reserve"
    "img' = h @ concat cs @ drop (32 + length (concat cs)) img"
    by (rule header_page_Inr[OF assms])
  show "length img' = length img" using e assms(2) by simp
  show "reserve \<le> int k \<Longrightarrow> k < length img \<Longrightarrow> img' ! k = img ! k"
  proof -
    assume k: "reserve \<le> int k" "k < length img"
    then have "32 + length (concat cs) \<le> k" using e(2) by linarith
    then show "img' ! k = img ! k" using e k(2) by (auto simp: nth_append)
  qed
qed

text \<open>The header page goes through when the commands fit.\<close>

lemma header_page_ok:
  assumes "32 + int (length (concat cs)) \<le> reserve" and "reserve < 2 ^ 32" and "int (length cs) < 2 ^ 32"
    and "0 \<le> fl" and "fl < 2 ^ 32"
  shows "\<exists>img'. header_page err fl reserve cs img = Inr img'"
proof -
  have "int (length (concat cs)) < 2 ^ 32" using assms(1,2) by linarith
  then have "\<forall>x \<in> set (header_items MH_DYLIB (int (length cs)) (int (length (concat cs))) fl). item_ok x"
    using assms(3-5) by (simp add: header_items_def macho_consts)
  then obtain h where "mach_header MH_DYLIB (int (length cs)) (int (length (concat cs))) fl = Inr h"
    using pack_ok by (auto simp: mach_header_def)
  then show ?thesis using assms(1) mach_header_length by (auto simp: header_page_def Let_def)
qed

end
