(* ===== verification/Phase2.thy ===== *)
theory Phase2
  imports Relocs Address_Map Macho
begin

section \<open>The Phase 2 translator (\<open>translate.py\<close>)\<close>

text \<open>
  \<open>Phase2Translator\<close>: the \<open>PT_LOAD\<close> segments of an AArch64 shared object are laid out on pages at
  one constant slide, copied into the image, and the relocations whose target the file defines
  are applied; the rest is collected as unresolved. A \<open>phase2\<close> record is the translator object,
  \<open>translate2\<close> its \<open>translate\<close> method on an explicit file system. Exceptions raised before the
  final \<open>write_bytes\<close> leave the file system as it was.
\<close>

definition HEADER_VM :: int where "HEADER_VM = 0x100000000"
definition ELF_SLIDE :: int where "ELF_SLIDE = 0x100010000"

subsection \<open>Layout\<close>

record mapped_load =
  ml_name :: pystr
  ml_vmaddr :: int
  ml_vmsize :: int
  ml_fileoff :: int
  ml_filesize :: int
  ml_maxprot :: int
  ml_initprot :: int
  ml_delta :: int
  ml_elf_vaddr :: int
  ml_elf_offset :: int
  ml_elf_filesz :: int
  ml_elf_memsz :: int

definition load_name :: "int \<Rightarrow> program_header \<Rightarrow> pystr" where
  "load_name load_index ph =
     (if p_flags ph AND 1 \<noteq> 0 then lit ''__ELF_TEXT''
      else if p_flags ph AND 2 \<noteq> 0 then lit ''__ELF_DATA''
      else lit ''__ELF_'' @ py_dec load_index)"

text \<open>The body of the loop of \<open>_map_loads\<close> for one \<open>PT_LOAD\<close> header.\<close>

definition map_load :: "int \<Rightarrow> int \<Rightarrow> int \<Rightarrow> int \<Rightarrow> program_header \<Rightarrow> mapped_load" where
  "map_load slide page cursor load_index ph =
     (let new_vm = slide + p_vaddr ph;
          vm_floor = floor_to new_vm page;
          delta = new_vm - vm_floor;
          fileoff = align cursor page;
          prot = mach_prot (p_flags ph)
      in \<lparr>ml_name = load_name load_index ph, ml_vmaddr = vm_floor,
          ml_vmsize = align (delta + p_memsz ph) page, ml_fileoff = fileoff,
          ml_filesize = delta + p_filesz ph, ml_maxprot = prot, ml_initprot = prot,
          ml_delta = delta, ml_elf_vaddr = p_vaddr ph, ml_elf_offset = p_offset ph,
          ml_elf_filesz = p_filesz ph, ml_elf_memsz = p_memsz ph\<rparr>)"

fun map_loads_loop :: "int \<Rightarrow> int \<Rightarrow> int \<Rightarrow> int \<Rightarrow> program_header list \<Rightarrow> mapped_load list" where
  "map_loads_loop slide page cursor load_index [] = []"
| "map_loads_loop slide page cursor load_index (ph # phs) =
     (if p_type ph \<noteq> PT_LOAD then map_loads_loop slide page cursor load_index phs
      else (let ld = map_load slide page cursor load_index ph;
                cursor' = align (ml_fileoff ld + ml_delta ld + p_filesz ph) page
            in ld # map_loads_loop slide page cursor' (load_index + 1) phs))"

definition map_loads :: "elf64 \<Rightarrow> int \<Rightarrow> int \<Rightarrow> mapped_load list result" where
  "map_loads e slide page =
     (let loads = map_loads_loop slide page page 0 (program_headers e)
      in if loads = [] then Inl (TranslateError No_Pt_Load) else Inr loads)"

record phase2 =
  p2_elf :: elf64
  p2_header_vm :: int
  p2_slide :: int
  p2_page :: int
  p2_loads :: "mapped_load list"

text \<open>\<open>Phase2Translator.__init__\<close>\<close>

definition phase2_init :: "elf64 \<Rightarrow> int \<Rightarrow> int \<Rightarrow> int \<Rightarrow> phase2 result" where
  "phase2_init e header_vm slide page =
     (if e_machine (ehdr e) \<noteq> EM_AARCH64 then Inl (TranslateError Needs_AArch64)
      else if e_type (ehdr e) \<noteq> ET_DYN then Inl (TranslateError Needs_Et_Dyn)
      else rmap (\<lambda>loads. \<lparr>p2_elf = e, p2_header_vm = header_vm, p2_slide = slide, p2_page = page,
                          p2_loads = loads\<rparr>)
             (map_loads e slide page))"

definition load_covers :: "int \<Rightarrow> mapped_load \<Rightarrow> bool" where
  "load_covers vaddr seg \<longleftrightarrow>
     ml_elf_vaddr seg \<le> vaddr \<and> vaddr < ml_elf_vaddr seg + ml_elf_filesz seg"

definition vaddr_to_output_offset :: "mapped_load list \<Rightarrow> int \<Rightarrow> int result" where
  "vaddr_to_output_offset loads vaddr =
     (case find (load_covers vaddr) loads of
        Some seg \<Rightarrow> Inr (ml_fileoff seg + ml_delta seg + (vaddr - ml_elf_vaddr seg))
      | None \<Rightarrow> Inl (TranslateError (Target_Not_File_Backed vaddr)))"

subsection \<open>The relocation loop\<close>

record unresolved_reloc =
  un_offset :: int
  un_type :: int
  un_symbol :: pystr
  un_addend :: int

record p2_state =
  s_image :: bytes
  s_patched :: patched_counts
  s_unresolved :: "unresolved_reloc list"

definition reloc_step2 ::
  "mapped_load list \<Rightarrow> int \<Rightarrow> elf_symbol list \<Rightarrow> p2_state \<Rightarrow> relocation \<Rightarrow> p2_state result" where
  "reloc_step2 loads slide syms st r =
     rbind (vaddr_to_output_offset loads (rel_offset r)) (\<lambda>dst.
       if rel_type r = R_AARCH64_RELATIVE then
         rbind (write_u64 (s_image st) dst (mask64 (slide + rel_addend r))) (\<lambda>img.
           Inr (st\<lparr>s_image := img,
                   s_patched := (s_patched st)\<lparr>n_relative := n_relative (s_patched st) + 1\<rparr>\<rparr>))
       else if rel_type r \<notin> set symbol_relocs then
         Inl (TranslateError (Unsupported_Relocation (rel_type r) (rel_offset r)))
       else if rel_sym r \<ge> int (length syms) then
         Inl (TranslateError (Bad_Symbol_Index (rel_sym r)))
       else (let symbol = syms ! nat (rel_sym r) in
         if st_shndx symbol = SHN_UNDEF then
           Inr (st\<lparr>s_unresolved := s_unresolved st @
                   [\<lparr>un_offset = rel_offset r, un_type = rel_type r, un_symbol = sym_name symbol,
                     un_addend = rel_addend r\<rparr>]\<rparr>)
         else (let sym_addr = slide + st_value symbol; v = sym_addr + rel_addend r in
           if rel_type r = R_AARCH64_ABS64 then
             rbind (read_u64 (s_image st) dst) (\<lambda>current.
             rbind (write_u64 (s_image st) dst (mask64 (v + current))) (\<lambda>img.
               Inr (st\<lparr>s_image := img,
                       s_patched := (s_patched st)\<lparr>n_abs64 := n_abs64 (s_patched st) + 1\<rparr>\<rparr>)))
           else if rel_type r = R_AARCH64_GLOB_DAT then
             rbind (write_u64 (s_image st) dst (mask64 v)) (\<lambda>img.
               Inr (st\<lparr>s_image := img,
                       s_patched := (s_patched st)\<lparr>n_glob_dat := n_glob_dat (s_patched st) + 1\<rparr>\<rparr>))
           else
             rbind (write_u64 (s_image st) dst (mask64 v)) (\<lambda>img.
               Inr (st\<lparr>s_image := img,
                       s_patched := (s_patched st)\<lparr>n_jump_slot := n_jump_slot (s_patched st) + 1\<rparr>\<rparr>)))))"

subsection \<open>The image\<close>

text \<open>\<open>image = bytearray(end)\<close> and the loop that copies the segments.\<close>

definition load_region :: "mapped_load \<Rightarrow> int \<times> int \<times> int" where
  "load_region seg = (ml_fileoff seg + ml_delta seg, ml_elf_offset seg, ml_elf_filesz seg)"

definition loads_end :: "int \<Rightarrow> mapped_load list \<Rightarrow> int" where
  "loads_end page loads = max_list (map (\<lambda>x. align (ml_fileoff x + ml_filesize x) page) loads)"

definition copy_loads :: "phase2 \<Rightarrow> bytes" where
  "copy_loads t =
     copy_regions (edata (p2_elf t)) (map load_region (p2_loads t))
       (zeros (loads_end (p2_page t) (p2_loads t)))"

definition segment_command :: "mapped_load \<Rightarrow> bytes result" where
  "segment_command seg =
     rbind (name16 (ml_name seg)) (\<lambda>nm.
       pack (segment_items 72 nm (ml_vmaddr seg) (ml_vmsize seg) (ml_fileoff seg) (ml_filesize seg)
               (ml_maxprot seg) (ml_initprot seg) 0))"

definition header_segment :: "phase2 \<Rightarrow> mapped_load" where
  "header_segment t =
     \<lparr>ml_name = lit ''__HEADER'', ml_vmaddr = p2_header_vm t, ml_vmsize = p2_slide t - p2_header_vm t,
      ml_fileoff = 0, ml_filesize = p2_page t, ml_maxprot = VM_PROT_READ, ml_initprot = VM_PROT_READ,
      ml_delta = 0, ml_elf_vaddr = 0, ml_elf_offset = 0, ml_elf_filesz = 0, ml_elf_memsz = 0\<rparr>"

text \<open>The load commands in file order.\<close>

definition commands2 :: "phase2 \<Rightarrow> pystr \<Rightarrow> int \<times> int \<times> int \<Rightarrow> bytes list result" where
  "commands2 t install_name min_ios =
     rbind (segment_command (header_segment t)) (\<lambda>c0.
     rbind (mapM_r segment_command (p2_loads t)) (\<lambda>cs.
     rbind (id_dylib_command install_name) (\<lambda>cid.
     rbind (build_version_command min_ios) (\<lambda>cv.
       Inr ([c0] @ cs @ [cid] @ [cv])))))"

text \<open>The header page: the last part of \<open>translate\<close> before the file is written.\<close>

definition emit_header2 :: "phase2 \<Rightarrow> pystr \<Rightarrow> int \<times> int \<times> int \<Rightarrow> bytes \<Rightarrow> bytes result" where
  "emit_header2 t install_name min_ios img =
     rbind (commands2 t install_name min_ios) (\<lambda>commands.
       header_page (TranslateError Load_Commands_Too_Large) 0 (p2_page t) commands img)"

definition relocate2 :: "phase2 \<Rightarrow> p2_state result" where
  "relocate2 t =
     rbind (dynamic_symbols (p2_elf t)) (\<lambda>syms.
     rbind (iter_relocations (p2_elf t)) (\<lambda>rels.
       foldM_r (reloc_step2 (p2_loads t) (p2_slide t) syms)
         \<lparr>s_image = copy_loads t, s_patched = no_patches, s_unresolved = []\<rparr> rels))"

text \<open>The bytes \<open>translate\<close> writes, with the final state of its loop.\<close>

definition build2 :: "phase2 \<Rightarrow> pystr \<Rightarrow> int \<times> int \<times> int \<Rightarrow> (bytes \<times> p2_state) result" where
  "build2 t install_name min_ios =
     rbind (relocate2 t) (\<lambda>st.
     rbind (emit_header2 t install_name min_ios (s_image st)) (\<lambda>img. Inr (img, st)))"

subsection \<open>The report and the method\<close>

record p2_segment_report =
  sr_name :: pystr
  sr_vmaddr :: pystr
  sr_vmsize :: pystr
  sr_fileoff :: pystr
  sr_filesize :: pystr
  sr_protection :: int
  sr_elf_vaddr :: pystr

record p2_report =
  r2_output :: pystr
  r2_output_size :: int
  r2_header_vm :: pystr
  r2_elf_slide :: pystr
  r2_segments :: "p2_segment_report list"
  r2_patched :: patched_counts
  r2_patched_total :: int
  r2_unresolved_relocations :: int
  r2_unresolved_symbol_count :: int
  r2_unresolved_symbols :: "pystr list"

definition segment_report2 :: "mapped_load \<Rightarrow> p2_segment_report" where
  "segment_report2 x =
     \<lparr>sr_name = ml_name x, sr_vmaddr = py_hex (ml_vmaddr x), sr_vmsize = py_hex (ml_vmsize x),
      sr_fileoff = py_hex (ml_fileoff x), sr_filesize = py_hex (ml_filesize x),
      sr_protection = ml_initprot x, sr_elf_vaddr = py_hex (ml_elf_vaddr x)\<rparr>"

definition report2 :: "phase2 \<Rightarrow> pystr \<Rightarrow> bytes \<Rightarrow> p2_state \<Rightarrow> p2_report" where
  "report2 t output img st =
     (let names = sorted_set (filter (\<lambda>s. s \<noteq> []) (map un_symbol (s_unresolved st)))
      in \<lparr>r2_output = output, r2_output_size = int (length img),
          r2_header_vm = py_hex (p2_header_vm t), r2_elf_slide = py_hex (p2_slide t),
          r2_segments = map segment_report2 (p2_loads t), r2_patched = s_patched st,
          r2_patched_total = patched_total (s_patched st),
          r2_unresolved_relocations = int (length (s_unresolved st)),
          r2_unresolved_symbol_count = int (length names), r2_unresolved_symbols = names\<rparr>)"

definition translate2 ::
  "phase2 \<Rightarrow> fs \<Rightarrow> pystr \<Rightarrow> pystr \<Rightarrow> int \<times> int \<times> int \<Rightarrow> fs \<times> p2_report result" where
  "translate2 t fs output install_name min_ios =
     (case build2 t install_name min_ios of
        Inl e \<Rightarrow> (fs, Inl e)
      | Inr (img, st) \<Rightarrow> (write_bytes fs output img, Inr (report2 t output img st)))"

text \<open>\<open>translate_phase2\<close> with the default layout parameters.\<close>

definition translate_phase2 ::
  "fs \<Rightarrow> pystr \<Rightarrow> pystr \<Rightarrow> pystr \<Rightarrow> int \<times> int \<times> int \<Rightarrow> fs \<times> p2_report result" where
  "translate_phase2 fs input output install_name min_ios =
     (case rbind (read_bytes fs input) (\<lambda>d.
             rbind (parse_elf d input) (\<lambda>e. phase2_init e HEADER_VM ELF_SLIDE IOS_PAGE)) of
        Inl e \<Rightarrow> (fs, Inl e)
      | Inr t \<Rightarrow> translate2 t fs output install_name min_ios)"

interpretation p2: file_op "\<lambda>fs. translate_phase2 fs input dest install v" "{dest}" for input dest install v
  by unfold_locales (auto simp: translate_phase2_def translate2_def write_bytes_apply split: sum.splits)

end
