(* ===== verification/Phase2_Layout.thy ===== *)
theory Phase2_Layout
  imports Phase2
begin

section \<open>The layout of Phase 2: pages, slide and the address lookup\<close>

text \<open>
  Every \<open>PT_LOAD\<close> header gives one segment, at the constant slide, on whole pages, with the file
  regions in ascending order behind the header page; the lookup of \<open>_vaddr_to_output_offset\<close> is
  an \<open>address_map\<close>.
\<close>

text \<open>What the layout promises of the segment \<open>ld\<close> made from \<open>ph\<close>.\<close>

definition load_placed :: "int \<Rightarrow> int \<Rightarrow> program_header \<Rightarrow> mapped_load \<Rightarrow> bool" where
  "load_placed slide page ph ld \<longleftrightarrow>
     page dvd ml_vmaddr ld \<and> page dvd ml_vmsize ld \<and> page dvd ml_fileoff ld
     \<and> ml_vmaddr ld + ml_delta ld = slide + p_vaddr ph \<and> 0 \<le> ml_delta ld \<and> ml_delta ld < page
     \<and> ml_delta ld + p_memsz ph \<le> ml_vmsize ld
     \<and> ml_filesize ld = ml_delta ld + p_filesz ph
     \<and> ml_maxprot ld = mach_prot (p_flags ph) \<and> ml_initprot ld = mach_prot (p_flags ph)
     \<and> ml_elf_vaddr ld = p_vaddr ph \<and> ml_elf_offset ld = p_offset ph
     \<and> ml_elf_filesz ld = p_filesz ph \<and> ml_elf_memsz ld = p_memsz ph"

lemma map_load_placed:
  assumes "pow2 page"
  shows "load_placed slide page ph (map_load slide page cursor i ph)"
  using floor_to_bounds[OF assms, of "slide + p_vaddr ph"] align_bounds[OF assms]
  by (simp add: load_placed_def map_load_def Let_def)

lemma map_loads_loop_placed:
  assumes "pow2 page"
  shows "list_all2 (load_placed slide page) (filter (\<lambda>ph. p_type ph = PT_LOAD) phs)
    (map_loads_loop slide page cursor i phs)"
  by (induction phs arbitrary: cursor i) (auto simp: Let_def map_load_placed[OF assms])

abbreviation file_region :: "mapped_load \<Rightarrow> int \<times> int" where
  "file_region ld \<equiv> (ml_fileoff ld, ml_filesize ld)"

lemma map_load_fields [simp]:
  "ml_fileoff (map_load slide page cursor i ph) = align cursor page"
  "ml_filesize (map_load slide page cursor i ph) = ml_delta (map_load slide page cursor i ph) + p_filesz ph"
  by (simp_all add: map_load_def Let_def)

lemma map_loads_loop_ordered:
  assumes "pow2 page" and "\<forall>ph \<in> set phs. 0 \<le> p_filesz ph"
  shows "\<exists>b. regions_ordered cursor (map file_region (map_loads_loop slide page cursor i phs)) b"
  using assms(2)
proof (induction phs arbitrary: cursor i)
  case Nil
  then show ?case by auto
next
  case (Cons ph phs)
  show ?case
  proof (cases "p_type ph = PT_LOAD")
    case False
    then show ?thesis using Cons by simp
  next
    case True
    let ?ld = "map_load slide page cursor i ph"
    let ?stop = "ml_fileoff ?ld + ml_delta ?ld + p_filesz ph"
    have pl: "load_placed slide page ph ?ld" by (rule map_load_placed[OF assms(1)])
    obtain b where b: "regions_ordered (align ?stop page)
        (map file_region (map_loads_loop slide page (align ?stop page) (i + 1) phs)) b"
      using Cons.IH[of "align ?stop page" "i + 1"] Cons.prems by auto
    have "regions_ordered ?stop
        (map file_region (map_loads_loop slide page (align ?stop page) (i + 1) phs)) b"
      by (rule regions_ordered_mono[OF b]) (simp_all add: align_bounds(1)[OF assms(1)])
    then show ?thesis
      using True pl Cons.prems align_bounds(1)[OF assms(1), of cursor]
      by (intro exI[of _ b]) (simp add: load_placed_def Let_def add.assoc)
  qed
qed

lemma map_loads_Inr:
  "map_loads e slide page = Inr loads \<longleftrightarrow>
     loads = map_loads_loop slide page page 0 (program_headers e) \<and> loads \<noteq> []"
  by (auto simp: map_loads_def Let_def)

lemma map_loads_placed:
  "pow2 page \<Longrightarrow> map_loads e slide page = Inr loads \<Longrightarrow>
     list_all2 (load_placed slide page) (pt_loads e) loads"
  using map_loads_loop_placed[of page slide "program_headers e" page 0]
  by (simp add: map_loads_Inr pt_loads_def)

lemma map_loads_empty_iff:
  "map_loads e slide page = Inl x \<longleftrightarrow> x = TranslateError No_Pt_Load \<and> pt_loads e = []"
proof -
  have "map_loads_loop slide page c i phs = [] \<longleftrightarrow> filter (\<lambda>ph. p_type ph = PT_LOAD) phs = []" for c i phs
    by (induction phs arbitrary: c i) (auto simp: Let_def)
  then show ?thesis by (auto simp: map_loads_def Let_def pt_loads_def)
qed

text \<open>The file regions, and with them the places of the segments' bytes, are in ascending order.\<close>

lemma map_loads_ordered:
  assumes "pow2 page" and "elf_wf e" and "map_loads e slide page = Inr loads"
  shows "regions_ordered page (map file_region loads) (loads_end page loads)"
proof -
  have loads: "loads = map_loads_loop slide page page 0 (program_headers e)" "loads \<noteq> []"
    using assms(3) by (auto simp: map_loads_Inr)
  have "\<forall>ph \<in> set (program_headers e). 0 \<le> p_filesz ph"
    using assms(2) by (auto simp: elf_wf_def list_all_iff phdr_ok_def)
  from map_loads_loop_ordered[OF assms(1) this, of page slide 0] obtain b where
    b: "regions_ordered page (map file_region loads) b" using loads(1) by auto
  have ends: "ml_fileoff l + ml_filesize l \<le> loads_end page loads" if "l \<in> set loads" for l
  proof -
    have "align (ml_fileoff l + ml_filesize l) page \<le> loads_end page loads"
      unfolding loads_end_def by (rule max_list_ge) (use that in auto)
    then show ?thesis using align_bounds(1)[OF assms(1), of "ml_fileoff l + ml_filesize l"] by linarith
  qed
  obtain l where l: "l \<in> set loads" using loads(2) by (cases loads) auto
  then have "file_region l \<in> set (map file_region loads)" by auto
  from regions_ordered_bounds[OF b this] ends[OF l] have "page \<le> loads_end page loads" by linarith
  then show ?thesis using ends by (intro regions_ordered_limit[OF b]) auto
qed

subsection \<open>The lookup\<close>

interpretation p2: address_map ml_elf_vaddr ml_elf_filesz "\<lambda>s. ml_fileoff s + ml_delta s"
  vaddr_to_output_offset
proof (unfold_locales, goal_cases)
  case (1 ss v p)
  then obtain s where "find (load_covers v) ss = Some s"
    and p: "p = ml_fileoff s + ml_delta s + (v - ml_elf_vaddr s)"
    by (auto simp: vaddr_to_output_offset_def split: option.splits)
  then have "s \<in> set ss" "load_covers v s" by (auto simp: find_Some_iff)
  then show ?case using p by (auto simp: load_covers_def)
next
  case (2 s ss v)
  then have "load_covers v s" by (simp add: load_covers_def)
  then have "find (load_covers v) ss \<noteq> None" using 2(1) by (auto simp: find_None_iff)
  then show ?case by (auto simp: vaddr_to_output_offset_def)
qed

lemma map_loads_p2_placed:
  assumes "pow2 page" and "elf_wf e" and "map_loads e slide page = Inr loads"
  shows "p2.placed page loads (loads_end page loads)"
proof -
  have pl: "list_all2 (load_placed slide page) (pt_loads e) loads"
    by (rule map_loads_placed[OF assms(1,3)])
  have "0 \<le> ml_delta l \<and> 0 \<le> ml_elf_filesz l \<and> ml_filesize l = ml_delta l + ml_elf_filesz l"
    if l: "l \<in> set loads" for l
  proof -
    obtain i where i: "i < length loads" "l = loads ! i" using l by (auto simp: in_set_conv_nth)
    then have len: "i < length (pt_loads e)" using list_all2_lengthD[OF pl] by simp
    then have "load_placed slide page (pt_loads e ! i) l"
      using list_all2_nthD[OF pl len] i by simp
    moreover have "pt_loads e ! i \<in> set (program_headers e)"
      using nth_mem[OF len] by (auto simp: pt_loads_def)
    ultimately show ?thesis
      using assms(2) by (auto simp: load_placed_def elf_wf_def list_all_iff phdr_ok_def)
  qed
  then show ?thesis
    unfolding p2.placed_def
    by (intro regions_ordered_shrink[OF _ map_loads_ordered[OF assms] order_refl])
      (auto simp: list_all2_conv_all_nth)
qed

text \<open>A byte of the file is found at the same distance from its segment in memory and in the file.\<close>

lemma load_placed_slide:
  "load_placed slide page ph ld \<Longrightarrow>
     ml_vmaddr ld + ((ml_fileoff ld + ml_delta ld + (v - ml_elf_vaddr ld)) - ml_fileoff ld) = slide + v"
  by (simp add: load_placed_def)

end
