(* ===== verification/Phase2_Relocs.thy ===== *)
theory Phase2_Relocs
  imports Phase2_Layout
begin

section \<open>The relocation loop of Phase 2 refines the relocation rules\<close>

text \<open>
  One iteration of the loop is one patch of the \<open>u64\<close> store, or one unresolved entry; a whole run
  is the sequence \<open>reloc_patches\<close> of patches, and its counters count what was done.
\<close>

definition place2 :: "mapped_load list \<Rightarrow> int \<Rightarrow> int" where
  "place2 loads v = (case vaddr_to_output_offset loads v of Inr p \<Rightarrow> p | Inl _ \<Rightarrow> -1)"

definition unresolved_of :: "elf_symbol list \<Rightarrow> relocation \<Rightarrow> unresolved_reloc" where
  "unresolved_of syms r =
     \<lparr>un_offset = rel_offset r, un_type = rel_type r,
      un_symbol = sym_name (syms ! nat (rel_sym r)), un_addend = rel_addend r\<rparr>"

lemma place2_Inr: "vaddr_to_output_offset loads v = Inr p \<Longrightarrow> place2 loads v = p"
  by (simp add: place2_def)

text \<open>What one iteration does, on every path through the loop body.\<close>

definition step_effect ::
  "mapped_load list \<Rightarrow> int \<Rightarrow> elf_symbol list \<Rightarrow> relocation \<Rightarrow> p2_state \<Rightarrow> p2_state \<Rightarrow> bool" where
  "step_effect loads slide syms r st st' \<longleftrightarrow>
     known_reloc syms r \<and> vaddr_to_output_offset loads (rel_offset r) = Inr (place2 loads (rel_offset r))
     \<and> u64.patches (s_image st) (reloc_patches (place2 loads) slide syms [r]) = Inr (s_image st')
     \<and> n_relative (s_patched st') = n_relative (s_patched st) + count_kind syms R_AARCH64_RELATIVE [r]
     \<and> n_abs64 (s_patched st') = n_abs64 (s_patched st) + count_kind syms R_AARCH64_ABS64 [r]
     \<and> n_glob_dat (s_patched st') = n_glob_dat (s_patched st) + count_kind syms R_AARCH64_GLOB_DAT [r]
     \<and> n_jump_slot (s_patched st') = n_jump_slot (s_patched st) + count_kind syms R_AARCH64_JUMP_SLOT [r]
     \<and> s_unresolved st' = s_unresolved st @ map (unresolved_of syms) (filter (is_import syms) [r])"

lemma reloc_step2_effect:
  assumes step: "reloc_step2 loads slide syms st r = Inr st'"
    and dst0: "0 \<le> place2 loads (rel_offset r)"
  shows "step_effect loads slide syms r st st'"
proof -
  obtain dst where dst: "vaddr_to_output_offset loads (rel_offset r) = Inr dst"
    using step by (auto simp: reloc_step2_def result_iff)
  have place: "place2 loads (rel_offset r) = dst" by (rule place2_Inr[OF dst])
  have pos: "0 \<le> dst" using dst0 place by simp
  note patch = write_is_patch[OF pos, of "s_image st"]
  consider (rel) "rel_type r = R_AARCH64_RELATIVE"
    | (imp) "is_import syms r"
    | (def) "rel_type r \<in> set symbol_relocs" "rel_sym r < int (length syms)" "\<not> is_import syms r"
    using step dst by (auto simp: reloc_step2_def is_import_def split: if_splits)
  then show ?thesis
  proof cases
    case rel
    then obtain img where "write_u64 (s_image st) dst (mask64 (slide + rel_addend r)) = Inr img"
      and "st' = st\<lparr>s_image := img, s_patched := (s_patched st)\<lparr>n_relative := n_relative (s_patched st) + 1\<rparr>\<rparr>"
      using step dst by (auto simp: reloc_step2_def result_iff)
    then show ?thesis using rel dst patch place
      by (simp add: step_effect_def known_reloc_def is_import_def reloc_patch_def)
  next
    case imp
    then have "st' = st\<lparr>s_unresolved := s_unresolved st @ [unresolved_of syms r]\<rparr>"
      using step dst
      by (auto simp: reloc_step2_def is_import_def unresolved_of_def Let_def split: if_splits)
    then show ?thesis using imp dst place
      by (auto simp: step_effect_def known_reloc_def is_import_def reloc_patch_def)
  next
    case def
    let ?sym = "syms ! nat (rel_sym r)"
    have defd: "st_shndx ?sym \<noteq> SHN_UNDEF" "rel_type r \<noteq> R_AARCH64_RELATIVE" "\<not> int (length syms) \<le> rel_sym r"
      using def by (auto simp: is_import_def)
    show ?thesis
    proof (cases "rel_type r = R_AARCH64_ABS64")
      case True
      then obtain old img where "read_u64 (s_image st) dst = Inr old"
        and "write_u64 (s_image st) dst (mask64 (slide + st_value ?sym + rel_addend r + old)) = Inr img"
        and "st' = st\<lparr>s_image := img, s_patched := (s_patched st)\<lparr>n_abs64 := n_abs64 (s_patched st) + 1\<rparr>\<rparr>"
        using step dst def defd by (auto simp: reloc_step2_def result_iff Let_def)
      then show ?thesis using True dst patch def defd place
        by (simp add: step_effect_def known_reloc_def reloc_patch_def)
    next
      case False
      then obtain img where w: "write_u64 (s_image st) dst (mask64 (slide + st_value ?sym + rel_addend r)) = Inr img"
        and st': "st' = st\<lparr>s_image := img, s_patched :=
          (if rel_type r = R_AARCH64_GLOB_DAT
           then (s_patched st)\<lparr>n_glob_dat := n_glob_dat (s_patched st) + 1\<rparr>
           else (s_patched st)\<lparr>n_jump_slot := n_jump_slot (s_patched st) + 1\<rparr>)\<rparr>"
        using step dst def defd by (auto simp: reloc_step2_def result_iff Let_def split: if_splits)
      have "rel_type r = R_AARCH64_GLOB_DAT \<or> rel_type r = R_AARCH64_JUMP_SLOT"
        using False def(1) by (auto simp: symbol_relocs_def)
      then show ?thesis using False dst patch def defd w st' place
        by (auto simp: step_effect_def known_reloc_def reloc_patch_def)
    qed
  qed
qed

text \<open>A whole run of the loop.\<close>

definition run_effect ::
  "mapped_load list \<Rightarrow> int \<Rightarrow> elf_symbol list \<Rightarrow> relocation list \<Rightarrow> p2_state \<Rightarrow> p2_state \<Rightarrow> bool" where
  "run_effect loads slide syms rs st st' \<longleftrightarrow>
     (\<forall>r \<in> set rs. known_reloc syms r
        \<and> vaddr_to_output_offset loads (rel_offset r) = Inr (place2 loads (rel_offset r)))
     \<and> u64.patches (s_image st) (reloc_patches (place2 loads) slide syms rs) = Inr (s_image st')
     \<and> n_relative (s_patched st') = n_relative (s_patched st) + count_kind syms R_AARCH64_RELATIVE rs
     \<and> n_abs64 (s_patched st') = n_abs64 (s_patched st) + count_kind syms R_AARCH64_ABS64 rs
     \<and> n_glob_dat (s_patched st') = n_glob_dat (s_patched st) + count_kind syms R_AARCH64_GLOB_DAT rs
     \<and> n_jump_slot (s_patched st') = n_jump_slot (s_patched st) + count_kind syms R_AARCH64_JUMP_SLOT rs
     \<and> s_unresolved st' = s_unresolved st @ map (unresolved_of syms) (filter (is_import syms) rs)"

lemma relocate2_effect:
  assumes "foldM_r (reloc_step2 loads slide syms) st rs = Inr st'"
    and "p2.placed a loads b" and "0 \<le> a"
  shows "run_effect loads slide syms rs st st'"
  using assms(1)
proof (rule foldM_r_history[where P = "\<lambda>done st'. run_effect loads slide syms done st st'"])
  show "run_effect loads slide syms [] st st" by (simp add: run_effect_def)
next
  fix "done" st1 r st2
  assume run: "run_effect loads slide syms done st st1"
    and step: "reloc_step2 loads slide syms st1 r = Inr st2"
  obtain dst where dst: "vaddr_to_output_offset loads (rel_offset r) = Inr dst"
    using step by (auto simp: reloc_step2_def result_iff)
  then have "0 \<le> place2 loads (rel_offset r)"
    using p2.locate_bounds(1)[OF assms(2) dst] assms(3) place2_Inr[OF dst] by simp
  from reloc_step2_effect[OF step this]
  have eff: "step_effect loads slide syms r st1 st2" .
  have "u64.patches (s_image st) (reloc_patches (place2 loads) slide syms (done @ [r])) = Inr (s_image st2)"
    unfolding reloc_patches_append patches_append
    using run eff by (simp add: run_effect_def step_effect_def)
  then show "run_effect loads slide syms (done @ [r]) st st2"
    using run eff unfolding run_effect_def step_effect_def by simp
qed

end
