(* ===== verification/Phase2_Correct.thy ===== *)
theory Phase2_Correct
  imports Phase2_Relocs
begin

section \<open>What Phase 2 writes\<close>

text \<open>
  The output image of Phase 2 against the ELF file: the header page holds the load commands, every
  segment byte no relocation touches is the file's, every relocated slot holds the value of the
  relocation rules, and the counters account for every relocation.
\<close>

text \<open>A translator object as \<open>__init__\<close> makes it from a parsed file, with a page size that is a power of two.\<close>

definition phase2_wf :: "phase2 \<Rightarrow> bool" where
  "phase2_wf t \<longleftrightarrow> pow2 (p2_page t) \<and> elf_wf (p2_elf t)
     \<and> map_loads (p2_elf t) (p2_slide t) (p2_page t) = Inr (p2_loads t)"

text \<open>Every segment's bytes are in the file (the file is not truncated).\<close>

definition loads_in_file :: "phase2 \<Rightarrow> bool" where
  "loads_in_file t \<longleftrightarrow>
     (\<forall>l \<in> set (p2_loads t). ml_elf_offset l + ml_elf_filesz l \<le> int (length (edata (p2_elf t))))"

lemma phase2_init_wf:
  assumes "phase2_init e header_vm slide page = Inr t" and "elf_wf e" and "pow2 page"
  shows "phase2_wf t" "p2_elf t = e" "p2_slide t = slide" "p2_page t = page" "p2_header_vm t = header_vm"
    "e_machine (ehdr e) = EM_AARCH64" "e_type (ehdr e) = ET_DYN"
  using assms by (auto simp: phase2_init_def phase2_wf_def result_iff split: if_splits)

lemma phase2_wf_page: "phase2_wf t \<Longrightarrow> 0 < p2_page t"
  by (simp add: phase2_wf_def pow2_pos)

lemma phase2_wf_placed:
  "phase2_wf t \<Longrightarrow> p2.placed (p2_page t) (p2_loads t) (loads_end (p2_page t) (p2_loads t))"
  by (auto simp: phase2_wf_def intro: map_loads_p2_placed)

lemma phase2_wf_page_le: "phase2_wf t \<Longrightarrow> p2_page t \<le> loads_end (p2_page t) (p2_loads t)"
  using phase2_wf_placed[of t] unfolding p2.placed_def by (rule regions_ordered_le)

lemma phase2_wf_load:
  assumes "phase2_wf t" and "l \<in> set (p2_loads t)"
  shows "0 \<le> ml_elf_offset l" "0 \<le> ml_elf_filesz l" "0 \<le> ml_elf_vaddr l"
    "ml_elf_vaddr l < 2 ^ 64" "ml_elf_offset l < 2 ^ 64"
    "\<exists>ph \<in> set (pt_loads (p2_elf t)). load_placed (p2_slide t) (p2_page t) ph l"
proof -
  have pl: "list_all2 (load_placed (p2_slide t) (p2_page t)) (pt_loads (p2_elf t)) (p2_loads t)"
    using assms(1) by (auto simp: phase2_wf_def intro: map_loads_placed)
  from list_all2_elem[OF this assms(2)] obtain ph where ph: "ph \<in> set (pt_loads (p2_elf t))"
    "load_placed (p2_slide t) (p2_page t) ph l" by blast
  then show "\<exists>ph \<in> set (pt_loads (p2_elf t)). load_placed (p2_slide t) (p2_page t) ph l" by blast
  have "phdr_ok ph"
    using ph(1) assms(1) by (simp add: pt_loads_def phase2_wf_def elf_wf_def list_all_iff)
  then have "0 \<le> p_offset ph" "0 \<le> p_filesz ph" "0 \<le> p_vaddr ph" "p_vaddr ph < 2 ^ 64" "p_offset ph < 2 ^ 64"
    by (simp_all add: phdr_ok_def)
  moreover have "ml_elf_offset l = p_offset ph" "ml_elf_filesz l = p_filesz ph" "ml_elf_vaddr l = p_vaddr ph"
    using ph(2) by (simp_all add: load_placed_def)
  ultimately show "0 \<le> ml_elf_offset l" "0 \<le> ml_elf_filesz l" "0 \<le> ml_elf_vaddr l"
    "ml_elf_vaddr l < 2 ^ 64" "ml_elf_offset l < 2 ^ 64"
    by simp_all
qed

subsection \<open>The copied segments\<close>

lemma load_regions_ordered:
  assumes "phase2_wf t"
  shows "regions_ordered (p2_page t) (map dst_region (map load_region (p2_loads t)))
    (int (length (zeros (loads_end (p2_page t) (p2_loads t)))))"
  using phase2_wf_placed[OF assms] phase2_wf_page_le[OF assms] phase2_wf_page[OF assms]
  by (simp add: p2.placed_def load_region_def comp_def)

lemma load_regions_in_file:
  "phase2_wf t \<Longrightarrow> loads_in_file t \<Longrightarrow> \<forall>r \<in> set (map load_region (p2_loads t)). region_in_file (edata (p2_elf t)) r"
  using phase2_wf_load by (auto simp: loads_in_file_def region_in_file_def load_region_def)

lemma length_copy_loads:
  assumes "phase2_wf t" and "loads_in_file t"
  shows "int (length (copy_loads t)) = loads_end (p2_page t) (p2_loads t)"
proof -
  have "\<forall>r \<in> set (map load_region (p2_loads t)). region_in_file (edata (p2_elf t)) r \<and> 0 \<le> fst r
      \<and> fst r + snd (snd r) \<le> int (length (zeros (loads_end (p2_page t) (p2_loads t))))"
    using load_regions_in_file[OF assms] p2.placed_bounds[OF phase2_wf_placed[OF assms(1)]]
      phase2_wf_page[OF assms(1)] phase2_wf_page_le[OF assms(1)]
    by (fastforce simp: load_region_def)
  from copy_regions_length[OF this] show ?thesis
    using phase2_wf_page[OF assms(1)] phase2_wf_page_le[OF assms(1)] by (simp add: copy_loads_def)
qed

lemma nth_copy_loads:
  assumes "phase2_wf t" and "loads_in_file t" and "l \<in> set (p2_loads t)"
    and "0 \<le> k" and "k < ml_elf_filesz l"
  shows "copy_loads t ! nat (ml_fileoff l + ml_delta l + k) = edata (p2_elf t) ! nat (ml_elf_offset l + k)"
  unfolding copy_loads_def
proof (rule copy_regions_content[OF load_regions_ordered[OF assms(1)]])
  show "0 \<le> p2_page t" using phase2_wf_page[OF assms(1)] by simp
  show "(ml_fileoff l + ml_delta l, ml_elf_offset l, ml_elf_filesz l) \<in> set (map load_region (p2_loads t))"
    using assms(3) by (force simp: load_region_def)
qed (use load_regions_in_file[OF assms(1,2)] assms in auto)

subsection \<open>The header page\<close>

lemma emit_header2_above:
  assumes "emit_header2 t nm v img = Inr img'" and "p2_page t \<le> int (length img)"
  shows "length img' = length img"
    and "p2_page t \<le> int k \<Longrightarrow> k < length img \<Longrightarrow> img' ! k = img ! k"
  using assms header_page_above by (auto simp: emit_header2_def result_iff)

lemma commands2_length: "commands2 t nm v = Inr cs \<Longrightarrow> length cs = length (p2_loads t) + 3"
  by (auto simp: commands2_def result_iff dest: mapM_r_length)

subsection \<open>The loop on the copied image\<close>

text \<open>A finished build, with the symbols and relocations it used.\<close>

lemma build2_run:
  assumes "phase2_wf t" and "build2 t nm v = Inr (img, st)"
  obtains syms rels where "dynamic_symbols (p2_elf t) = Inr syms" and "iter_relocations (p2_elf t) = Inr rels"
    and "run_effect (p2_loads t) (p2_slide t) syms rels
      \<lparr>s_image = copy_loads t, s_patched = no_patches, s_unresolved = []\<rparr> st"
    and "emit_header2 t nm v (s_image st) = Inr img"
proof -
  from assms(2) obtain syms rels where s: "dynamic_symbols (p2_elf t) = Inr syms"
    "iter_relocations (p2_elf t) = Inr rels" "emit_header2 t nm v (s_image st) = Inr img"
    and f: "foldM_r (reloc_step2 (p2_loads t) (p2_slide t) syms)
         \<lparr>s_image = copy_loads t, s_patched = no_patches, s_unresolved = []\<rparr> rels = Inr st"
    by (auto simp: build2_def relocate2_def result_iff)
  have "0 \<le> p2_page t" using phase2_wf_page[OF assms(1)] by simp
  from relocate2_effect[OF f phase2_wf_placed[OF assms(1)] this] show thesis using that s by blast
qed

lemma run_effect_patches:
  assumes "run_effect loads slide syms rels \<lparr>s_image = img0, s_patched = no_patches, s_unresolved = []\<rparr> st"
  shows "u64.patches img0 (reloc_patches (place2 loads) slide syms rels) = Inr (s_image st)"
    "r \<in> set rels \<Longrightarrow> known_reloc syms r"
    "r \<in> set rels \<Longrightarrow> vaddr_to_output_offset loads (rel_offset r) = Inr (place2 loads (rel_offset r))"
  using assms by (simp_all add: run_effect_def)

lemma patches_nonneg:
  assumes "p2.placed a loads b" and "0 \<le> a"
    and "\<And>r. r \<in> set rels \<Longrightarrow> vaddr_to_output_offset loads (rel_offset r) = Inr (place2 loads (rel_offset r))"
  shows "\<forall>p \<in> set (reloc_patches (place2 loads) slide syms rels). a \<le> fst p \<and> 0 \<le> fst p"
  using p2.locate_bounds(1)[OF assms(1) assms(3)] assms(2) by (fastforce simp: set_reloc_patches)

lemma run_effect_length:
  assumes "run_effect loads slide syms rels \<lparr>s_image = img0, s_patched = no_patches, s_unresolved = []\<rparr> st"
    and "p2.placed a loads b" and "0 \<le> a"
  shows "length (s_image st) = length img0"
  using u64.patches_msize[OF _ run_effect_patches(1)[OF assms(1)]]
    patches_nonneg[OF assms(2,3) run_effect_patches(3)[OF assms(1)]] by fastforce

subsection \<open>When the translation goes through\<close>

definition segment_packs :: "mapped_load \<Rightarrow> bool" where
  "segment_packs seg \<longleftrightarrow> item_ok (U64 (ml_vmaddr seg)) \<and> item_ok (U64 (ml_vmsize seg))
     \<and> item_ok (U64 (ml_fileoff seg)) \<and> item_ok (U64 (ml_filesize seg))
     \<and> item_ok (I32 (ml_maxprot seg)) \<and> item_ok (I32 (ml_initprot seg))
     \<and> list_all (\<lambda>c. c < 128) (ml_name seg)"

text \<open>Every relocation is of a known kind and its slot lies inside one segment of the file.\<close>

definition relocs_ready :: "mapped_load list \<Rightarrow> elf_symbol list \<Rightarrow> relocation list \<Rightarrow> bool" where
  "relocs_ready loads syms rels \<longleftrightarrow> (\<forall>r \<in> set rels. known_reloc syms r \<and> p2.slot_inside 8 loads (rel_offset r)
     \<and> (\<exists>p. vaddr_to_output_offset loads (rel_offset r) = Inr p))"

definition header_fits :: "phase2 \<Rightarrow> pystr \<Rightarrow> int \<times> int \<times> int \<Rightarrow> bool" where
  "header_fits t nm v \<longleftrightarrow> (case encode_utf8 nm of Inl _ \<Rightarrow> False
     | Inr enc \<Rightarrow> 32 + 72 * (int (length (p2_loads t)) + 1) + dylib_size enc + 24 \<le> p2_page t)
     \<and> p2_page t < 2 ^ 32 \<and> item_ok (U32 (encode_version v))
     \<and> segment_packs (header_segment t) \<and> list_all segment_packs (p2_loads t)"

lemma segment_command_ok:
  assumes "segment_packs seg"
  shows "\<exists>c. segment_command seg = Inr c \<and> length c = 72"
proof -
  obtain nm where nm: "name16 (ml_name seg) = Inr nm" "length nm = 16"
    using name16_ok[of "ml_name seg"] name16_length assms by (auto simp: segment_packs_def)
  let ?xs = "segment_items 72 nm (ml_vmaddr seg) (ml_vmsize seg) (ml_fileoff seg) (ml_filesize seg)
               (ml_maxprot seg) (ml_initprot seg) 0"
  have "\<forall>x \<in> set ?xs. item_ok x"
    using assms nm by (simp add: segment_items_def segment_packs_def LC_SEGMENT_64_def)
  then obtain c where "pack ?xs = Inr c" using pack_ok by blast
  then show ?thesis using nm pack_length[of ?xs c] by (simp add: segment_command_def)
qed

lemma commands2_ok:
  assumes "header_fits t nm v"
  shows "\<exists>cs. commands2 t nm v = Inr cs \<and> 32 + int (length (concat cs)) \<le> p2_page t"
proof -
  obtain enc where enc: "encode_utf8 nm = Inr enc"
    and fit: "32 + 72 * (int (length (p2_loads t)) + 1) + dylib_size enc + 24 \<le> p2_page t"
    using assms by (auto simp: header_fits_def split: sum.splits)
  obtain c0 where c0: "segment_command (header_segment t) = Inr c0" "length c0 = 72"
    using segment_command_ok assms by (auto simp: header_fits_def)
  obtain cs where cs: "mapM_r segment_command (p2_loads t) = Inr cs" "list_all (\<lambda>c. length c = 72) cs"
    using mapM_r_total_good[of "p2_loads t" segment_command "\<lambda>c. length c = 72"] segment_command_ok assms
    by (auto simp: header_fits_def list_all_iff)
  have "dylib_size enc < 2 ^ 32" using fit assms dylib_size_bounds(1)[of enc] by (simp add: header_fits_def)
  then obtain cid where cid: "dylib_command LC_ID_DYLIB nm = Inr cid" and lid: "int (length cid) = dylib_size enc"
    using dylib_command_ok[OF enc, of LC_ID_DYLIB] by (auto simp: LC_ID_DYLIB_def)
  have "item_ok (U32 (encode_version v))" using assms by (simp add: header_fits_def)
  from build_version_ok[OF this] obtain cv where cv: "build_version_command v = Inr cv" by blast
  have "length (concat cs) = 72 * length cs"
    using cs(2) by (induction cs) auto
  then have "32 + int (length (concat ([c0] @ cs @ [cid] @ [cv]))) \<le> p2_page t"
    using fit lid c0(2) build_version_command_length[OF cv] mapM_r_length[OF cs(1)] by simp
  then show ?thesis using c0 cs cid cv
    by (auto simp: commands2_def id_dylib_command_eq)
qed

lemma emit_header2_ok:
  assumes "header_fits t nm v"
  shows "\<exists>img'. emit_header2 t nm v img = Inr img'"
proof -
  obtain cs where cs: "commands2 t nm v = Inr cs" "32 + int (length (concat cs)) \<le> p2_page t"
    using commands2_ok[OF assms] by blast
  obtain enc where "32 + 72 * (int (length (p2_loads t)) + 1) + dylib_size enc + 24 \<le> p2_page t"
    using assms by (auto simp: header_fits_def split: sum.splits)
  then have "int (length cs) < 2 ^ 32"
    using assms dylib_size_bounds(1)[of enc] commands2_length[OF cs(1)] by (auto simp: header_fits_def)
  then show ?thesis
    using header_page_ok[OF cs(2)] cs(1) assms by (simp add: emit_header2_def header_fits_def)
qed

text \<open>One iteration goes through when the slot is inside the image.\<close>

lemma reloc_step2_progress:
  assumes "known_reloc syms r" and "vaddr_to_output_offset loads (rel_offset r) = Inr p"
    and "0 \<le> p" and "p + 8 \<le> int (length (s_image st))"
  shows "\<exists>st'. reloc_step2 loads slide syms st r = Inr st' \<and> length (s_image st') = length (s_image st)"
proof -
  have w: "\<exists>img. write_u64 (s_image st) p (mask64 v) = Inr img \<and> length img = length (s_image st)" for v
    using assms(3,4) mask64_range[of v] by (auto simp: write_u64_eq)
  obtain old where old: "read_u64 (s_image st) p = Inr old"
    using assms(3,4) by (auto simp: read_u64_eq)
  show ?thesis
  proof (cases "rel_type r = R_AARCH64_RELATIVE")
    case True
    then show ?thesis using assms(2) w[of "slide + rel_addend r"] by (auto simp: reloc_step2_def)
  next
    case False
    then have "rel_type r \<in> set symbol_relocs" "\<not> int (length syms) \<le> rel_sym r"
      using assms(1) by (auto simp: known_reloc_def)
    then show ?thesis
      using False assms(2) old w[of "slide + st_value (syms ! nat (rel_sym r)) + rel_addend r"]
        w[of "slide + st_value (syms ! nat (rel_sym r)) + rel_addend r + old"]
      by (auto simp: reloc_step2_def Let_def)
  qed
qed

lemma relocs_progress:
  assumes "p2.placed a loads b" and "0 \<le> a" and "int (length (s_image st)) = b" and "relocs_ready loads syms rels"
  shows "\<exists>st'. foldM_r (reloc_step2 loads slide syms) st rels = Inr st'"
  using assms(3,4)
proof (induction rels arbitrary: st)
  case Nil
  then show ?case by simp
next
  case (Cons r rels)
  obtain p where r: "known_reloc syms r" "p2.slot_inside 8 loads (rel_offset r)"
    "vaddr_to_output_offset loads (rel_offset r) = Inr p"
    using Cons.prems(2) by (auto simp: relocs_ready_def)
  have "0 \<le> p" "p + 8 \<le> int (length (s_image st))"
    using p2.locate_bounds(1)[OF assms(1) r(3)] p2.locate_slot_bounds[OF assms(1) r(3,2)]
      assms(2) Cons.prems(1) by auto
  from reloc_step2_progress[OF r(1,3) this] obtain st1
    where st1: "reloc_step2 loads slide syms st r = Inr st1" "length (s_image st1) = length (s_image st)"
    by blast
  have "\<exists>st'. foldM_r (reloc_step2 loads slide syms) st1 rels = Inr st'"
    by (rule Cons.IH) (use Cons.prems st1 in \<open>auto simp: relocs_ready_def\<close>)
  then show ?case using st1 by simp
qed

lemma build2_ok:
  assumes "phase2_wf t" and "loads_in_file t" and "header_fits t nm v"
    and "dynamic_symbols (p2_elf t) = Inr syms" and "iter_relocations (p2_elf t) = Inr rels"
    and "relocs_ready (p2_loads t) syms rels"
  shows "\<exists>img st. build2 t nm v = Inr (img, st)"
proof -
  have "0 \<le> p2_page t" using phase2_wf_page[OF assms(1)] by simp
  from relocs_progress[OF phase2_wf_placed[OF assms(1)] this, of
      "\<lparr>s_image = copy_loads t, s_patched = no_patches, s_unresolved = []\<rparr>" syms rels "p2_slide t"]
  obtain st where "foldM_r (reloc_step2 (p2_loads t) (p2_slide t) syms)
      \<lparr>s_image = copy_loads t, s_patched = no_patches, s_unresolved = []\<rparr> rels = Inr st"
    using length_copy_loads[OF assms(1,2)] assms(6) by auto
  moreover obtain img where "emit_header2 t nm v (s_image st) = Inr img"
    using emit_header2_ok[OF assms(3)] by blast
  ultimately show ?thesis using assms(4,5) by (simp add: build2_def relocate2_def)
qed

end
