(* ===== verification/Demo.thy ===== *)
theory Demo
  imports Phase2_Correct
begin

section \<open>A small shared object\<close>

text \<open>
  A file of 592 bytes that the witnesses of the development share: an AArch64 shared object with an
  executable segment at address 0, a writable one at \<open>0x210\<close>, three dynamic symbols (the null
  symbol, the defined \<open>inside\<close> and the imported \<open>malloc\<close>), and one relocation of each kind. The
  facts below are the values the model's functions have on it, by evaluation.
\<close>

definition demo_file :: bytes where
  "demo_file = [
     127, 69, 76, 70, 2, 1, 1, 0, 0, 0, 0, 0, 0, 0, 0, 0,
     3, 0, 183, 0, 1, 0, 0, 0, 16, 0, 0, 0, 0, 0, 0, 0,
     64, 0, 0, 0, 0, 0, 0, 0, 144, 1, 0, 0, 0, 0, 0, 0,
     0, 0, 0, 0, 64, 0, 56, 0, 2, 0, 64, 0, 3, 0, 1, 0,
     1, 0, 0, 0, 5, 0, 0, 0, 0, 0, 0, 0, 0, 0, 0, 0,
     0, 0, 0, 0, 0, 0, 0, 0, 0, 0, 0, 0, 0, 0, 0, 0,
     64, 0, 0, 0, 0, 0, 0, 0, 64, 0, 0, 0, 0, 0, 0, 0,
     0, 16, 0, 0, 0, 0, 0, 0, 1, 0, 0, 0, 6, 0, 0, 0,
     176, 0, 0, 0, 0, 0, 0, 0, 16, 2, 0, 0, 0, 0, 0, 0,
     16, 2, 0, 0, 0, 0, 0, 0, 40, 0, 0, 0, 0, 0, 0, 0,
     48, 0, 0, 0, 0, 0, 0, 0, 0, 16, 0, 0, 0, 0, 0, 0,
     0, 0, 0, 0, 0, 0, 0, 0, 0, 0, 0, 0, 0, 0, 0, 0,
     0, 0, 0, 0, 0, 0, 0, 0, 5, 0, 0, 0, 0, 0, 0, 0,
     136, 119, 102, 85, 68, 51, 34, 17, 0, 0, 0, 0, 0, 0, 0, 0,
     0, 0, 0, 0, 0, 0, 0, 0, 0, 0, 0, 0, 0, 0, 0, 0,
     1, 0, 0, 0, 18, 0, 1, 0, 16, 0, 0, 0, 0, 0, 0, 0,
     4, 0, 0, 0, 0, 0, 0, 0, 8, 0, 0, 0, 18, 0, 0, 0,
     0, 0, 0, 0, 0, 0, 0, 0, 0, 0, 0, 0, 0, 0, 0, 0,
     0, 105, 110, 115, 105, 100, 101, 0, 109, 97, 108, 108, 111, 99, 0, 0,
     16, 2, 0, 0, 0, 0, 0, 0, 3, 4, 0, 0, 0, 0, 0, 0,
     32, 0, 0, 0, 0, 0, 0, 0, 24, 2, 0, 0, 0, 0, 0, 0,
     1, 4, 0, 0, 1, 0, 0, 0, 0, 0, 0, 0, 0, 0, 0, 0,
     32, 2, 0, 0, 0, 0, 0, 0, 2, 4, 0, 0, 2, 0, 0, 0,
     0, 0, 0, 0, 0, 0, 0, 0, 40, 2, 0, 0, 0, 0, 0, 0,
     1, 1, 0, 0, 1, 0, 0, 0, 3, 0, 0, 0, 0, 0, 0, 0,
     0, 0, 0, 0, 11, 0, 0, 0, 0, 0, 0, 0, 0, 0, 0, 0,
     0, 0, 0, 0, 0, 0, 0, 0, 216, 0, 0, 0, 0, 0, 0, 0,
     72, 0, 0, 0, 0, 0, 0, 0, 1, 0, 0, 0, 0, 0, 0, 0,
     8, 0, 0, 0, 0, 0, 0, 0, 24, 0, 0, 0, 0, 0, 0, 0,
     0, 0, 0, 0, 3, 0, 0, 0, 0, 0, 0, 0, 0, 0, 0, 0,
     0, 0, 0, 0, 0, 0, 0, 0, 32, 1, 0, 0, 0, 0, 0, 0,
     16, 0, 0, 0, 0, 0, 0, 0, 0, 0, 0, 0, 0, 0, 0, 0,
     8, 0, 0, 0, 0, 0, 0, 0, 0, 0, 0, 0, 0, 0, 0, 0,
     0, 0, 0, 0, 4, 0, 0, 0, 0, 0, 0, 0, 0, 0, 0, 0,
     0, 0, 0, 0, 0, 0, 0, 0, 48, 1, 0, 0, 0, 0, 0, 0,
     96, 0, 0, 0, 0, 0, 0, 0, 0, 0, 0, 0, 0, 0, 0, 0,
     8, 0, 0, 0, 0, 0, 0, 0, 24, 0, 0, 0, 0, 0, 0, 0]"

definition demo_text :: program_header where
  "demo_text = \<lparr>p_type = 1, p_flags = 5, p_offset = 0, p_vaddr = 0, p_filesz = 64, p_memsz = 64, p_align = 4096\<rparr>"

definition demo_data :: program_header where
  "demo_data = \<lparr>p_type = 1, p_flags = 6, p_offset = 176, p_vaddr = 528, p_filesz = 40, p_memsz = 48, p_align = 4096\<rparr>"

definition demo_section :: "int \<Rightarrow> int \<Rightarrow> int \<Rightarrow> int \<Rightarrow> int \<Rightarrow> section_header" where
  "demo_section ty offset sz link entsize =
     \<lparr>sh_name_off = 0, sh_type = ty, sh_flags = 0, sh_addr = 0, sh_offset = offset, sh_size = sz,
      sh_link = link, sh_info = 0, sh_addralign = 8, sh_entsize = entsize, sh_name = []\<rparr>"

definition demo_header :: elf_header where
  "demo_header =
     \<lparr>e_type = 3, e_machine = 183, e_version = 1, e_entry = 16, e_phoff = 64, e_shoff = 400, e_flags = 0,
      e_ehsize = 64, e_phentsize = 56, e_phnum = 2, e_shentsize = 64, e_shnum = 3, e_shstrndx = 1\<rparr>"

definition demo_elf :: elf64 where
  "demo_elf =
     \<lparr>edata = demo_file, esource = [], ehdr = demo_header, program_headers = [demo_text, demo_data],
      sections = [demo_section 11 216 72 1 24, demo_section 3 288 16 0 0, demo_section 4 304 96 0 24]\<rparr>"

definition demo_symbol :: "pystr \<Rightarrow> int \<Rightarrow> int \<Rightarrow> int \<Rightarrow> int \<Rightarrow> elf_symbol" where
  "demo_symbol name info shndx val sz =
     \<lparr>sym_name = name, st_info = info, st_other = 0, st_shndx = shndx, st_value = val, st_size = sz\<rparr>"

definition demo_syms :: "elf_symbol list" where
  "demo_syms = [demo_symbol [] 0 0 0 0, demo_symbol (lit ''inside'') 18 1 16 4, demo_symbol (lit ''malloc'') 18 0 0 0]"

definition demo_reloc :: "int \<Rightarrow> int \<Rightarrow> int \<Rightarrow> int \<Rightarrow> relocation" where
  "demo_reloc offset ty idx addend = \<lparr>rel_offset = offset, rel_type = ty, rel_sym = idx, rel_addend = addend\<rparr>"

definition demo_rels :: "relocation list" where
  "demo_rels = [demo_reloc 528 1027 0 32, demo_reloc 536 1025 1 0, demo_reloc 544 1026 2 0, demo_reloc 552 257 1 3]"

lemma length_demo_file: "length demo_file = 592"
  by code_simp

lemma demo_parsed: "parse_elf demo_file [] = Inr demo_elf"
  by code_simp

lemma demo_wf: "elf_wf demo_elf"
  by (rule parse_elf_wf(1)[OF demo_parsed])

lemma demo_symbols: "dynamic_symbols demo_elf = Inr demo_syms"
  by code_simp

lemma demo_relocs: "iter_relocations demo_elf = Inr demo_rels"
  by code_simp

lemma demo_elf_simps [simp]:
  "edata demo_elf = demo_file" "program_headers demo_elf = [demo_text, demo_data]" "ehdr demo_elf = demo_header"
  by (simp_all add: demo_elf_def)

end
