(* ===== verification/Elf_Props.thy ===== *)
theory Elf_Props
  imports Relocs Demo
begin

section \<open>The properties of the ELF reader\<close>

text \<open>
  The theorems about \<open>elf.py\<close>: which files the parser accepts, the width of every field, the round trips of
  headers and strings, and what the table readers and the report return.
\<close>

subsection \<open>The parser\<close>

text \<open>
  C35. \<open>Elf64(data)\<close> accepts exactly the little-endian ELF64 files whose program and section header tables lie
  inside the file; a file with a bad identification is an \<open>ElfError\<close>. When the tables run past the end of the file,
  the first entry that does so, program headers before sections, decides the exception: an \<open>OverflowError\<close> when its
  offset is 2^63 or more, which does not fit in a C offset, and a \<open>struct.error\<close> otherwise.
\<close>

theorem parse_elf_accepts:
  "(\<exists>e. parse_elf d src = Inr e) = (header_valid d \<and> tables_fit (header_fields d) d)
   \<and> (parse_elf d src = Inl StructError)
       = (header_valid d \<and> (\<exists>off. first_past_end (header_fields d) d = Some off \<and> off < 2 ^ 63))
   \<and> (parse_elf d src = Inl OverflowError)
       = (header_valid d \<and> (\<exists>off. first_past_end (header_fields d) d = Some off \<and> 2 ^ 63 \<le> off))
   \<and> (\<exists>r. parse_elf d src = Inl (ElfError r)) = (\<not> header_valid d)
   \<and> tables_fit (header_fields d) d = (first_past_end (header_fields d) d = None)"
  using parse_elf_cases[of d src]
  by (cases "header_valid d"; cases "first_past_end (header_fields d) d") (auto simp: tables_fit_first out_of_range_def)

text \<open>
  C40. A parsed file keeps every field within the width of its format: the header is the sixty-four bytes at
  the start of the file, and every program and section header has fields of 32 and 64 bits.
\<close>

theorem parse_elf_widths:
  assumes "parse_elf d src = Inr e"
  shows "edata e = d \<and> ehdr e = header_fields d \<and> ehdr_ok (ehdr e)
    \<and> list_all phdr_ok (program_headers e) \<and> list_all shdr_ok (sections e)"
  using parse_elf_wf[OF assms] by (simp add: elf_wf_def)

lemma parse_elf_widths_witness:
  "edata demo_elf = demo_file \<and> ehdr demo_elf = header_fields demo_file \<and> ehdr_ok (ehdr demo_elf)
    \<and> list_all phdr_ok (program_headers demo_elf) \<and> list_all shdr_ok (sections demo_elf)"
  by (rule parse_elf_widths[OF demo_parsed])

text \<open>
  The errors of \<open>_parse_header\<close> in the order the code tests: too short or without the magic number, not
  64-bit, not little-endian; and otherwise the fields at their offsets.
\<close>

theorem parse_header_branches:
  "parse_header d =
     (if 64 \<le> length d \<and> take 4 d = elf_magic
      then (if d ! 4 \<noteq> 2 then Inl (ElfError Only_Elf64)
            else if d ! 5 \<noteq> 1 then Inl (ElfError Only_Little_Endian)
            else Inr (header_fields d))
      else Inl (ElfError Not_An_Elf_File))"
  by (auto simp: parse_header_result)

text \<open>
  An ELF header, a program header and a section header laid out by the formats of the code, anywhere in a
  file for the two table entries, are read back as they were.
\<close>

theorem headers_roundtrip:
  assumes "ehdr_ok h" and "length ident = 16" and "take 6 ident = elf_magic @ [2, 1]"
    and "pack (ehdr_items ident h) = Inr hb"
    and "phdr_ok ph" and "item_ok (U64 paddr)" and "pack (phdr_items paddr ph) = Inr pb"
    and "shdr_ok s" and "sh_name s = []" and "pack (shdr_items s) = Inr sb"
    and "d = hb @ gap @ pb @ gap' @ sb @ rest"
  shows "parse_header d = Inr h
    \<and> parse_program_header d (int (length hb + length gap)) = Inr ph
    \<and> parse_section_header d (int (length hb + length gap + length pb + length gap')) = Inr s"
  using parse_header_packed[OF assms(1-4), of d] parse_program_header_packed[OF assms(5-7), of d "hb @ gap" "gap' @ sb @ rest"]
    parse_section_header_packed[OF assms(8-10), of d "hb @ gap @ pb @ gap'" rest] assms(11)
  by (simp add: add.assoc)

lemma headers_roundtrip_witness:
  "\<exists>hb pb sb. parse_header (hb @ pb @ sb) = Inr demo_header
    \<and> parse_program_header (hb @ pb @ sb) (int (length hb)) = Inr demo_data
    \<and> parse_section_header (hb @ pb @ sb) (int (length hb + length pb)) = Inr (demo_section 11 216 72 1 24)"
proof -
  let ?ident = "elf_magic @ [2, 1] @ replicate 10 0"
  let ?s = "demo_section 11 216 72 1 24"
  have ok: "ehdr_ok demo_header" "phdr_ok demo_data" "shdr_ok ?s" "item_ok (U64 0)" "length ?ident = 16" "sh_name ?s = []"
    by (simp_all add: ehdr_ok_def demo_header_def phdr_ok_def demo_data_def shdr_ok_def demo_section_def elf_magic_def)
  obtain hb where hb: "pack (ehdr_items ?ident demo_header) = Inr hb"
    using pack_ok[of "ehdr_items ?ident demo_header"] ok by (auto simp: ehdr_items_def ehdr_ok_def)
  obtain pb where pb: "pack (phdr_items 0 demo_data) = Inr pb"
    using pack_ok[of "phdr_items 0 demo_data"] ok by (auto simp: phdr_items_def phdr_ok_def)
  obtain sb where sb: "pack (shdr_items ?s) = Inr sb"
    using pack_ok[of "shdr_items ?s"] ok by (auto simp: shdr_items_def shdr_ok_def)
  have t: "take 6 ?ident = elf_magic @ [2, 1]" by (simp add: elf_magic_def)
  from headers_roundtrip[OF ok(1) ok(5) t hb ok(2) ok(4) pb ok(3) ok(6) sb, of "hb @ pb @ sb" "[]" "[]" "[]"]
  show ?thesis by auto
qed

text \<open>
  A string of a string table is read back: any text without a NUL character (and without lone surrogates,
  which have no encoding), stored in UTF-8 with its terminating NUL, whatever surrounds it.
\<close>

theorem cstring_roundtrip:
  assumes "encode_utf8 s = Inr bs" and "0 \<notin> set s"
  shows "cstring (pre @ bs @ 0 # post) (int (length pre)) = s"
  using cstring_stored[OF assms refl] .

lemma cstring_roundtrip_witness: "cstring ([1, 2] @ [64, 114, 112, 97, 116, 104, 47, 120] @ 0 # [9]) (int 2) = lit ''@rpath/x''"
proof -
  have "encode_utf8 (lit ''@rpath/x'') = Inr [64, 114, 112, 97, 116, 104, 47, 120]"
    by (simp add: lit_simps encode_utf8_Cons is_scalar_def is_surrogate_def utf8_char_def)
  moreover have "0 \<notin> set (lit ''@rpath/x'')" by (simp add: lit_simps)
  ultimately show ?thesis using cstring_roundtrip[of "lit ''@rpath/x''" _ "[1, 2]" "[9]"] by simp
qed

subsection \<open>The tables\<close>

text \<open>
  C34. Reading a parsed file never raises, whatever its section headers say: the symbol table, the needed
  libraries, the relocation tables and the report all return, because every loop stops before the
  first entry that would run past the end of the file.
\<close>

theorem queries_total:
  assumes "parse_elf d src = Inr e"
  shows "\<exists>syms ns rs r. dynamic_symbols e = Inr syms \<and> needed_libraries e = Inr ns \<and> iter_relocations e = Inr rs
    \<and> report e = Inr r \<and> list_all symbol_ok syms \<and> list_all reloc_ok rs"
proof -
  note wf = parse_elf_wf(1)[OF assms]
  show ?thesis
    using dynamic_symbols_total[OF wf] needed_libraries_total[OF wf] iter_relocations_total[OF wf]
      report_total[OF wf] by blast
qed

lemma queries_total_witness:
  "\<exists>syms ns rs r. dynamic_symbols demo_elf = Inr syms \<and> needed_libraries demo_elf = Inr ns
    \<and> iter_relocations demo_elf = Inr rs \<and> report demo_elf = Inr r \<and> list_all symbol_ok syms \<and> list_all reloc_ok rs"
  by (rule queries_total[OF demo_parsed])

text \<open>
  C37. A table loop reads exactly the entries at multiples of the entry size inside the table, as far as they
  lie completely inside the file, in ascending order.
\<close>

theorem table_loop_entries:
  assumes "shdr_ok sec"
  shows "set (table_offsets e sec)
      = {x. \<exists>k \<ge> 0. x = sh_offset sec + k * entsize_or_24 sec \<and> x < sh_offset sec + sh_size sec
          \<and> x + 24 \<le> int (length (edata e))}
    \<and> sorted_wrt (<) (table_offsets e sec)"
  using set_entry_offsets[OF entsize_or_24_pos[OF assms]] entry_offsets_sorted
  by (auto simp: table_offsets_def)

lemma table_loop_entries_witness:
  "set (table_offsets demo_elf (demo_section 4 304 96 0 24))
      = {x. \<exists>k \<ge> 0. x = 304 + k * 24 \<and> x < 304 + 96 \<and> x + 24 \<le> 592}
    \<and> sorted_wrt (<) (table_offsets demo_elf (demo_section 4 304 96 0 24))"
proof -
  have ok: "shdr_ok (demo_section 4 304 96 0 24)" by (simp add: shdr_ok_def demo_section_def)
  have f: "sh_offset (demo_section 4 304 96 0 24) = 304" "sh_size (demo_section 4 304 96 0 24) = 96"
    "entsize_or_24 (demo_section 4 304 96 0 24) = 24"
    by (simp_all add: demo_section_def entsize_or_24_def)
  from table_loop_entries[OF ok, of demo_elf] show ?thesis
    unfolding f by (simp add: length_demo_file)
qed

text \<open>
  C38. \<open>undefined_symbols\<close> returns the distinct non-empty names of the undefined dynamic symbols, sorted; the
  Android-specific imports are those that start with one of the known prefixes, in the same order.
\<close>

theorem imports_exact:
  assumes "dynamic_symbols e = Inr syms"
  shows "\<exists>us as. undefined_symbols e = Inr us \<and> android_specific_imports e = Inr as
    \<and> set us = {n. n \<noteq> [] \<and> (\<exists>s \<in> set syms. st_shndx s = SHN_UNDEF \<and> sym_name s = n)}
    \<and> sorted us \<and> distinct us
    \<and> set as = {n \<in> set us. \<exists>p \<in> set android_import_prefixes. \<exists>r. n = p @ r} \<and> sorted as \<and> distinct as"
proof -
  obtain us where us: "undefined_symbols e = Inr us" using assms by (simp add: undefined_symbols_def)
  obtain as where as: "android_specific_imports e = Inr as" using us by (simp add: android_specific_imports_def)
  note u = undefined_symbols_spec[OF assms us] and a = android_specific_imports_spec[OF us as]
  have "set us = {n. n \<noteq> [] \<and> (\<exists>s \<in> set syms. st_shndx s = SHN_UNDEF \<and> sym_name s = n)}"
    unfolding u(3) by auto
  moreover have "distinct as" using u(2) as us by (auto simp: android_specific_imports_def intro: distinct_filter)
  ultimately show ?thesis using us as u(1,2) a(1) a(2)[OF u(1)] by blast
qed

lemma imports_exact_witness: "undefined_symbols demo_elf = Inr [lit ''malloc'']"
proof -
  from imports_exact[OF demo_symbols] obtain us where us: "undefined_symbols demo_elf = Inr us" "distinct us"
    and s: "set us = {n. n \<noteq> [] \<and> (\<exists>s \<in> set demo_syms. st_shndx s = SHN_UNDEF \<and> sym_name s = n)}" by blast
  have "lit ''malloc'' \<noteq> []" by (simp add: lit_def)
  then have "set us = {lit ''malloc''}"
    unfolding s by (auto simp: demo_syms_def demo_symbol_def SHN_UNDEF_def)
  then have "us = [lit ''malloc'']" using us(2) by (cases us rule: remdups_adj.cases) auto
  then show ?thesis using us(1) by simp
qed

text \<open>
  \<open>relocation_counts\<close> is the multiplicity of each relocation name over all \<open>SHT_RELA\<close> entries, one entry a
  name, sorted by name; the counts add up to the number of entries.
\<close>

theorem relocation_counts_exact:
  assumes "rela_entries e = Inr rs"
  shows "\<exists>cs. relocation_counts e = Inr cs
    \<and> map_of cs = (\<lambda>k. let n = length (filter (\<lambda>(_, info, _). reloc_name (info AND 0xFFFFFFFF) = k) rs)
                       in if n = 0 then None else Some (int n))
    \<and> sum_list (map snd cs) = int (length rs) \<and> sorted (map fst cs) \<and> distinct (map fst cs)"
proof -
  obtain cs where cs: "relocation_counts e = Inr cs" using assms by (simp add: relocation_counts_def)
  note c = relocation_counts_spec[OF assms cs]
  let ?f = "\<lambda>(_, info, _). reloc_name (info AND 0xFFFFFFFF)"
  have n: "count_list (map ?f rs) k = length (filter (\<lambda>(_, info, _). reloc_name (info AND 0xFFFFFFFF) = k) rs)" for k
    by (induction rs) (auto split: prod.splits)
  have "k \<in> set (map ?f rs) \<longleftrightarrow> count_list (map ?f rs) k \<noteq> 0" for k
    by (metis count_list_0_iff)
  then have "map_of cs = (\<lambda>k. let n = length (filter (\<lambda>(_, info, _). reloc_name (info AND 0xFFFFFFFF) = k) rs)
                       in if n = 0 then None else Some (int n))"
    by (intro ext) (simp add: c(1) Let_def flip: n)
  then show ?thesis using cs c(2-4) by blast
qed

lemma demo_relas: "rela_entries demo_elf = Inr [(528, 1027, 32), (536, 4294968321, 0), (544, 8589935618, 0), (552, 4294967553, 3)]"
  by code_simp

lemma relocation_counts_exact_witness:
  "\<exists>cs. relocation_counts demo_elf = Inr cs \<and> sum_list (map snd cs) = 4 \<and> sorted (map fst cs)"
  using relocation_counts_exact[OF demo_relas] by auto

text \<open>
  The report calls a file a candidate for the translation exactly when it is an AArch64 shared object
  all of whose relocations are of the four types \<open>ABS64\<close>, \<open>GLOB_DAT\<close>, \<open>JUMP_SLOT\<close> and \<open>RELATIVE\<close>.
\<close>

theorem report_candidate:
  assumes "report e = Inr r" and "iter_relocations e = Inr rels"
  shows "rep_phase1_candidate r = (e_machine (ehdr e) = EM_AARCH64 \<and> e_type (ehdr e) = ET_DYN
    \<and> rel_type ` set rels \<subseteq> {R_AARCH64_ABS64, R_AARCH64_GLOB_DAT, R_AARCH64_JUMP_SLOT, R_AARCH64_RELATIVE})"
proof -
  obtain rs where rs: "rela_entries e = Inr rs" "rels = map mk_relocation rs"
    using assms(2) by (cases "rela_entries e") (auto simp: iter_relocations_def)
  obtain cs where cs: "relocation_counts e = Inr cs"
    and r: "rep_phase1_candidate r = (e_machine (ehdr e) = EM_AARCH64 \<and> e_type (ehdr e) = ET_DYN
      \<and> filter (\<lambda>k. k \<notin> set (map snd aarch64_relocs)) (map fst cs) = [])"
    using assms(1) by (auto simp: report_def result_iff Let_def)
  note c = relocation_counts_spec[OF rs(1) cs]
  have keys: "set (map fst cs) = reloc_name ` rel_type ` set rels"
  proof -
    have "set (map fst cs) = dom (map_of cs)" by (simp add: dom_map_of_conv_image_fst)
    also have "\<dots> = set (map (\<lambda>(_, info, _). reloc_name (info AND 0xFFFFFFFF)) rs)"
      using c(1) by (auto simp: dom_def split: if_splits)
    also have "\<dots> = reloc_name ` rel_type ` set rels"
      by (auto simp: rs(2) mk_relocation_def image_image split: prod.splits) force+
    finally show ?thesis .
  qed
  have "filter (\<lambda>k. k \<notin> set (map snd aarch64_relocs)) (map fst cs) = []
      \<longleftrightarrow> set (map fst cs) \<subseteq> set (map snd aarch64_relocs)"
    by (auto simp: filter_empty_conv)
  also have "\<dots> \<longleftrightarrow> (\<forall>q \<in> set rels. reloc_name (rel_type q) \<in> set (map snd aarch64_relocs))"
    unfolding keys by blast
  also have "\<dots> \<longleftrightarrow> rel_type ` set rels \<subseteq> {257, 1025, 1026, 1027}"
    unfolding reloc_name_known by blast
  finally show ?thesis by (simp add: r reloc_consts)
qed

lemma report_candidate_witness: "\<exists>r. report demo_elf = Inr r \<and> rep_phase1_candidate r"
proof -
  obtain r where r: "report demo_elf = Inr r" using report_total[OF demo_wf] by blast
  from report_candidate[OF r demo_relocs] r show ?thesis
    by (simp add: demo_header_def elf_consts demo_rels_def demo_reloc_def reloc_consts)
qed

end
