(* ===== verification/Leb128.thy ===== *)
theory Leb128
  imports Py_Text Py_Struct
begin

section \<open>LEB128 and other self-delimiting encodings\<close>

text \<open>
  The variable-length integers of the dyld opcode streams and the export trie: \<open>_uleb128\<close> of
  \<open>phase3.py\<close> (its copy in \<open>phase4.py\<close> differs in the exception) and \<open>_sleb128\<close>. The locale
  \<open>prefix_codec\<close> is the contract of an encoding that a reader can take off the front of a byte
  sequence; the two integer encodings and the NUL-terminated names of the streams are instances.
\<close>

subsection \<open>The interface\<close>

locale prefix_codec =
  fixes enc :: "'a \<Rightarrow> bytes"
    and dec :: "bytes \<Rightarrow> ('a \<times> bytes) option"
    and ok :: "'a \<Rightarrow> bool"
  assumes dec_enc: "ok x \<Longrightarrow> dec (enc x @ rest) = Some (x, rest)"
    and dec_shorter: "dec bs = Some (x, rest) \<Longrightarrow> length rest < length bs"
begin

lemma dec_exact: "ok x \<Longrightarrow> dec (enc x) = Some (x, [])"
  using dec_enc[of x "[]"] by simp

lemma enc_nonempty: "ok x \<Longrightarrow> enc x \<noteq> []"
proof
  assume "ok x" and "enc x = []"
  then show False using dec_shorter[OF dec_exact[OF \<open>ok x\<close>]] by simp
qed

lemma enc_inj:
  assumes "ok x" and "ok y" and "enc x = enc y"
  shows "x = y"
proof -
  have "Some (x, []) = dec (enc x)" by (rule dec_exact[OF assms(1), symmetric])
  also have "\<dots> = Some (y, [])" unfolding assms(3) by (rule dec_exact[OF assms(2)])
  finally show ?thesis by simp
qed

text \<open>No encoding is a proper prefix of another one.\<close>

lemma enc_prefix_free:
  assumes "ok x" and "ok y" and "enc x @ r = enc y @ s"
  shows "x = y \<and> r = s"
proof -
  have "Some (x, r) = dec (enc x @ r)" by (rule dec_enc[OF assms(1), symmetric])
  also have "\<dots> = Some (y, s)" unfolding assms(3) by (rule dec_enc[OF assms(2)])
  finally show ?thesis by simp
qed

text \<open>A sequence of encodings has one reading.\<close>

lemma concat_enc_inj:
  assumes "list_all ok xs" and "list_all ok ys" and "concat (map enc xs) = concat (map enc ys)"
  shows "xs = ys"
  using assms
proof (induction xs arbitrary: ys)
  case Nil
  then show ?case using enc_nonempty by (cases ys) (auto simp del: append_is_Nil_conv)
next
  case (Cons x xs)
  then obtain y ys' where ys: "ys = y # ys'" using enc_nonempty[of x] by (cases ys) auto
  have "x = y \<and> concat (map enc xs) = concat (map enc ys')"
    by (rule enc_prefix_free) (use Cons.prems ys in simp_all)
  then show ?case using Cons ys by simp
qed

end

subsection \<open>Unsigned\<close>

function uleb_bytes :: "int \<Rightarrow> bytes" where
  "uleb_bytes v =
     (let byte = v AND 0x7F; v' = drop_bit 7 v
      in if 0 < v' then word_of_int (byte OR 0x80) # uleb_bytes v' else [word_of_int byte])"
  by pat_completeness auto
termination
  by (relation "measure nat") (auto simp: drop_bit_eq_div)

declare uleb_bytes.simps [simp del]

text \<open>\<open>_uleb128\<close> of \<open>phase3.py\<close>; the loop test \<open>if value\<close> is \<open>0 < v'\<close>, as \<open>value\<close> is not negative there.\<close>

definition uleb128 :: "int \<Rightarrow> bytes result" where
  "uleb128 v = (if v < 0 then Inl (Phase3Error Negative_Uleb128) else Inr (uleb_bytes v))"

text \<open>The reader: seven bits a byte, least significant first, the top bit set on all but the last.\<close>

fun read_uleb :: "bytes \<Rightarrow> (int \<times> bytes) option" where
  "read_uleb [] = None"
| "read_uleb (b # bs) =
     (if uint b < 128 then Some (uint b, bs)
      else map_option (\<lambda>(v, rest). (uint b - 128 + 128 * v, rest)) (read_uleb bs))"

lemma and_127_mod: "(v::int) AND 0x7F = v mod 128"
  using take_bit_eq_mask[of 7 v] by (simp add: take_bit_int_def mask_eq_exp_minus_1)

text \<open>Joining bits that do not overlap is addition.\<close>

lemma or_low_bits:
  assumes "0 \<le> v" and "v < 2 ^ n"
  shows "(v::int) OR (2 ^ n * k) = v + 2 ^ n * k"
proof -
  have v: "take_bit n v = v" using assms by (simp add: take_bit_int_eq_self)
  have "v AND push_bit n k = 0"
    by (subst v[symmetric]) (auto simp: bit_eq_iff bit_and_iff bit_take_bit_iff bit_push_bit_iff)
  then have "v OR push_bit n k = v + push_bit n k"
    using plus_and_or[of v "push_bit n k"] by simp
  then show ?thesis by (simp add: push_bit_eq_mult mult.commute)
qed

lemma or_128_add: "0 \<le> v \<Longrightarrow> v < 128 \<Longrightarrow> (v::int) OR 0x80 = v + 128"
  using or_low_bits[of v 7 1] by simp

lemma read_uleb_enc: "0 \<le> v \<Longrightarrow> read_uleb (uleb_bytes v @ rest) = Some (v, rest)"
proof (induction v rule: uleb_bytes.induct)
  case (1 v)
  have m: "v AND 0x7F = v mod 128" "0 \<le> v mod 128" "\<not> v mod 128 < 0" "v mod 128 < 128"
    by (simp_all add: and_127_mod not_less)
  have d: "drop_bit 7 v = v div 128" by (simp add: drop_bit_eq_div)
  have split: "v = v mod 128 + 128 * (v div 128)" by simp
  show ?case
  proof (cases "0 < v div 128")
    case True
    have "read_uleb (uleb_bytes (v div 128) @ rest) = Some (v div 128, rest)"
      using 1 True d by simp
    then show ?thesis
      using True split by (subst uleb_bytes.simps) (simp add: m d or_128_add uint_u8 Let_def not_less del: of_int_add)
  next
    case False
    then have "v div 128 = 0" using 1(2) by (simp add: not_less pos_imp_zdiv_nonneg_iff order_antisym)
    then have "v mod 128 = v" using split by linarith
    moreover have "v < 128" using calculation m(4) by linarith
    ultimately show ?thesis
      using False 1(2) by (subst uleb_bytes.simps) (simp add: m d uint_u8 Let_def)
  qed
qed

lemma read_uleb_shorter: "read_uleb bs = Some (v, rest) \<Longrightarrow> length rest < length bs"
  by (induction bs arbitrary: v rest rule: read_uleb.induct) (fastforce split: if_splits)+

lemma read_uleb_nonneg: "read_uleb bs = Some (v, rest) \<Longrightarrow> 0 \<le> v"
  by (induction bs arbitrary: v rest rule: read_uleb.induct) (fastforce split: if_splits)+

interpretation uleb: prefix_codec uleb_bytes read_uleb "\<lambda>v. 0 \<le> v"
  by unfold_locales (auto intro: read_uleb_enc read_uleb_shorter)

text \<open>The encoding has one byte for every seven bits of the value, at least one.\<close>

lemma length_uleb_bytes: "0 \<le> v \<Longrightarrow> 0 < k \<Longrightarrow> length (uleb_bytes v) \<le> k \<longleftrightarrow> v < 2 ^ (7 * k)"
proof (induction v arbitrary: k rule: uleb_bytes.induct)
  case (1 v)
  have d: "drop_bit 7 v = v div 128" by (simp add: drop_bit_eq_div)
  show ?case
  proof (cases "0 < v div 128")
    case False
    then have "v < 2 ^ 7" using 1(2) by (simp add: not_less pos_imp_zdiv_pos_iff)
    moreover have "(2::int) ^ 7 \<le> 2 ^ (7 * k)" using 1(3) by (intro power_increasing) auto
    ultimately have "v < 2 ^ (7 * k)" by linarith
    then show ?thesis using False 1(3) by (subst uleb_bytes.simps) (simp add: d Let_def)
  next
    case True
    have len: "length (uleb_bytes v) = Suc (length (uleb_bytes (v div 128)))"
      using True by (subst uleb_bytes.simps) (simp add: d Let_def)
    show ?thesis
    proof (cases "k = 1")
      case one: True
      have "\<not> v < 128" using True by (auto simp: div_pos_pos_trivial)
      moreover have "uleb_bytes (v div 128) \<noteq> []" using uleb.enc_nonempty True by simp
      ultimately show ?thesis by (simp add: one len)
    next
      case False
      then obtain j where j: "k = Suc j" "0 < j" using 1(3) by (cases k) auto
      have "length (uleb_bytes (v div 128)) \<le> j \<longleftrightarrow> v div 128 < 2 ^ (7 * j)"
        using 1(1)[OF refl refl] True d j(2) by simp
      also have "\<dots> \<longleftrightarrow> v < 2 ^ (7 * k)"
        by (simp add: j(1) power_add) linarith
      finally show ?thesis by (simp add: len j(1))
    qed
  qed
qed

subsection \<open>Signed\<close>

function sleb_bytes :: "int \<Rightarrow> bytes" where
  "sleb_bytes v =
     (let byte = v AND 0x7F; v' = drop_bit 7 v;
          finished = (v' = 0 \<and> byte AND 0x40 = 0) \<or> (v' = -1 \<and> byte AND 0x40 \<noteq> 0)
      in if finished then [word_of_int byte] else word_of_int (byte OR 0x80) # sleb_bytes v')"
  by pat_completeness auto
termination
proof (relation "measure (\<lambda>v. nat \<bar>v\<bar>)", goal_cases)
  case 1
  then show ?case by simp
next
  case (2 v byte v' finished)
  then have "v \<noteq> 0" "v \<noteq> -1" by auto
  moreover have "v = 128 * (v div 128) + v mod 128" "0 \<le> v mod 128" "v mod 128 < 128" by simp_all
  ultimately have "\<bar>v div 128\<bar> < \<bar>v\<bar>" by (smt (verit))
  then show ?case using 2 by (simp add: drop_bit_eq_div)
qed

declare sleb_bytes.simps [simp del]

fun read_sleb :: "bytes \<Rightarrow> (int \<times> bytes) option" where
  "read_sleb [] = None"
| "read_sleb (b # bs) =
     (if uint b < 128 then Some (if 64 \<le> uint b then uint b - 128 else uint b, bs)
      else map_option (\<lambda>(v, rest). (uint b - 128 + 128 * v, rest)) (read_sleb bs))"

lemma and_64_zero:
  assumes "0 \<le> b" and "b < 128"
  shows "(b::int) AND 0x40 = 0 \<longleftrightarrow> b < 64"
proof -
  have "b AND 2 ^ 6 = 0 \<longleftrightarrow> even (b div 64)"
    by (simp only: and_exp_eq_0_iff_not_bit) (simp add: bit_iff_odd)
  moreover have "b div 64 = (if b < 64 then 0 else 1)"
  proof (cases "b < 64")
    case True
    then show ?thesis using assms by (simp add: div_pos_pos_trivial)
  next
    case False
    have "b div 64 = (b - 64) div 64 + 1" using div_add_self2[of 64 "b - 64"] by simp
    then show ?thesis using False assms by (simp add: div_pos_pos_trivial)
  qed
  ultimately show ?thesis by (simp split: if_splits)
qed

lemma read_sleb_enc: "read_sleb (sleb_bytes v @ rest) = Some (v, rest)"
proof (induction v rule: sleb_bytes.induct)
  case (1 v)
  have m: "v AND 0x7F = v mod 128" "0 \<le> v mod 128" "\<not> v mod 128 < 0" "v mod 128 < 128"
    by (simp_all add: and_127_mod not_less)
  have d: "drop_bit 7 v = v div 128" by (simp add: drop_bit_eq_div)
  have split: "v = v mod 128 + 128 * (v div 128)" by simp
  define finished where "finished \<longleftrightarrow> (v div 128 = 0 \<and> v mod 128 < 64) \<or> (v div 128 = -1 \<and> 64 \<le> v mod 128)"
  have f: "((v div 128 = 0 \<and> (v mod 128) AND 0x40 = 0) \<or> (v div 128 = -1 \<and> (v mod 128) AND 0x40 \<noteq> 0)) = finished"
    using and_64_zero[OF m(2,4)] by (auto simp: finished_def)
  have enc: "sleb_bytes v = (if finished then [word_of_int (v mod 128)]
      else word_of_int (v mod 128 + 128) # sleb_bytes (v div 128))"
    by (subst sleb_bytes.simps) (simp only: Let_def m(1) d f or_128_add[OF m(2,4)])
  show ?case
  proof (cases finished)
    case True
    have "v = r + 128 * q \<Longrightarrow> q = 0 \<and> r < 64 \<or> q = -1 \<and> 64 \<le> r \<Longrightarrow> (if 64 \<le> r then r - 128 else r) = v" for r q
      by auto
    from this[OF split] have "(if 64 \<le> v mod 128 then v mod 128 - 128 else v mod 128) = v"
      using True unfolding finished_def by blast
    moreover have "uint (word_of_int (v mod 128) :: u8) = v mod 128" using m by (simp add: uint_u8)
    ultimately show ?thesis using True m(4) by (simp only: enc if_True append.simps read_sleb.simps)
  next
    case False
    have "read_sleb (sleb_bytes (v div 128) @ rest) = Some (v div 128, rest)"
      using 1[OF refl refl refl] False unfolding m(1) d f by blast
    moreover have "uint (word_of_int (v mod 128 + 128) :: u8) = v mod 128 + 128"
      using m by (simp add: uint_u8 del: of_int_add)
    ultimately show ?thesis using False m(3) split by (simp add: enc del: of_int_add)
  qed
qed

lemma read_sleb_shorter: "read_sleb bs = Some (v, rest) \<Longrightarrow> length rest < length bs"
  by (induction bs arbitrary: v rest rule: read_sleb.induct) (fastforce split: if_splits)+

interpretation sleb: prefix_codec sleb_bytes read_sleb "\<lambda>_. True"
  by unfold_locales (auto intro: read_sleb_enc read_sleb_shorter)

text \<open>A value of \<open>7 * n\<close> bits with its sign takes at most \<open>n\<close> bytes.\<close>

lemma length_sleb_bytes:
  "- (2 ^ (7 * k + 6)) \<le> v \<Longrightarrow> v < 2 ^ (7 * k + 6) \<Longrightarrow> length (sleb_bytes v) \<le> Suc k"
proof (induction v arbitrary: k rule: sleb_bytes.induct)
  case (1 v)
  have m: "v AND 0x7F = v mod 128" "0 \<le> v mod 128" "v mod 128 < 128" by (simp_all add: and_127_mod)
  have d: "drop_bit 7 v = v div 128" by (simp add: drop_bit_eq_div)
  have split: "v = 128 * (v div 128) + v mod 128" by simp
  define finished where "finished \<longleftrightarrow> (v div 128 = 0 \<and> v mod 128 < 64) \<or> (v div 128 = -1 \<and> 64 \<le> v mod 128)"
  have f: "((v div 128 = 0 \<and> (v mod 128) AND 0x40 = 0) \<or> (v div 128 = -1 \<and> (v mod 128) AND 0x40 \<noteq> 0)) = finished"
    using and_64_zero[OF m(2,3)] by (auto simp: finished_def)
  have len: "length (sleb_bytes v) = (if finished then 1 else Suc (length (sleb_bytes (v div 128))))"
    by (subst sleb_bytes.simps) (simp only: Let_def m(1) d f, simp)
  show ?case
  proof (cases finished)
    case False
    have "k \<noteq> 0"
    proof
      assume "k = 0"
      then have "- 64 \<le> v" "v < 64" using 1(2,3) by simp_all
      then show False using False split m(2,3) by (auto simp: finished_def)
    qed
    then obtain j where j: "k = Suc j" by (cases k) auto
    have "- (2 ^ (7 * j + 6)) \<le> v div 128" "v div 128 < 2 ^ (7 * j + 6)"
      using 1(2,3) by (simp_all add: j power_add)
    moreover have "\<not> (((drop_bit 7 v = 0 \<and> (v AND 0x7F) AND 0x40 = 0) \<or> (drop_bit 7 v = -1 \<and> (v AND 0x7F) AND 0x40 \<noteq> 0)))"
      using False f unfolding m(1) d by blast
    ultimately have "length (sleb_bytes (v div 128)) \<le> Suc j"
      using 1(1)[OF refl refl refl, of j] unfolding d by blast
    then show ?thesis using False by (simp add: len j)
  qed (simp add: len)
qed

subsection \<open>Names\<close>

text \<open>A name of a stream: its UTF-8 bytes and a NUL.\<close>

definition name_bytes :: "bytes \<Rightarrow> bytes" where
  "name_bytes nm = nm @ [0]"

fun read_name :: "bytes \<Rightarrow> (bytes \<times> bytes) option" where
  "read_name [] = None"
| "read_name (b # bs) = (if b = 0 then Some ([], bs) else map_option (apfst (Cons b)) (read_name bs))"

interpretation name: prefix_codec name_bytes read_name "\<lambda>nm. 0 \<notin> set nm"
proof (unfold_locales, goal_cases)
  case (1 x rest)
  then show ?case by (induction x) (auto simp: name_bytes_def)
next
  case (2 bs x rest)
  then show ?case
    by (induction bs arbitrary: x rest rule: read_name.induct) (fastforce split: if_splits)+
qed

end
