(* ===== verification/Fixups.thy ===== *)
theory Fixups
  imports Leb128
begin

section \<open>Rebase and bind opcode streams (\<open>phase3.py\<close>)\<close>

text \<open>
  \<open>_rebase_stream\<close> and \<open>_bind_stream\<close> write the programs that dyld runs to fix up an image, and two
  machines run such programs the way the Mach-O format documents the opcodes: each opcode sets a
  register, \<open>DO_REBASE\<close> and \<open>DO_BIND\<close> use the registers and advance the address by one pointer, and a
  register keeps its value until it is set again.
\<close>

definition REBASE_TYPE_POINTER :: int where "REBASE_TYPE_POINTER = 1"
definition REBASE_OPCODE_DONE :: int where "REBASE_OPCODE_DONE = 0x00"
definition REBASE_OPCODE_SET_TYPE_IMM :: int where "REBASE_OPCODE_SET_TYPE_IMM = 0x10"
definition REBASE_OPCODE_SET_SEGMENT_AND_OFFSET_ULEB :: int where
  "REBASE_OPCODE_SET_SEGMENT_AND_OFFSET_ULEB = 0x20"
definition REBASE_OPCODE_DO_REBASE_IMM_TIMES :: int where "REBASE_OPCODE_DO_REBASE_IMM_TIMES = 0x50"
definition BIND_TYPE_POINTER :: int where "BIND_TYPE_POINTER = 1"
definition BIND_OPCODE_DONE :: int where "BIND_OPCODE_DONE = 0x00"
definition BIND_OPCODE_SET_DYLIB_ORDINAL_IMM :: int where "BIND_OPCODE_SET_DYLIB_ORDINAL_IMM = 0x10"
definition BIND_OPCODE_SET_SYMBOL_TRAILING_FLAGS_IMM :: int where
  "BIND_OPCODE_SET_SYMBOL_TRAILING_FLAGS_IMM = 0x40"
definition BIND_OPCODE_SET_TYPE_IMM :: int where "BIND_OPCODE_SET_TYPE_IMM = 0x50"
definition BIND_OPCODE_SET_ADDEND_SLEB :: int where "BIND_OPCODE_SET_ADDEND_SLEB = 0x60"
definition BIND_OPCODE_SET_SEGMENT_AND_OFFSET_ULEB :: int where
  "BIND_OPCODE_SET_SEGMENT_AND_OFFSET_ULEB = 0x70"
definition BIND_OPCODE_DO_BIND :: int where "BIND_OPCODE_DO_BIND = 0x90"

lemmas rebase_opcodes =
  REBASE_TYPE_POINTER_def REBASE_OPCODE_DONE_def REBASE_OPCODE_SET_TYPE_IMM_def
  REBASE_OPCODE_SET_SEGMENT_AND_OFFSET_ULEB_def REBASE_OPCODE_DO_REBASE_IMM_TIMES_def

lemmas bind_opcodes =
  BIND_TYPE_POINTER_def BIND_OPCODE_DONE_def BIND_OPCODE_SET_DYLIB_ORDINAL_IMM_def
  BIND_OPCODE_SET_SYMBOL_TRAILING_FLAGS_IMM_def BIND_OPCODE_SET_TYPE_IMM_def
  BIND_OPCODE_SET_ADDEND_SLEB_def BIND_OPCODE_SET_SEGMENT_AND_OFFSET_ULEB_def BIND_OPCODE_DO_BIND_def

text \<open>The byte \<open>OPCODE | imm\<close>.\<close>

definition opcode :: "int \<Rightarrow> int \<Rightarrow> u8" where
  "opcode op imm = word_of_int (op OR imm)"

lemma uint_opcode:
  assumes "0 \<le> k" "k < 16" "0 \<le> q" "q < 16"
  shows "uint (opcode (16 * q) k) = 16 * q + k"
proof -
  have "16 * q OR k = k + 16 * q" using or_low_bits[of k 4 q] assms by (simp add: or.commute)
  then show ?thesis using assms by (simp add: opcode_def uint_u8 del: of_int_add of_int_mult)
qed

lemma opcode_nibbles:
  assumes "0 \<le> k" "k < 16" "0 \<le> q" "q < 16"
  shows "uint (opcode (16 * q) k) div 16 = q" "uint (opcode (16 * q) k) mod 16 = k"
  using assms by (simp_all add: uint_opcode)

subsection \<open>The streams\<close>

definition rebase_entry :: "int \<times> int \<Rightarrow> bytes result" where
  "rebase_entry loc =
     (case loc of (segment_index, segment_offset) \<Rightarrow>
        if segment_index > 15 then Inl (Phase3Error Segment_Index_Too_Large)
        else rbind (uleb128 segment_offset) (\<lambda>u.
               Inr ([opcode REBASE_OPCODE_SET_SEGMENT_AND_OFFSET_ULEB segment_index] @ u
                    @ [opcode REBASE_OPCODE_DO_REBASE_IMM_TIMES 1])))"

definition rebase_stream :: "(int \<times> int) list \<Rightarrow> bytes result" where
  "rebase_stream locations =
     rmap (\<lambda>es. [opcode REBASE_OPCODE_SET_TYPE_IMM REBASE_TYPE_POINTER] @ concat es
                @ [word_of_int REBASE_OPCODE_DONE])
       (mapM_r rebase_entry (sort locations))"

record binding =
  b_offset :: int
  b_type :: int
  b_symbol :: pystr
  b_shim_symbol :: pystr
  b_symbol_type :: int
  b_segment_index :: int
  b_segment_offset :: int
  b_addend :: int

definition bind_entry :: "binding \<Rightarrow> bytes result" where
  "bind_entry item =
     (if b_segment_index item > 15 then Inl (Phase3Error Segment_Index_Too_Large)
      else rbind (encode_utf8 (b_shim_symbol item)) (\<lambda>nm.
           rbind (uleb128 (b_segment_offset item)) (\<lambda>u.
             Inr ([word_of_int BIND_OPCODE_SET_SYMBOL_TRAILING_FLAGS_IMM] @ nm @ [0]
                  @ (if b_addend item \<noteq> 0
                     then [word_of_int BIND_OPCODE_SET_ADDEND_SLEB] @ sleb_bytes (b_addend item) else [])
                  @ [opcode BIND_OPCODE_SET_SEGMENT_AND_OFFSET_ULEB (b_segment_index item)] @ u
                  @ [word_of_int BIND_OPCODE_DO_BIND]))))"

definition bind_key :: "binding \<Rightarrow> int \<times> int" where
  "bind_key item = (b_segment_index item, b_segment_offset item)"

definition bind_stream :: "binding list \<Rightarrow> int \<Rightarrow> bytes result" where
  "bind_stream bindings shim_ordinal =
     (if \<not> (1 \<le> shim_ordinal \<and> shim_ordinal \<le> 15) then Inl (Phase3Error Bad_Dylib_Ordinal)
      else rmap (\<lambda>es. [opcode BIND_OPCODE_SET_DYLIB_ORDINAL_IMM shim_ordinal,
                       opcode BIND_OPCODE_SET_TYPE_IMM BIND_TYPE_POINTER] @ concat es
                      @ [word_of_int BIND_OPCODE_DONE])
             (mapM_r bind_entry (sort_key bind_key bindings)))"

subsection \<open>The rebase machine\<close>

datatype rebase_op = R_Done | R_Type int | R_Segment int int | R_Times int

fun read_rebase_op :: "bytes \<Rightarrow> (rebase_op \<times> bytes) option" where
  "read_rebase_op [] = None"
| "read_rebase_op (b # bs) =
     (let op = uint b div 16; imm = uint b mod 16
      in if op = 0 then Some (R_Done, bs)
         else if op = 1 then Some (R_Type imm, bs)
         else if op = 2 then map_option (\<lambda>(v, rest). (R_Segment imm v, rest)) (read_uleb bs)
         else if op = 5 then Some (R_Times imm, bs)
         else None)"

lemma read_rebase_op_shorter:
  "read_rebase_op bs = Some (op, rest) \<Longrightarrow> length rest < length bs"
  by (cases bs) (auto simp: Let_def split: if_splits dest: read_uleb_shorter)

text \<open>The pointers a program rebases: type, segment and offset in it.\<close>

function run_rebase :: "int \<Rightarrow> int \<Rightarrow> int \<Rightarrow> bytes \<Rightarrow> (int \<times> int \<times> int) list option" where
  "run_rebase ty seg off bs =
     (case read_rebase_op bs of
        None \<Rightarrow> None
      | Some (R_Done, rest) \<Rightarrow> Some []
      | Some (R_Type t, rest) \<Rightarrow> run_rebase t seg off rest
      | Some (R_Segment s v, rest) \<Rightarrow> run_rebase ty s v rest
      | Some (R_Times n, rest) \<Rightarrow>
          map_option ((@) (map (\<lambda>i. (ty, seg, off + 8 * i)) [0 .. n - 1]))
            (run_rebase ty seg (off + 8 * n) rest))"
  by pat_completeness auto
termination
  by (relation "measure (\<lambda>(_, _, _, bs). length bs)") (auto dest: read_rebase_op_shorter)

declare run_rebase.simps [simp del]

lemma read_rebase_opcode:
  assumes "0 \<le> k" "k < 16"
  shows "read_rebase_op (opcode REBASE_OPCODE_SET_TYPE_IMM k # bs) = Some (R_Type k, bs)"
    and "0 \<le> v \<Longrightarrow> read_rebase_op (opcode REBASE_OPCODE_SET_SEGMENT_AND_OFFSET_ULEB k # uleb_bytes v @ bs)
      = Some (R_Segment k v, bs)"
    and "read_rebase_op (opcode REBASE_OPCODE_DO_REBASE_IMM_TIMES k # bs) = Some (R_Times k, bs)"
  using opcode_nibbles[OF assms, of 1] opcode_nibbles[OF assms, of 2] opcode_nibbles[OF assms, of 5]
  by (simp_all add: Let_def rebase_opcodes read_uleb_enc)

lemma run_rebase_entry:
  assumes "rebase_entry (seg, off) = Inr e" and "0 \<le> seg"
  shows "run_rebase ty s v (e @ rest) = map_option (Cons (ty, seg, off)) (run_rebase ty seg (off + 8) rest)"
proof -
  have "seg \<le> 15" "0 \<le> off" and e: "e = [opcode REBASE_OPCODE_SET_SEGMENT_AND_OFFSET_ULEB seg] @ uleb_bytes off
      @ [opcode REBASE_OPCODE_DO_REBASE_IMM_TIMES 1]"
    using assms(1) by (auto simp: rebase_entry_def uleb128_def result_iff split: if_splits)
  then have r: "read_rebase_op (e @ rest) = Some (R_Segment seg off, opcode REBASE_OPCODE_DO_REBASE_IMM_TIMES 1 # rest)"
    using read_rebase_opcode(2)[of seg off "opcode REBASE_OPCODE_DO_REBASE_IMM_TIMES 1 # rest"] assms(2) by simp
  have "run_rebase ty s v (e @ rest) = run_rebase ty seg off (opcode REBASE_OPCODE_DO_REBASE_IMM_TIMES 1 # rest)"
    by (subst run_rebase.simps) (simp add: r)
  also have "\<dots> = map_option (Cons (ty, seg, off)) (run_rebase ty seg (off + 8) rest)"
    by (subst run_rebase.simps) (cases "run_rebase ty seg (off + 8) rest";
      simp add: read_rebase_opcode(3)[of 1] del: read_rebase_op.simps)
  finally show ?thesis .
qed

text \<open>Running the stream of a list of locations rebases exactly those locations, in ascending order.\<close>

lemma run_rebase_entries:
  assumes "mapM_r rebase_entry locs = Inr es" and "\<forall>loc \<in> set locs. 0 \<le> fst loc"
  shows "run_rebase ty s v (concat es @ word_of_int REBASE_OPCODE_DONE # rest)
    = Some (map (\<lambda>(seg, off). (ty, seg, off)) locs)"
  using assms
proof (induction locs arbitrary: es s v)
  case Nil
  then show ?case by (subst run_rebase.simps) (simp add: REBASE_OPCODE_DONE_def)
next
  case (Cons loc locs)
  obtain seg off where loc: "loc = (seg, off)" by (cases loc)
  obtain e es' where "rebase_entry (seg, off) = Inr e" "mapM_r rebase_entry locs = Inr es'" "es = e # es'"
    using Cons.prems(1) loc by (auto simp: result_iff)
  then show ?case using Cons loc run_rebase_entry[of seg off e] by simp
qed

lemma rebase_stream_run:
  assumes "rebase_stream locs = Inr s" and "\<forall>loc \<in> set locs. 0 \<le> fst loc"
  shows "run_rebase t0 s0 v0 (s @ rest) = Some (map (\<lambda>(seg, off). (REBASE_TYPE_POINTER, seg, off)) (sort locs))"
proof -
  obtain es where es: "mapM_r rebase_entry (sort locs) = Inr es"
    and s: "s = [opcode REBASE_OPCODE_SET_TYPE_IMM REBASE_TYPE_POINTER] @ concat es @ [word_of_int REBASE_OPCODE_DONE]"
    using assms(1) by (auto simp: rebase_stream_def result_iff)
  have "read_rebase_op (s @ rest) = Some (R_Type 1, concat es @ word_of_int REBASE_OPCODE_DONE # rest)"
    using read_rebase_opcode(1)[of 1] by (simp add: s REBASE_TYPE_POINTER_def)
  then have "run_rebase t0 s0 v0 (s @ rest) = run_rebase 1 s0 v0 (concat es @ word_of_int REBASE_OPCODE_DONE # rest)"
    by (subst run_rebase.simps) simp
  then show ?thesis
    using run_rebase_entries[OF es] assms(2) by (simp add: REBASE_TYPE_POINTER_def)
qed

text \<open>When the stream is written.\<close>

lemma mapM_r_defined: "(\<exists>ys. mapM_r f xs = Inr ys) \<longleftrightarrow> (\<forall>x \<in> set xs. \<exists>y. f x = Inr y)"
proof (induction xs)
  case (Cons x xs)
  then show ?case by (cases "f x"; cases "mapM_r f xs") auto
qed simp

lemma rebase_stream_ok:
  "(\<exists>s. rebase_stream locs = Inr s) \<longleftrightarrow> (\<forall>loc \<in> set locs. fst loc \<le> 15 \<and> 0 \<le> snd loc)"
proof -
  have "(\<exists>e. rebase_entry loc = Inr e) \<longleftrightarrow> fst loc \<le> 15 \<and> 0 \<le> snd loc" for loc
    by (cases loc) (auto simp: rebase_entry_def uleb128_def)
  then show ?thesis by (simp add: rebase_stream_def result_iff mapM_r_defined)
qed

subsection \<open>The bind machine\<close>

datatype bind_op = B_Done | B_Ordinal int | B_Symbol bytes | B_Type int | B_Addend int | B_Segment int int | B_Do

fun read_bind_op :: "bytes \<Rightarrow> (bind_op \<times> bytes) option" where
  "read_bind_op [] = None"
| "read_bind_op (b # bs) =
     (let op = uint b div 16; imm = uint b mod 16
      in if op = 0 then Some (B_Done, bs)
         else if op = 1 then Some (B_Ordinal imm, bs)
         else if op = 4 then map_option (\<lambda>(nm, rest). (B_Symbol nm, rest)) (read_name bs)
         else if op = 5 then Some (B_Type imm, bs)
         else if op = 6 then map_option (\<lambda>(v, rest). (B_Addend v, rest)) (read_sleb bs)
         else if op = 7 then map_option (\<lambda>(v, rest). (B_Segment imm v, rest)) (read_uleb bs)
         else if op = 9 then Some (B_Do, bs)
         else None)"

lemma read_bind_op_shorter: "read_bind_op bs = Some (op, rest) \<Longrightarrow> length rest < length bs"
  by (cases bs) (auto simp: Let_def split: if_splits
      dest: read_uleb_shorter read_sleb_shorter name.dec_shorter)

text \<open>The registers, and a bound pointer: ordinal, symbol, type, addend, segment and offset.\<close>

record bind_regs =
  g_ordinal :: int
  g_symbol :: bytes
  g_type :: int
  g_addend :: int
  g_segment :: int
  g_offset :: int

type_synonym bound = "int \<times> bytes \<times> int \<times> int \<times> int \<times> int"

definition bind_start :: bind_regs where
  "bind_start = \<lparr>g_ordinal = 0, g_symbol = [], g_type = 0, g_addend = 0, g_segment = 0, g_offset = 0\<rparr>"

definition bound_of :: "bind_regs \<Rightarrow> bound" where
  "bound_of g = (g_ordinal g, g_symbol g, g_type g, g_addend g, g_segment g, g_offset g)"

function run_bind :: "bind_regs \<Rightarrow> bytes \<Rightarrow> bound list option" where
  "run_bind g bs =
     (case read_bind_op bs of
        None \<Rightarrow> None
      | Some (B_Done, rest) \<Rightarrow> Some []
      | Some (B_Ordinal n, rest) \<Rightarrow> run_bind (g\<lparr>g_ordinal := n\<rparr>) rest
      | Some (B_Symbol nm, rest) \<Rightarrow> run_bind (g\<lparr>g_symbol := nm\<rparr>) rest
      | Some (B_Type n, rest) \<Rightarrow> run_bind (g\<lparr>g_type := n\<rparr>) rest
      | Some (B_Addend v, rest) \<Rightarrow> run_bind (g\<lparr>g_addend := v\<rparr>) rest
      | Some (B_Segment s v, rest) \<Rightarrow> run_bind (g\<lparr>g_segment := s, g_offset := v\<rparr>) rest
      | Some (B_Do, rest) \<Rightarrow>
          map_option (Cons (bound_of g)) (run_bind (g\<lparr>g_offset := g_offset g + 8\<rparr>) rest))"
  by pat_completeness auto
termination
  by (relation "measure (\<lambda>(_, bs). length bs)") (auto dest: read_bind_op_shorter)

declare run_bind.simps [simp del]

lemma read_bind_opcode:
  assumes "0 \<le> k" "k < 16"
  shows "read_bind_op (opcode BIND_OPCODE_SET_DYLIB_ORDINAL_IMM k # bs) = Some (B_Ordinal k, bs)"
    and "read_bind_op (opcode BIND_OPCODE_SET_TYPE_IMM k # bs) = Some (B_Type k, bs)"
    and "0 \<le> v \<Longrightarrow> read_bind_op (opcode BIND_OPCODE_SET_SEGMENT_AND_OFFSET_ULEB k # uleb_bytes v @ bs)
      = Some (B_Segment k v, bs)"
    and "0 \<notin> set nm \<Longrightarrow> read_bind_op (word_of_int BIND_OPCODE_SET_SYMBOL_TRAILING_FLAGS_IMM # nm @ 0 # bs)
      = Some (B_Symbol nm, bs)"
    and "read_bind_op (word_of_int BIND_OPCODE_SET_ADDEND_SLEB # sleb_bytes w @ bs) = Some (B_Addend w, bs)"
    and "read_bind_op (word_of_int BIND_OPCODE_DO_BIND # bs) = Some (B_Do, bs)"
    and "read_bind_op (word_of_int BIND_OPCODE_DONE # bs) = Some (B_Done, bs)"
  using opcode_nibbles[OF assms, of 1] opcode_nibbles[OF assms, of 5] opcode_nibbles[OF assms, of 7]
    name.dec_enc[of nm bs]
  by (simp_all add: Let_def bind_opcodes read_uleb_enc read_sleb_enc name_bytes_def)

text \<open>What an entry asks for, and what the registers make of a list of entries.\<close>

definition shim_bytes :: "binding \<Rightarrow> bytes" where
  "shim_bytes item = (case encode_utf8 (b_shim_symbol item) of Inr nm \<Rightarrow> nm | Inl _ \<Rightarrow> [])"

definition intended :: "int \<Rightarrow> binding \<Rightarrow> bound" where
  "intended ord item = (ord, shim_bytes item, BIND_TYPE_POINTER, b_addend item, b_segment_index item, b_segment_offset item)"

fun bound_as :: "int \<Rightarrow> int \<Rightarrow> binding list \<Rightarrow> bound list" where
  "bound_as ord a [] = []"
| "bound_as ord a (item # items) =
     (let a' = (if b_addend item \<noteq> 0 then b_addend item else a)
      in (ord, shim_bytes item, BIND_TYPE_POINTER, a', b_segment_index item, b_segment_offset item)
         # bound_as ord a' items)"

lemma run_bind_entry:
  assumes "bind_entry item = Inr e" and "0 \<le> b_segment_index item" and "0 \<notin> set (b_shim_symbol item)"
    and "g_type g = BIND_TYPE_POINTER"
  defines "a \<equiv> if b_addend item \<noteq> 0 then b_addend item else g_addend g"
  shows "run_bind g (e @ rest)
    = map_option (Cons (g_ordinal g, shim_bytes item, BIND_TYPE_POINTER, a, b_segment_index item, b_segment_offset item))
        (run_bind (g\<lparr>g_symbol := shim_bytes item, g_addend := a, g_segment := b_segment_index item,
                     g_offset := b_segment_offset item + 8\<rparr>) rest)"
proof -
  let ?seg = "b_segment_index item" and ?off = "b_segment_offset item" and ?w = "b_addend item"
  obtain nm where nm: "encode_utf8 (b_shim_symbol item) = Inr nm" "?seg \<le> 15" "0 \<le> ?off"
    and e: "e = [word_of_int BIND_OPCODE_SET_SYMBOL_TRAILING_FLAGS_IMM] @ nm @ [0]
      @ (if ?w \<noteq> 0 then [word_of_int BIND_OPCODE_SET_ADDEND_SLEB] @ sleb_bytes ?w else [])
      @ [opcode BIND_OPCODE_SET_SEGMENT_AND_OFFSET_ULEB ?seg] @ uleb_bytes ?off @ [word_of_int BIND_OPCODE_DO_BIND]"
    using assms(1) by (auto simp: bind_entry_def uleb128_def result_iff split: if_splits)
  have s: "shim_bytes item = nm" by (simp add: shim_bytes_def nm)
  have "0 \<notin> set nm" by (rule encode_utf8_nonzero[OF nm(1) assms(3)])
  note rd = read_bind_opcode(3,4,6)[of ?seg] read_bind_opcode(4)[of 0, OF _ _ this] read_bind_opcode(5,6)[of 0]
  let ?tail = "[opcode BIND_OPCODE_SET_SEGMENT_AND_OFFSET_ULEB ?seg] @ uleb_bytes ?off @ [word_of_int BIND_OPCODE_DO_BIND] @ rest"
  have "run_bind g (e @ rest) = run_bind (g\<lparr>g_symbol := nm\<rparr>)
      ((if ?w \<noteq> 0 then [word_of_int BIND_OPCODE_SET_ADDEND_SLEB] @ sleb_bytes ?w else []) @ ?tail)"
    by (subst run_bind.simps) (simp add: e rd del: read_bind_op.simps)
  also have "\<dots> = run_bind (g\<lparr>g_symbol := nm, g_addend := a\<rparr>) ?tail"
  proof (cases "?w = 0")
    case False
    then show ?thesis by (subst run_bind.simps) (simp add: a_def rd del: read_bind_op.simps)
  qed (simp add: a_def)
  also have "\<dots> = run_bind (g\<lparr>g_symbol := nm, g_addend := a, g_segment := ?seg, g_offset := ?off\<rparr>)
      ([word_of_int BIND_OPCODE_DO_BIND] @ rest)"
    by (subst run_bind.simps) (use nm assms(2) in \<open>simp add: rd del: read_bind_op.simps\<close>)
  also have "\<dots> = map_option (Cons (g_ordinal g, nm, BIND_TYPE_POINTER, a, ?seg, ?off))
      (run_bind (g\<lparr>g_symbol := nm, g_addend := a, g_segment := ?seg, g_offset := ?off + 8\<rparr>) rest)"
    by (subst run_bind.simps) (use assms(4) in \<open>simp add: rd bound_of_def del: read_bind_op.simps\<close>)
  finally show ?thesis unfolding s .
qed

lemma run_bind_entries:
  assumes "mapM_r bind_entry items = Inr es" and "g_type g = BIND_TYPE_POINTER"
    and "\<forall>item \<in> set items. 0 \<le> b_segment_index item \<and> 0 \<notin> set (b_shim_symbol item)"
  shows "run_bind g (concat es @ word_of_int BIND_OPCODE_DONE # rest)
    = Some (bound_as (g_ordinal g) (g_addend g) items)"
  using assms
proof (induction items arbitrary: es g)
  case Nil
  then show ?case
    by (subst run_bind.simps) (simp add: read_bind_opcode(7)[of 0] del: read_bind_op.simps)
next
  case (Cons item items)
  obtain e es' where e: "bind_entry item = Inr e" "mapM_r bind_entry items = Inr es'" "es = e # es'"
    using Cons.prems(1) by (auto simp: result_iff)
  then show ?case
    using Cons run_bind_entry[OF e(1), of g] by (simp add: Let_def)
qed

text \<open>What dyld binds when it runs the stream.\<close>

lemma bind_stream_run:
  assumes "bind_stream items ord = Inr s"
    and "\<forall>item \<in> set items. 0 \<le> b_segment_index item \<and> 0 \<notin> set (b_shim_symbol item)"
  shows "run_bind bind_start (s @ rest) = Some (bound_as ord 0 (sort_key bind_key items))"
proof -
  obtain es where o: "1 \<le> ord" "ord \<le> 15" and es: "mapM_r bind_entry (sort_key bind_key items) = Inr es"
    and s: "s = [opcode BIND_OPCODE_SET_DYLIB_ORDINAL_IMM ord, opcode BIND_OPCODE_SET_TYPE_IMM BIND_TYPE_POINTER]
      @ concat es @ [word_of_int BIND_OPCODE_DONE]"
    using assms(1) by (auto simp: bind_stream_def result_iff split: if_splits)
  have "run_bind bind_start (s @ rest) = run_bind (bind_start\<lparr>g_ordinal := ord, g_type := BIND_TYPE_POINTER\<rparr>)
      (concat es @ word_of_int BIND_OPCODE_DONE # rest)"
    using o by (subst run_bind.simps, simp add: s read_bind_opcode(1)[of ord] del: read_bind_op.simps)
      (subst run_bind.simps, simp add: read_bind_opcode(2)[of 1] BIND_TYPE_POINTER_def del: read_bind_op.simps)
  also have "\<dots> = Some (bound_as ord 0 (sort_key bind_key items))"
    using run_bind_entries[OF es, of "bind_start\<lparr>g_ordinal := ord, g_type := BIND_TYPE_POINTER\<rparr>"] assms(2)
    by (simp add: bind_start_def)
  finally show ?thesis .
qed

text \<open>
  The addend register is set only for a non-zero addend, so the machine binds what the entries ask for
  exactly when no entry without an addend comes after one with an addend.
\<close>

lemma bound_as_nonzero:
  "a \<noteq> 0 \<Longrightarrow> bound_as ord a items = map (intended ord) items \<longleftrightarrow> (\<forall>item \<in> set items. b_addend item \<noteq> 0)"
  by (induction items arbitrary: a) (auto simp: Let_def intended_def)

lemma bound_as_zero:
  "bound_as ord 0 items = map (intended ord) items \<longleftrightarrow>
     (\<forall>item \<in> set (dropWhile (\<lambda>item. b_addend item = 0) items). b_addend item \<noteq> 0)"
proof (induction items)
  case (Cons item items)
  show ?case
  proof (cases "b_addend item = 0")
    case True
    then show ?thesis using Cons by (simp add: Let_def intended_def[of ord item])
  next
    case False
    then show ?thesis using bound_as_nonzero[OF False, of ord items] by (simp add: Let_def intended_def[of ord item])
  qed
qed simp

text \<open>Symbol, segment and offset are right in any case.\<close>

lemma bound_as_places:
  "map (\<lambda>(o', nm, ty, a, seg, off). (o', nm, ty, seg, off)) (bound_as ord a items)
    = map (\<lambda>item. (ord, shim_bytes item, BIND_TYPE_POINTER, b_segment_index item, b_segment_offset item)) items"
  by (induction items arbitrary: a) (auto simp: Let_def)

lemma bind_stream_ok:
  "(\<exists>s. bind_stream items ord = Inr s) \<longleftrightarrow> 1 \<le> ord \<and> ord \<le> 15
     \<and> (\<forall>item \<in> set items. b_segment_index item \<le> 15 \<and> 0 \<le> b_segment_offset item
          \<and> list_all is_scalar (b_shim_symbol item))"
proof -
  have "(\<exists>e. bind_entry item = Inr e) \<longleftrightarrow> b_segment_index item \<le> 15 \<and> 0 \<le> b_segment_offset item
      \<and> list_all is_scalar (b_shim_symbol item)" for item
    by (auto simp: bind_entry_def uleb128_def encode_utf8_def)
  then have "(\<exists>es. mapM_r bind_entry (sort_key bind_key items) = Inr es)
      \<longleftrightarrow> (\<forall>item \<in> set items. b_segment_index item \<le> 15 \<and> 0 \<le> b_segment_offset item
          \<and> list_all is_scalar (b_shim_symbol item))"
    by (simp add: mapM_r_defined)
  then show ?thesis by (cases "1 \<le> ord \<and> ord \<le> 15") (auto simp: bind_stream_def result_iff)
qed

subsection \<open>Sizes\<close>

lemma length_rebase_stream:
  assumes "rebase_stream locs = Inr s" and "\<forall>loc \<in> set locs. snd loc < 2 ^ 70"
  shows "length s \<le> 2 + 12 * length locs"
proof -
  obtain es where es: "mapM_r rebase_entry (sort locs) = Inr es"
    and s: "s = [opcode REBASE_OPCODE_SET_TYPE_IMM REBASE_TYPE_POINTER] @ concat es @ [word_of_int REBASE_OPCODE_DONE]"
    using assms(1) by (auto simp: rebase_stream_def result_iff)
  have "length e \<le> 12" if "loc \<in> set (sort locs)" "rebase_entry loc = Inr e" for loc e
  proof -
    obtain seg off where loc: "loc = (seg, off)" by (cases loc)
    have "0 \<le> off" and e: "e = [opcode REBASE_OPCODE_SET_SEGMENT_AND_OFFSET_ULEB seg] @ uleb_bytes off
      @ [opcode REBASE_OPCODE_DO_REBASE_IMM_TIMES 1]"
      using that(2) loc by (auto simp: rebase_entry_def uleb128_def result_iff split: if_splits)
    moreover have "off < 2 ^ 70" using assms(2) that(1) loc by auto
    ultimately show ?thesis using length_uleb_bytes[of off 10] by simp
  qed
  from length_concat_le[OF mapM_r_all[OF es this]] show ?thesis
    using mapM_r_length[OF es] by (simp add: s del: length_concat)
qed

lemma length_bind_stream:
  assumes "bind_stream items ord = Inr s"
    and "\<forall>item \<in> set items. b_segment_offset item < 2 ^ 70 \<and> - (2 ^ 69) \<le> b_addend item \<and> b_addend item < 2 ^ 69
      \<and> length (b_shim_symbol item) \<le> n"
  shows "length s \<le> 3 + (25 + 4 * n) * length items"
proof -
  obtain es where es: "mapM_r bind_entry (sort_key bind_key items) = Inr es"
    and s: "s = [opcode BIND_OPCODE_SET_DYLIB_ORDINAL_IMM ord, opcode BIND_OPCODE_SET_TYPE_IMM BIND_TYPE_POINTER]
      @ concat es @ [word_of_int BIND_OPCODE_DONE]"
    using assms(1) by (auto simp: bind_stream_def result_iff split: if_splits)
  have "length e \<le> 25 + 4 * n" if i: "item \<in> set (sort_key bind_key items)" "bind_entry item = Inr e" for item e
  proof -
    obtain nm where nm: "encode_utf8 (b_shim_symbol item) = Inr nm" "0 \<le> b_segment_offset item"
      and e: "e = [word_of_int BIND_OPCODE_SET_SYMBOL_TRAILING_FLAGS_IMM] @ nm @ [0]
        @ (if b_addend item \<noteq> 0 then [word_of_int BIND_OPCODE_SET_ADDEND_SLEB] @ sleb_bytes (b_addend item) else [])
        @ [opcode BIND_OPCODE_SET_SEGMENT_AND_OFFSET_ULEB (b_segment_index item)] @ uleb_bytes (b_segment_offset item)
        @ [word_of_int BIND_OPCODE_DO_BIND]"
      using i(2) by (auto simp: bind_entry_def uleb128_def result_iff split: if_splits)
    have b: "b_segment_offset item < 2 ^ 70" "- (2 ^ 69) \<le> b_addend item" "b_addend item < 2 ^ 69"
      "length (b_shim_symbol item) \<le> n"
      using assms(2) i(1) by auto
    have "length nm \<le> 4 * n" using length_encode_utf8[OF nm(1)] b(4) by linarith
    moreover have "length (uleb_bytes (b_segment_offset item)) \<le> 10" using length_uleb_bytes[OF nm(2), of 10] b(1) by simp
    moreover have "length (sleb_bytes (b_addend item)) \<le> 10" using length_sleb_bytes[of 9 "b_addend item"] b(2,3) by simp
    ultimately show ?thesis by (simp add: e)
  qed
  from length_concat_le[OF mapM_r_all[OF es this]] show ?thesis
    using mapM_r_length[OF es] by (simp add: s del: length_concat)
qed

end
