(* ===== verification/Phase3.thy ===== *)
theory Phase3
  imports Relocs Address_Map Macho Fixups
begin

section \<open>The Phase 3 translator (\<open>phase3.py\<close>)\<close>

text \<open>
  \<open>Phase3Translator\<close>: the \<open>__TEXT\<close> segment covers the reserved header and the first \<open>PT_LOAD\<close>, the
  other segments follow at the constant slide; every pointer the static link resolves becomes a
  rebase location and every relocation against an undefined symbol a binding to the shim library,
  both written as dyld opcode streams into \<open>__LINKEDIT\<close>. A \<open>phase3\<close> record is the translator object,
  \<open>build3\<close> the bytes \<open>translate\<close> writes, \<open>translate3\<close> the method on an explicit file system.
\<close>

definition HEADER_RESERVE :: int where "HEADER_RESERVE = 0x10000"
definition IMAGE_BASE :: int where "IMAGE_BASE = 0"

subsection \<open>Layout\<close>

record image_segment =
  is_name :: pystr
  is_vmaddr :: int
  is_vmsize :: int
  is_fileoff :: int
  is_filesize :: int
  is_protection :: int
  is_elf_vaddr :: int
  is_elf_offset :: int
  is_elf_filesz :: int
  is_elf_memsz :: int
  is_data_addr :: int
  is_data_fileoff :: int
  is_data_size :: int
  is_section_name :: pystr

definition first_segment :: "int \<Rightarrow> int \<Rightarrow> int \<Rightarrow> program_header \<Rightarrow> image_segment" where
  "first_segment image_base header_reserve page first =
     \<lparr>is_name = lit ''__TEXT'', is_vmaddr = image_base,
      is_vmsize = align (header_reserve + p_memsz first) page, is_fileoff = 0,
      is_filesize = header_reserve + p_filesz first, is_protection = VM_PROT_READ OR VM_PROT_EXECUTE,
      is_elf_vaddr = p_vaddr first, is_elf_offset = p_offset first, is_elf_filesz = p_filesz first,
      is_elf_memsz = p_memsz first, is_data_addr = image_base + header_reserve,
      is_data_fileoff = header_reserve, is_data_size = p_filesz first,
      is_section_name = lit ''__elf_rx''\<rparr>"

text \<open>The body of the loop over \<open>loads[1:]\<close>.\<close>

definition other_segment :: "int \<Rightarrow> int \<Rightarrow> int \<Rightarrow> int \<Rightarrow> program_header \<Rightarrow> image_segment" where
  "other_segment slide page cursor index ph =
     (let new_vm = slide + p_vaddr ph;
          vm_floor = floor_to new_vm page;
          delta = new_vm - vm_floor;
          fileoff = align cursor page;
          protection = mach_prot (p_flags ph);
          names = (if p_flags ph AND 2 \<noteq> 0 then (lit ''__ELF_DATA'', lit ''__elf_rw'')
                   else (lit ''__ELF_'' @ py_dec index, lit ''__elf_'' @ py_dec index))
      in \<lparr>is_name = fst names, is_vmaddr = vm_floor, is_vmsize = align (delta + p_memsz ph) page,
          is_fileoff = fileoff, is_filesize = delta + p_filesz ph, is_protection = protection,
          is_elf_vaddr = p_vaddr ph, is_elf_offset = p_offset ph, is_elf_filesz = p_filesz ph,
          is_elf_memsz = p_memsz ph, is_data_addr = new_vm, is_data_fileoff = fileoff + delta,
          is_data_size = p_filesz ph, is_section_name = snd names\<rparr>)"

fun other_segments :: "int \<Rightarrow> int \<Rightarrow> int \<Rightarrow> int \<Rightarrow> program_header list \<Rightarrow> image_segment list" where
  "other_segments slide page cursor index [] = []"
| "other_segments slide page cursor index (ph # phs) =
     (let seg = other_segment slide page cursor index ph
      in seg # other_segments slide page (align (is_fileoff seg + is_filesize seg) page) (index + 1) phs)"

definition layout_segments :: "elf64 \<Rightarrow> int \<Rightarrow> int \<Rightarrow> int \<Rightarrow> image_segment list result" where
  "layout_segments e image_base header_reserve page =
     (case filter (\<lambda>x. p_type x = PT_LOAD) (program_headers e) of
        [] \<Rightarrow> Inl (Phase3Error No_Pt_Load)
      | first # rest \<Rightarrow>
          if p_vaddr first \<noteq> 0 \<or> p_flags first AND 1 = 0 then Inl (Phase3Error First_Load_Not_Rx_At_Zero)
          else (let seg = first_segment image_base header_reserve page first
                in Inr (seg # other_segments (image_base + header_reserve) page
                                (align (is_filesize seg) page) 1 rest)))"

record phase3 =
  p3_elf :: elf64
  p3_base :: int
  p3_reserve :: int
  p3_page :: int
  p3_slide :: int
  p3_segments :: "image_segment list"

text \<open>\<open>Phase3Translator.__init__\<close>\<close>

definition phase3_init :: "elf64 \<Rightarrow> int \<Rightarrow> int \<Rightarrow> int \<Rightarrow> phase3 result" where
  "phase3_init e image_base header_reserve page =
     (if e_machine (ehdr e) \<noteq> EM_AARCH64 then Inl (Phase3Error Needs_AArch64)
      else if e_type (ehdr e) \<noteq> ET_DYN then Inl (Phase3Error Needs_Et_Dyn)
      else rmap (\<lambda>segs. \<lparr>p3_elf = e, p3_base = image_base, p3_reserve = header_reserve, p3_page = page,
                         p3_slide = image_base + header_reserve, p3_segments = segs\<rparr>)
             (layout_segments e image_base header_reserve page))"

text \<open>\<open>_location\<close>: segment index, offset in the image and offset in the segment.\<close>

definition segment_covers :: "int \<Rightarrow> image_segment \<Rightarrow> bool" where
  "segment_covers vaddr seg \<longleftrightarrow>
     is_elf_vaddr seg \<le> vaddr \<and> vaddr < is_elf_vaddr seg + is_elf_filesz seg"

fun location :: "int \<Rightarrow> int \<Rightarrow> image_segment list \<Rightarrow> int \<Rightarrow> (int \<times> int \<times> int) result" where
  "location slide index [] vaddr = Inl (Phase3Error (Target_Not_File_Backed vaddr))"
| "location slide index (seg # segs) vaddr =
     (if segment_covers vaddr seg
      then (let delta = vaddr - is_elf_vaddr seg
            in Inr (index, is_data_fileoff seg + delta, (slide + vaddr) - is_vmaddr seg))
      else location slide (index + 1) segs vaddr)"

subsection \<open>The relocation loop\<close>

record p3_state =
  t_image :: bytes
  t_rebases :: "(int \<times> int) list"
  t_bindings :: "binding list"
  t_patched :: patched_counts

text \<open>The binding of an undefined symbol.\<close>

definition mk_binding :: "pystr \<Rightarrow> elf_symbol \<Rightarrow> relocation \<Rightarrow> int \<Rightarrow> int \<Rightarrow> int \<Rightarrow> binding" where
  "mk_binding shim_prefix symbol r segment_index segment_offset existing =
     \<lparr>b_offset = rel_offset r, b_type = rel_type r, b_symbol = sym_name symbol,
      b_shim_symbol = shim_prefix @ sym_name symbol, b_symbol_type = st_info symbol AND 0x0F,
      b_segment_index = segment_index, b_segment_offset = segment_offset,
      b_addend = (if rel_type r = R_AARCH64_ABS64 then rel_addend r + existing else rel_addend r)\<rparr>"

definition reloc_step3 ::
  "phase3 \<Rightarrow> elf_symbol list \<Rightarrow> pystr \<Rightarrow> p3_state \<Rightarrow> relocation \<Rightarrow> p3_state result" where
  "reloc_step3 t syms shim_prefix st r =
     rbind (location (p3_slide t) 0 (p3_segments t) (rel_offset r)) (\<lambda>(segment_index, dst, segment_offset).
       let rebased = (\<lambda>img counts. st\<lparr>t_image := img, t_rebases := t_rebases st @ [(segment_index, segment_offset)],
                                      t_patched := counts\<rparr>);
           n = t_patched st
       in if rel_type r = R_AARCH64_RELATIVE then
         rbind (write_u64 (t_image st) dst (mask64 (p3_slide t + rel_addend r))) (\<lambda>img.
           Inr (rebased img (n\<lparr>n_relative := n_relative n + 1\<rparr>)))
       else if rel_type r \<notin> set symbol_relocs then
         Inl (Phase3Error (Unsupported_Relocation (rel_type r) (rel_offset r)))
       else if rel_sym r \<ge> int (length syms) then
         Inl (Phase3Error (Bad_Symbol_Index (rel_sym r)))
       else (let symbol = syms ! nat (rel_sym r) in
         if st_shndx symbol = SHN_UNDEF then
           rbind (read_u64 (t_image st) dst) (\<lambda>existing.
             Inr (st\<lparr>t_bindings := t_bindings st @
                     [mk_binding shim_prefix symbol r segment_index segment_offset existing]\<rparr>))
         else (let v = p3_slide t + st_value symbol + rel_addend r in
           if rel_type r = R_AARCH64_ABS64 then
             rbind (read_u64 (t_image st) dst) (\<lambda>current.
             rbind (write_u64 (t_image st) dst (mask64 (v + current))) (\<lambda>img.
               Inr (rebased img (n\<lparr>n_abs64 := n_abs64 n + 1\<rparr>))))
           else if rel_type r = R_AARCH64_GLOB_DAT then
             rbind (write_u64 (t_image st) dst (mask64 v)) (\<lambda>img.
               Inr (rebased img (n\<lparr>n_glob_dat := n_glob_dat n + 1\<rparr>)))
           else
             rbind (write_u64 (t_image st) dst (mask64 v)) (\<lambda>img.
               Inr (rebased img (n\<lparr>n_jump_slot := n_jump_slot n + 1\<rparr>))))))"

definition segment_region :: "image_segment \<Rightarrow> int \<times> int \<times> int" where
  "segment_region seg = (is_data_fileoff seg, is_elf_offset seg, is_elf_filesz seg)"

definition segments_end :: "int \<Rightarrow> image_segment list \<Rightarrow> int" where
  "segments_end page segs = max_list (map (\<lambda>x. align (is_fileoff x + is_filesize x) page) segs)"

definition copy_segments :: "phase3 \<Rightarrow> bytes" where
  "copy_segments t =
     copy_regions (edata (p3_elf t)) (map segment_region (p3_segments t))
       (zeros (segments_end (p3_page t) (p3_segments t)))"

definition relocate3 :: "phase3 \<Rightarrow> pystr \<Rightarrow> p3_state result" where
  "relocate3 t shim_prefix =
     rbind (dynamic_symbols (p3_elf t)) (\<lambda>syms.
     rbind (iter_relocations (p3_elf t)) (\<lambda>rels.
       foldM_r (reloc_step3 t syms shim_prefix)
         \<lparr>t_image = copy_segments t, t_rebases = [], t_bindings = [], t_patched = no_patches\<rparr> rels))"

subsection \<open>The link-edit segment and the load commands\<close>

text \<open>Where \<open>__LINKEDIT\<close> and the two streams lie.\<close>

record linkedit =
  k_vmaddr :: int
  k_fileoff :: int
  k_size :: int
  k_rebase_off :: int
  k_bind_off :: int
  k_final_size :: int

definition mk_linkedit :: "int \<Rightarrow> image_segment list \<Rightarrow> int \<Rightarrow> int \<Rightarrow> int \<Rightarrow> linkedit" where
  "mk_linkedit page segs image_size rebase_size bind_size =
     (let linkedit_fileoff = align image_size page;
          bind_off = align (linkedit_fileoff + rebase_size) 8;
          linkedit_size = bind_off - linkedit_fileoff + bind_size
      in \<lparr>k_vmaddr = align (max_list (map (\<lambda>x. is_vmaddr x + is_vmsize x) segs)) page,
          k_fileoff = linkedit_fileoff, k_size = linkedit_size, k_rebase_off = linkedit_fileoff,
          k_bind_off = bind_off, k_final_size = align (linkedit_fileoff + linkedit_size) page\<rparr>)"

definition link_image :: "linkedit \<Rightarrow> bytes \<Rightarrow> bytes \<Rightarrow> bytes \<Rightarrow> bytes" where
  "link_image k img rebases binds =
     (let final0 = zeros (k_final_size k);
          final1 = py_slice_assign final0 0 (int (length img)) img;
          final2 = py_slice_assign final1 (k_rebase_off k) (k_rebase_off k + int (length rebases)) rebases
      in py_slice_assign final2 (k_bind_off k) (k_bind_off k + int (length binds)) binds)"

text \<open>\<open>_segment_with_data_section\<close>: a segment with a zero-sized sentinel section and the data section.\<close>

definition segment_with_data_section :: "image_segment \<Rightarrow> bytes result" where
  "segment_with_data_section seg =
     rbind (name16 (is_name seg)) (\<lambda>seg_name.
     rbind (name16 (is_section_name seg)) (\<lambda>section_name.
       let sentinel_name = pad16 (map byte_of (lit ''__segstart'')) in
     rbind (pack (segment_items (72 + 80 * 2) seg_name (is_vmaddr seg) (is_vmsize seg) (is_fileoff seg)
                    (is_filesize seg) (is_protection seg) (is_protection seg) 2)) (\<lambda>command.
     rbind (pack (section_items sentinel_name seg_name (is_vmaddr seg) 0 (is_fileoff seg) 0 0)) (\<lambda>sentinel.
     rbind (pack (section_items section_name seg_name (is_data_addr seg) (is_data_size seg)
                    (is_data_fileoff seg) 3 0)) (\<lambda>data_section.
       Inr (command @ sentinel @ data_section))))))"

definition dyld_info_command :: "int \<Rightarrow> int \<Rightarrow> int \<Rightarrow> int \<Rightarrow> int \<Rightarrow> int \<Rightarrow> bytes result" where
  "dyld_info_command rebase_off rebase_size bind_off bind_size export_off export_size =
     pack [U32 LC_DYLD_INFO_ONLY, U32 48, U32 rebase_off, U32 rebase_size, U32 bind_off, U32 bind_size,
           U32 0, U32 0, U32 0, U32 0, U32 export_off, U32 export_size]"

text \<open>The load commands both linked phases emit, in file order.\<close>

definition linked_commands ::
  "int \<Rightarrow> image_segment list \<Rightarrow> int \<Rightarrow> int \<Rightarrow> int \<Rightarrow> pystr \<Rightarrow> pystr \<Rightarrow> int \<times> int \<times> int \<Rightarrow> bytes result
     \<Rightarrow> bytes list result" where
  "linked_commands page segs linkedit_vmaddr linkedit_fileoff linkedit_size shim_install_name install_name min_ios dyld_info =
     rbind (mapM_r segment_with_data_section segs) (\<lambda>cs.
     rbind (segment_no_sections (lit ''__LINKEDIT'') linkedit_vmaddr (align linkedit_size page) linkedit_fileoff
              linkedit_size VM_PROT_READ) (\<lambda>cl.
     rbind (dylib_command LC_LOAD_DYLIB shim_install_name) (\<lambda>cload.
     rbind (dylib_command LC_ID_DYLIB install_name) (\<lambda>cid.
     rbind (build_version_command min_ios) (\<lambda>cv.
     rbind dyld_info (\<lambda>cd.
       Inr (cs @ [cl, cload, cid, cv, cd])))))))"

record p3_build =
  f_state :: p3_state
  f_rebases :: bytes
  f_binds :: bytes
  f_link :: linkedit
  f_final :: bytes

text \<open>Everything \<open>translate\<close> does before it writes the file.\<close>

definition build3 ::
  "phase3 \<Rightarrow> pystr \<Rightarrow> pystr \<Rightarrow> pystr \<Rightarrow> int \<times> int \<times> int \<Rightarrow> p3_build result" where
  "build3 t shim_install_name install_name shim_prefix min_ios =
     rbind (relocate3 t shim_prefix) (\<lambda>st.
     rbind (rebase_stream (t_rebases st)) (\<lambda>rebases.
     rbind (bind_stream (t_bindings st) 1) (\<lambda>binds.
       let k = mk_linkedit (p3_page t) (p3_segments t) (int (length (t_image st))) (int (length rebases))
                 (int (length binds));
           final = link_image k (t_image st) rebases binds
       in
     rbind (linked_commands (p3_page t) (p3_segments t) (k_vmaddr k) (k_fileoff k) (k_size k)
              shim_install_name install_name min_ios
              (dyld_info_command (k_rebase_off k) (int (length rebases)) (k_bind_off k) (int (length binds)) 0 0))
       (\<lambda>commands.
     rbind (header_page (Phase3Error Load_Commands_Too_Large) (MH_DYLDLINK OR MH_TWOLEVEL) (p3_reserve t)
              commands final) (\<lambda>img.
       Inr \<lparr>f_state = st, f_rebases = rebases, f_binds = binds, f_link = k, f_final = img\<rparr>)))))"

subsection \<open>The report and the method\<close>

record shim_import =
  si_symbol :: pystr
  si_shim_symbol :: pystr
  si_symbol_type :: pystr
  si_relocation_count :: int

definition symbol_type_name :: "int \<Rightarrow> pystr" where
  "symbol_type_name ty =
     (if ty = 0 then lit ''notype'' else if ty = 1 then lit ''object'' else if ty = 2 then lit ''func''
      else lit ''type_'' @ py_dec ty)"

text \<open>\<open>by_symbol.setdefault(...)\<close> and the count: the first binding of a symbol makes its entry.\<close>

fun add_import :: "binding \<Rightarrow> shim_import list \<Rightarrow> shim_import list" where
  "add_import item [] =
     [\<lparr>si_symbol = b_symbol item, si_shim_symbol = b_shim_symbol item,
       si_symbol_type = symbol_type_name (b_symbol_type item), si_relocation_count = 1\<rparr>]"
| "add_import item (e # es) =
     (if si_symbol e = b_symbol item then e\<lparr>si_relocation_count := si_relocation_count e + 1\<rparr> # es
      else e # add_import item es)"

definition shim_imports :: "binding list \<Rightarrow> shim_import list" where
  "shim_imports bindings = sort_key si_symbol (fold add_import bindings [])"

record p3_segment_report =
  gr_name :: pystr
  gr_vmaddr :: pystr
  gr_vmsize :: pystr
  gr_fileoff :: pystr
  gr_filesize :: pystr
  gr_data_addr :: pystr
  gr_data_fileoff :: pystr

record p3_report =
  r3_output :: pystr
  r3_output_size :: int
  r3_image_base :: pystr
  r3_elf_slide :: pystr
  r3_patched :: patched_counts
  r3_rebase_count :: int
  r3_rebase_stream_size :: int
  r3_bind_count :: int
  r3_bind_stream_size :: int
  r3_shim_install_name :: pystr
  r3_shim_symbol_count :: int
  r3_shim_symbols :: "pystr list"
  r3_shim_imports :: "shim_import list"
  r3_segments :: "p3_segment_report list"
  r3_linkedit_vmaddr :: pystr
  r3_linkedit_fileoff :: pystr
  r3_linkedit_size :: int

definition segment_report3 :: "image_segment \<Rightarrow> p3_segment_report" where
  "segment_report3 seg =
     \<lparr>gr_name = is_name seg, gr_vmaddr = py_hex (is_vmaddr seg), gr_vmsize = py_hex (is_vmsize seg),
      gr_fileoff = py_hex (is_fileoff seg), gr_filesize = py_hex (is_filesize seg),
      gr_data_addr = py_hex (is_data_addr seg), gr_data_fileoff = py_hex (is_data_fileoff seg)\<rparr>"

definition report3 :: "phase3 \<Rightarrow> pystr \<Rightarrow> pystr \<Rightarrow> p3_build \<Rightarrow> p3_report" where
  "report3 t output shim_install_name b =
     (let bindings = t_bindings (f_state b); shim_symbols = sorted_set (map b_shim_symbol bindings)
      in \<lparr>r3_output = output, r3_output_size = int (length (f_final b)), r3_image_base = py_hex (p3_base t),
          r3_elf_slide = py_hex (p3_slide t), r3_patched = t_patched (f_state b),
          r3_rebase_count = int (length (t_rebases (f_state b))),
          r3_rebase_stream_size = int (length (f_rebases b)), r3_bind_count = int (length bindings),
          r3_bind_stream_size = int (length (f_binds b)), r3_shim_install_name = shim_install_name,
          r3_shim_symbol_count = int (length shim_symbols), r3_shim_symbols = shim_symbols,
          r3_shim_imports = shim_imports bindings, r3_segments = map segment_report3 (p3_segments t),
          r3_linkedit_vmaddr = py_hex (k_vmaddr (f_link b)),
          r3_linkedit_fileoff = py_hex (k_fileoff (f_link b)), r3_linkedit_size = k_size (f_link b)\<rparr>)"

definition translate3 ::
  "phase3 \<Rightarrow> fs \<Rightarrow> pystr \<Rightarrow> pystr \<Rightarrow> pystr \<Rightarrow> pystr \<Rightarrow> int \<times> int \<times> int \<Rightarrow> fs \<times> p3_report result" where
  "translate3 t fs output shim_install_name install_name shim_prefix min_ios =
     (case build3 t shim_install_name install_name shim_prefix min_ios of
        Inl e \<Rightarrow> (fs, Inl e)
      | Inr b \<Rightarrow> (write_bytes fs output (f_final b), Inr (report3 t output shim_install_name b)))"

text \<open>\<open>translate_phase3\<close> with the default layout parameters.\<close>

definition translate_phase3 ::
  "fs \<Rightarrow> pystr \<Rightarrow> pystr \<Rightarrow> pystr \<Rightarrow> pystr \<Rightarrow> pystr \<Rightarrow> int \<times> int \<times> int \<Rightarrow> fs \<times> p3_report result" where
  "translate_phase3 fs input output shim_install_name install_name shim_prefix min_ios =
     (case rbind (read_bytes fs input) (\<lambda>d.
             rbind (parse_elf d input) (\<lambda>e. phase3_init e IMAGE_BASE HEADER_RESERVE IOS_PAGE)) of
        Inl e \<Rightarrow> (fs, Inl e)
      | Inr t \<Rightarrow> translate3 t fs output shim_install_name install_name shim_prefix min_ios)"

interpretation t3: file_op "\<lambda>fs. translate3 t fs dest shim install prefix v" "{dest}" for t dest shim install prefix v
  by unfold_locales (auto simp: translate3_def write_bytes_apply split: sum.splits)

interpretation p3: file_op "\<lambda>fs. translate_phase3 fs input dest shim install prefix v" "{dest}"
  for input dest shim install prefix v
  by unfold_locales (auto simp: translate_phase3_def t3.frame split: sum.splits)

end
