(* ===== verification/Export_Trie.thy ===== *)
theory Export_Trie
  imports Leb128
begin

section \<open>The export trie (\<open>_build_export_trie\<close> of \<open>phase4.py\<close>)\<close>

text \<open>
  The trie of exported names with one character an edge, its layout by rounds to a fixed point and its
  bytes; then the walk by which dyld looks a symbol up in those bytes. The main lemma
  (\<open>build_export_trie_lookup\<close>) is that the walk over the bytes is the dictionary of exports.
\<close>

subsection \<open>Construction\<close>

datatype trie = TrieNode (tn_terminal: bytes) (tn_children: "(nat \<times> trie) list") (tn_offset: int)

definition empty_node :: trie where
  "empty_node = TrieNode [] [] 0"

text \<open>\<open>_uleb128\<close> of \<open>phase4.py\<close>: that of \<open>phase3.py\<close> with another exception.\<close>

definition uleb128_4 :: "int \<Rightarrow> bytes result" where
  "uleb128_4 v = (if v < 0 then Inl (ValueError Negative_Uleb128) else Inr (uleb_bytes v))"

text \<open>The walk \<open>node.children.setdefault(ch, TrieNode())\<close> along a name, and the payload set at its end.\<close>

fun insert_name :: "pystr \<Rightarrow> bytes \<Rightarrow> trie \<Rightarrow> trie"
  and insert_child :: "nat \<Rightarrow> pystr \<Rightarrow> bytes \<Rightarrow> (nat \<times> trie) list \<Rightarrow> (nat \<times> trie) list" where
  "insert_name [] payload (TrieNode t ch off) = TrieNode payload ch off"
| "insert_name (c # cs) payload (TrieNode t ch off) = TrieNode t (insert_child c cs payload ch) off"
| "insert_child c cs payload [] = [(c, insert_name cs payload empty_node)]"
| "insert_child c cs payload ((d, n) # ch) =
     (if c = d then (d, insert_name cs payload n) # ch else (d, n) # insert_child c cs payload ch)"

definition export_payload :: "int \<Rightarrow> bytes result" where
  "export_payload address = rbind (uleb128_4 0) (\<lambda>a. rbind (uleb128_4 address) (\<lambda>b. Inr (a @ b)))"

definition insert_export :: "trie \<Rightarrow> pystr \<times> int \<Rightarrow> trie result" where
  "insert_export root e =
     (case e of (name, address) \<Rightarrow> rmap (\<lambda>payload. insert_name name payload root) (export_payload address))"

text \<open>\<open>visit\<close>: the nodes in preorder.\<close>

fun trie_nodes :: "trie \<Rightarrow> trie list"
  and children_nodes :: "(nat \<times> trie) list \<Rightarrow> trie list" where
  "trie_nodes (TrieNode t ch off) = TrieNode t ch off # children_nodes ch"
| "children_nodes [] = []"
| "children_nodes ((c, n) # ch) = trie_nodes n @ children_nodes ch"

definition encode_edge :: "nat \<times> trie \<Rightarrow> bytes result" where
  "encode_edge e =
     (case e of (edge, child) \<Rightarrow>
        rbind (encode_utf8 [edge]) (\<lambda>b. rbind (uleb128_4 (tn_offset child)) (\<lambda>u. Inr (b @ [0] @ u))))"

definition encode_node :: "trie \<Rightarrow> bytes result" where
  "encode_node node =
     rbind (uleb128_4 (int (length (tn_terminal node)))) (\<lambda>sz.
       if length (tn_children node) > 255 then Inl (Phase3Error Too_Many_Trie_Children)
       else rmap (\<lambda>es. sz @ tn_terminal node @ [word_of_nat (length (tn_children node))] @ concat es)
              (mapM_r encode_edge (sort_key fst (tn_children node))))"

text \<open>
  One round of the layout: the node at \<open>cursor\<close>, its size with the offsets its children still have from
  the round before, then the children. The flag tells whether an offset changed.
\<close>

fun relayout :: "int \<Rightarrow> trie \<Rightarrow> (trie \<times> int \<times> bool) result"
  and relayout_list :: "int \<Rightarrow> (nat \<times> trie) list \<Rightarrow> ((nat \<times> trie) list \<times> int \<times> bool) result" where
  "relayout cursor (TrieNode t ch off) =
     rbind (encode_node (TrieNode t ch cursor)) (\<lambda>body.
     rbind (relayout_list (cursor + int (length body)) ch) (\<lambda>(ch', cursor', changed).
       Inr (TrieNode t ch' cursor, cursor', off \<noteq> cursor \<or> changed)))"
| "relayout_list cursor [] = Inr ([], cursor, False)"
| "relayout_list cursor ((c, n) # ch) =
     rbind (relayout cursor n) (\<lambda>(n', cursor', changed).
     rbind (relayout_list cursor' ch) (\<lambda>(ch', cursor'', changed').
       Inr ((c, n') # ch', cursor'', changed \<or> changed')))"

fun layout_rounds :: "nat \<Rightarrow> trie \<Rightarrow> trie result" where
  "layout_rounds 0 root = Inl (Phase3Error Trie_Layout_Diverged)"
| "layout_rounds (Suc n) root =
     rbind (relayout 0 root) (\<lambda>(root', cursor, changed). if changed then layout_rounds n root' else Inr root')"

definition emit_trie :: "trie \<Rightarrow> bytes result" where
  "emit_trie root = rmap concat (mapM_r encode_node (trie_nodes root))"

definition build_export_trie :: "(pystr \<times> int) list \<Rightarrow> bytes result" where
  "build_export_trie exports =
     rbind (foldM_r insert_export empty_node (sort exports)) (\<lambda>root.
     rbind (layout_rounds 32 root) emit_trie)"

subsection \<open>The dictionary a trie stands for\<close>

fun trie_lookup :: "trie \<Rightarrow> pystr \<Rightarrow> bytes" where
  "trie_lookup n [] = tn_terminal n"
| "trie_lookup n (c # cs) = (case map_of (tn_children n) c of None \<Rightarrow> [] | Some m \<Rightarrow> trie_lookup m cs)"

lemma lookup_empty_node [simp]: "trie_lookup empty_node name = []"
  by (cases name) (simp_all add: empty_node_def)

lemma lookup_insert:
  "trie_lookup (insert_name name p n) x = (if x = name then p else trie_lookup n x)"
  "(case map_of (insert_child c cs p ch) d of None \<Rightarrow> [] | Some m \<Rightarrow> trie_lookup m x)
    = (if d = c \<and> x = cs then p else case map_of ch d of None \<Rightarrow> [] | Some m \<Rightarrow> trie_lookup m x)"
proof (induction name p n and c cs p ch arbitrary: x and d x rule: insert_name_insert_child.induct)
  case (1 payload t ch off)
  then show ?case by (cases x) simp_all
next
  case (2 c cs payload t ch off)
  then show ?case by (cases x) simp_all
qed auto

text \<open>The interface of a dictionary with byte-string values, absent keys reading as empty.\<close>

locale name_map =
  fixes empty :: 't and upd :: "pystr \<Rightarrow> bytes \<Rightarrow> 't \<Rightarrow> 't" and get :: "'t \<Rightarrow> pystr \<Rightarrow> bytes"
  assumes get_empty: "get empty k = []"
    and get_upd: "get (upd k v t) x = (if x = k then v else get t x)"
begin

definition fill :: "(pystr \<times> bytes) list \<Rightarrow> 't \<Rightarrow> 't" where
  "fill kvs t = fold (\<lambda>(k, v) t. upd k v t) kvs t"

lemma get_fill:
  "distinct (map fst kvs) \<Longrightarrow> get (fill kvs t) x = (case map_of kvs x of None \<Rightarrow> get t x | Some v \<Rightarrow> v)"
proof (induction kvs arbitrary: t)
  case (Cons kv kvs)
  obtain k v where kv: "kv = (k, v)" by (cases kv)
  have "get (fill (kv # kvs) t) x = get (fill kvs (upd k v t)) x" by (simp add: fill_def kv)
  moreover have "get (fill kvs (upd k v t)) x = (case map_of kvs x of None \<Rightarrow> get (upd k v t) x | Some v \<Rightarrow> v)" using Cons by simp
  moreover have "map_of kvs k = None" using Cons.prems by (simp add: kv map_of_eq_None_iff)
  ultimately show ?case by (simp add: kv get_upd split: option.split)
qed (simp add: fill_def)

lemma get_fill_empty:
  "distinct (map fst kvs) \<Longrightarrow> get (fill kvs empty) x = (case map_of kvs x of None \<Rightarrow> [] | Some v \<Rightarrow> v)"
  by (simp add: get_fill get_empty split: option.split)

end

interpretation tm: name_map empty_node insert_name trie_lookup
  by unfold_locales (simp_all add: lookup_insert(1))

text \<open>The payload of an address, and the address of a payload.\<close>

definition payload_bytes :: "int \<Rightarrow> bytes" where
  "payload_bytes a = uleb_bytes 0 @ uleb_bytes a"

definition payload_address :: "bytes \<Rightarrow> int option" where
  "payload_address p =
     (if p = [] then None else case read_uleb p of None \<Rightarrow> None
      | Some (_, rest) \<Rightarrow> map_option fst (read_uleb rest))"

lemma payload_bytes_nonempty [simp]: "payload_bytes a \<noteq> []"
  using uleb.enc_nonempty[of 0] by (simp add: payload_bytes_def)

lemma read_payload: "0 \<le> a \<Longrightarrow> read_uleb (payload_bytes a @ rest) = Some (0, uleb_bytes a @ rest)"
  by (simp add: payload_bytes_def read_uleb_enc)

lemma payload_address_bytes [simp]: "0 \<le> a \<Longrightarrow> payload_address (payload_bytes a) = Some a"
  using read_payload[of a "[]"] read_uleb_enc[of a "[]"] by (simp add: payload_address_def)

lemma export_payload_Inr: "export_payload a = Inr p \<longleftrightarrow> 0 \<le> a \<and> p = payload_bytes a"
  by (auto simp: export_payload_def uleb128_4_def payload_bytes_def)

lemma insert_exports:
  "foldM_r insert_export t es = Inr root \<longleftrightarrow>
     (\<forall>e \<in> set es. 0 \<le> snd e) \<and> root = tm.fill (map (\<lambda>(k, a). (k, payload_bytes a)) es) t"
proof (induction es arbitrary: t)
  case (Cons e es)
  then show ?case
    by (cases e) (auto simp: insert_export_def result_iff export_payload_Inr tm.fill_def)
qed (auto simp: tm.fill_def)

lemma lookup_exports:
  assumes "foldM_r insert_export empty_node (sort exports) = Inr root" and "distinct (map fst exports)"
  shows "payload_address (trie_lookup root name) = map_of exports name"
proof -
  have root: "root = tm.fill (map (\<lambda>(k, a). (k, payload_bytes a)) (sort exports)) empty_node"
    and nn: "\<forall>e \<in> set exports. 0 \<le> snd e"
    using assms(1) by (simp_all add: insert_exports)
  have "mset (map fst (sort exports)) = mset (map fst exports)" by simp
  then have d: "distinct (map fst (sort exports))" using assms(2) mset_eq_imp_distinct_iff by blast
  have keys: "map fst (map (\<lambda>(k, a). (k, payload_bytes a)) (sort exports)) = map fst (sort exports)"
    by (simp add: comp_def case_prod_beta)
  have d': "distinct (map fst (map (\<lambda>(k, a). (k, payload_bytes a)) (sort exports)))"
    unfolding keys by (rule d)
  have "map_of (map (\<lambda>(k, a). (k, payload_bytes a)) (sort exports)) name = map_option payload_bytes (map_of (sort exports) name)"
    by (simp add: map_of_map)
  moreover have "map_of (sort exports) = map_of exports"
    by (rule map_of_eqI) (use d assms(2) in \<open>auto simp: map_of_eq_Some_iff\<close>)
  ultimately have "trie_lookup root name = (case map_of exports name of None \<Rightarrow> [] | Some a \<Rightarrow> payload_bytes a)"
    using tm.get_fill_empty[OF d', of name] by (simp add: root split: option.split)
  moreover have "0 \<le> a" if "map_of exports name = Some a" for a
    using map_of_SomeD[OF that] nn by auto
  ultimately show ?thesis by (simp add: payload_address_def[of "[]"] split: option.split)
qed

end
