(* ===== verification/Phase4.thy ===== *)
theory Phase4
  imports Phase3 Export_Trie "HOL-Library.AList"
begin

section \<open>The Phase 4 translator (\<open>phase4.py\<close>)\<close>

text \<open>
  \<open>Phase4Translator\<close>, a subclass of the Phase 3 translator: it lets Phase 3 write its image to a temporary
  file, reads that back, replaces the tail of \<open>__LINKEDIT\<close> by an export trie and a one-byte string table that
  end the file, makes the segments contiguous and writes new load commands. A \<open>phase3\<close> record is the
  translator object; the temporary path \<open>tempfile\<close> chooses is a parameter.
\<close>

definition S_MOD_INIT_FUNC_POINTERS :: int where "S_MOD_INIT_FUNC_POINTERS = 0x9"
definition S_MOD_TERM_FUNC_POINTERS :: int where "S_MOD_TERM_FUNC_POINTERS = 0xA"
definition S_ATTR_PURE_INSTRUCTIONS :: int where "S_ATTR_PURE_INSTRUCTIONS = 0x80000000"
definition S_ATTR_SOME_INSTRUCTIONS :: int where "S_ATTR_SOME_INSTRUCTIONS = 0x00000400"
definition STB_GLOBAL :: int where "STB_GLOBAL = 1"
definition STB_WEAK :: int where "STB_WEAK = 2"
definition STT_OBJECT :: int where "STT_OBJECT = 1"
definition STT_FUNC :: int where "STT_FUNC = 2"

lemmas symbol_consts = STB_GLOBAL_def STB_WEAK_def STT_OBJECT_def STT_FUNC_def

subsection \<open>Exports\<close>

definition exported :: "elf_symbol \<Rightarrow> bool" where
  "exported symbol \<longleftrightarrow> \<not> (st_shndx symbol = SHN_UNDEF \<or> sym_name symbol = [])
     \<and> drop_bit 4 (st_info symbol) \<in> {STB_GLOBAL, STB_WEAK}
     \<and> st_info symbol AND 0x0F \<in> {STT_FUNC, STT_OBJECT}"

text \<open>\<open>_exports\<close>: the dictionary in insertion order; a later symbol of the same name replaces the value.\<close>

definition add_export :: "int \<Rightarrow> elf_symbol \<Rightarrow> (pystr \<times> int) list \<Rightarrow> (pystr \<times> int) list" where
  "add_export reserve symbol exports =
     (if exported symbol then AList.update (lit ''_'' @ sym_name symbol) (reserve + st_value symbol) exports
      else exports)"

definition exports4 :: "phase3 \<Rightarrow> (pystr \<times> int) list result" where
  "exports4 t = rmap (\<lambda>syms. fold (add_export (p3_reserve t)) syms []) (dynamic_symbols (p3_elf t))"

subsection \<open>Section commands\<close>

text \<open>\<open>int(math.log2(n))\<close> of a power of two.\<close>

fun log2_int :: "nat \<Rightarrow> int \<Rightarrow> int" where
  "log2_int 0 n = 0"
| "log2_int (Suc k) n = (if n \<le> 1 then 0 else 1 + log2_int k (n div 2))"

definition section_align :: "int \<Rightarrow> int" where
  "section_align addralign =
     (if addralign \<le> 1 then 0 else if addralign AND (addralign - 1) \<noteq> 0 then 0 else log2_int 64 addralign)"

definition section_command :: "pystr \<Rightarrow> pystr \<Rightarrow> int \<Rightarrow> int \<Rightarrow> int \<Rightarrow> int \<Rightarrow> int \<Rightarrow> bytes result" where
  "section_command sectname segname addr sz offset algn fl =
     rbind (name16 sectname) (\<lambda>a. rbind (name16 segname) (\<lambda>b. pack (section_items a b addr sz offset algn fl)))"

text \<open>\<open>_segment_with_sections\<close>, which no caller uses.\<close>

definition segment_with_sections :: "image_segment \<Rightarrow> bytes list \<Rightarrow> bytes result" where
  "segment_with_sections seg section_cmds =
     rbind (name16 (is_name seg)) (\<lambda>seg_name.
     rbind (section_command (lit ''__segstart'') (is_name seg) (is_vmaddr seg) 0 (is_fileoff seg) 0 0) (\<lambda>sentinel.
       let all_sections = sentinel # section_cmds; cmdsize = 72 + 80 * int (length all_sections) in
     rbind (pack (segment_items cmdsize seg_name (is_vmaddr seg) (is_vmsize seg) (is_fileoff seg) (is_filesize seg)
                    (is_protection seg) (is_protection seg) (int (length all_sections)))) (\<lambda>header.
       Inr (header @ concat all_sections))))"

definition section_map :: "(pystr \<times> pystr \<times> int) list" where
  "section_map =
     [(lit ''.text'', lit ''__text'', S_ATTR_PURE_INSTRUCTIONS OR S_ATTR_SOME_INSTRUCTIONS),
      (lit ''.rodata'', lit ''__const'', 0),
      (lit ''.eh_frame'', lit ''__eh_frame'', 0),
      (lit ''.gcc_except_table'', lit ''__gcc_except_tab'', 0),
      (lit ''.init_array'', lit ''__mod_init_func'', S_MOD_INIT_FUNC_POINTERS),
      (lit ''.fini_array'', lit ''__mod_term_func'', S_MOD_TERM_FUNC_POINTERS)]"

text \<open>\<open>_special_sections\<close>; \<open>translate\<close> does not call it.\<close>

fun special_sections_loop :: "phase3 \<Rightarrow> image_segment \<Rightarrow> section_header list \<Rightarrow> bytes list result" where
  "special_sections_loop t seg [] = Inr []"
| "special_sections_loop t seg (sec # secs) =
     (case map_of section_map (sh_name sec) of
        None \<Rightarrow> special_sections_loop t seg secs
      | Some (sectname, fl) \<Rightarrow>
          if sh_size sec = 0 then special_sections_loop t seg secs
          else if \<not> (is_elf_vaddr seg \<le> sh_addr sec \<and> sh_addr sec < is_elf_vaddr seg + is_elf_filesz seg)
          then special_sections_loop t seg secs
          else (case location (p3_slide t) 0 (p3_segments t) (sh_addr sec) of
                  Inl _ \<Rightarrow> special_sections_loop t seg secs
                | Inr (_, output_offset, _) \<Rightarrow>
                    rbind (section_command sectname (is_name seg) (p3_slide t + sh_addr sec) (sh_size sec)
                             output_offset (section_align (sh_addralign sec)) fl) (\<lambda>c.
                      rmap (Cons c) (special_sections_loop t seg secs))))"

definition special_sections :: "phase3 \<Rightarrow> image_segment \<Rightarrow> bytes list result" where
  "special_sections t seg = special_sections_loop t seg (sections (p3_elf t))"

subsection \<open>The image\<close>

text \<open>\<open>data.extend(...)\<close> or \<open>del data[n:]\<close>: the data at length \<open>n\<close>.\<close>

definition resize :: "bytes \<Rightarrow> int \<Rightarrow> bytes" where
  "resize data n =
     (if int (length data) < n then data @ zeros (n - int (length data))
      else if int (length data) > n then py_slice data 0 n else data)"

text \<open>The segments of the load commands: each reaches up to the next one, the last up to \<open>__LINKEDIT\<close>.\<close>

fun command_segments :: "int \<Rightarrow> int \<Rightarrow> image_segment list \<Rightarrow> image_segment list" where
  "command_segments linkedit_fileoff linkedit_vmaddr [] = []"
| "command_segments linkedit_fileoff linkedit_vmaddr (seg # segs) =
     (let nxt = (case segs of [] \<Rightarrow> (linkedit_fileoff, linkedit_vmaddr) | s # _ \<Rightarrow> (is_fileoff s, is_vmaddr s))
      in seg\<lparr>is_filesize := fst nxt - is_fileoff seg, is_vmsize := snd nxt - is_vmaddr seg\<rparr>
         # command_segments linkedit_fileoff linkedit_vmaddr segs)"

definition symtab_command :: "int \<Rightarrow> int \<Rightarrow> bytes result" where
  "symtab_command str_off strtab_size =
     pack [U32 LC_SYMTAB, U32 24, U32 str_off, U32 0, U32 str_off, U32 strtab_size]"

record p4_build =
  x_exports :: "(pystr \<times> int) list"
  x_stream :: bytes
  x_export_off :: int
  x_final :: bytes

text \<open>From the Phase 3 image \<open>data\<close> and its report to the bytes that are written.\<close>

definition build4 ::
  "phase3 \<Rightarrow> p3_report \<Rightarrow> bytes \<Rightarrow> pystr \<Rightarrow> pystr \<Rightarrow> int \<times> int \<times> int \<Rightarrow> p4_build result" where
  "build4 t rep data shim_install_name install_name min_ios =
     rbind (int16 (r3_linkedit_fileoff rep)) (\<lambda>rebase_off.
       let bind_off = align (rebase_off + r3_rebase_stream_size rep) 8;
           bind_end = bind_off + r3_bind_stream_size rep in
     rbind (exports4 t) (\<lambda>exports.
     rbind (build_export_trie exports) (\<lambda>export_stream.
       let export_off = align bind_end 8;
           str_off = export_off + int (length export_stream);
           strtab = [0];
           linkedit_fileoff = rebase_off;
           linkedit_size = str_off - linkedit_fileoff + int (length strtab);
           final_size = linkedit_fileoff + linkedit_size;
           data1 = resize data final_size;
           data2 = py_slice_assign data1 export_off (export_off + int (length export_stream)) export_stream;
           data3 = py_slice_assign data2 str_off (str_off + int (length strtab)) strtab in
     rbind (int16 (r3_linkedit_vmaddr rep)) (\<lambda>linkedit_vmaddr.
     rbind (linked_commands (p3_page t) (command_segments linkedit_fileoff linkedit_vmaddr (p3_segments t))
              linkedit_vmaddr linkedit_fileoff linkedit_size shim_install_name install_name min_ios
              (dyld_info_command rebase_off (r3_rebase_stream_size rep) bind_off (r3_bind_stream_size rep)
                 export_off (int (length export_stream)))) (\<lambda>commands.
     rbind (symtab_command str_off (int (length strtab))) (\<lambda>symtab.
     rbind (header_page (Phase3Error Load_Commands_Too_Large) (MH_DYLDLINK OR MH_TWOLEVEL) (p3_reserve t)
              (commands @ [symtab]) (py_slice_assign data3 0 (p3_reserve t) (zeros (p3_reserve t)))) (\<lambda>img.
       Inr \<lparr>x_exports = exports, x_stream = export_stream, x_export_off = export_off, x_final = img\<rparr>)))))))"

subsection \<open>The report and the method\<close>

record p4_report = p3_report +
  r4_export_count :: int
  r4_export_stream_size :: int
  r4_export_offset :: pystr
  r4_has_il2cpp_init :: bool
  r4_init_array_entries :: int
  r4_fini_array_entries :: int
  r4_eh_frame_size :: int
  r4_phase :: int

definition section_size :: "elf64 \<Rightarrow> pystr \<Rightarrow> int" where
  "section_size e name = (case section_named e name of None \<Rightarrow> 0 | Some sec \<Rightarrow> sh_size sec)"

definition report4 :: "phase3 \<Rightarrow> p3_report \<Rightarrow> pystr \<Rightarrow> p4_build \<Rightarrow> p4_report" where
  "report4 t rep output b =
     p3_report.extend (rep\<lparr>r3_output := output, r3_output_size := int (length (x_final b))\<rparr>)
       (p4_report.fields (int (length (x_exports b))) (int (length (x_stream b))) (py_hex (x_export_off b))
          (lit ''_il2cpp_init'' \<in> fst ` set (x_exports b)) (section_size (p3_elf t) (lit ''.init_array'') div 8)
          (section_size (p3_elf t) (lit ''.fini_array'') div 8) (section_size (p3_elf t) (lit ''.eh_frame'')) 4)"

text \<open>
  \<open>translate\<close> on a file system: the temporary file is created empty, written by Phase 3, read back and
  removed, also when Phase 3 raises.
\<close>

definition translate4 ::
  "phase3 \<Rightarrow> fs \<Rightarrow> pystr \<Rightarrow> pystr \<Rightarrow> pystr \<Rightarrow> pystr \<Rightarrow> pystr \<Rightarrow> int \<times> int \<times> int \<Rightarrow> fs \<times> p4_report result" where
  "translate4 t fs tmp output shim_install_name install_name shim_prefix min_ios =
     (case translate3 t (write_bytes fs tmp []) tmp shim_install_name install_name shim_prefix min_ios of
        (fs', Inl e) \<Rightarrow> (unlink fs' tmp, Inl e)
      | (fs', Inr rep) \<Rightarrow>
          (case read_bytes fs' tmp of
             Inl e \<Rightarrow> (unlink fs' tmp, Inl e)
           | Inr data \<Rightarrow>
               (case build4 t rep data shim_install_name install_name min_ios of
                  Inl e \<Rightarrow> (unlink fs' tmp, Inl e)
                | Inr b \<Rightarrow> (write_bytes (unlink fs' tmp) output (x_final b), Inr (report4 t rep output b)))))"

definition translate_phase4 ::
  "fs \<Rightarrow> pystr \<Rightarrow> pystr \<Rightarrow> pystr \<Rightarrow> pystr \<Rightarrow> pystr \<Rightarrow> pystr \<Rightarrow> int \<times> int \<times> int \<Rightarrow> fs \<times> p4_report result" where
  "translate_phase4 fs tmp input output shim_install_name install_name shim_prefix min_ios =
     (case rbind (read_bytes fs input) (\<lambda>d.
             rbind (parse_elf d input) (\<lambda>e. phase3_init e IMAGE_BASE HEADER_RESERVE IOS_PAGE)) of
        Inl e \<Rightarrow> (fs, Inl e)
      | Inr t \<Rightarrow> translate4 t fs tmp output shim_install_name install_name shim_prefix min_ios)"

text \<open>Phase 3 runs on the temporary file, so Phase 4 has two targets.\<close>

interpretation t4: file_op "\<lambda>fs. translate4 t fs tmp dest shim install prefix v" "{tmp, dest}"
  for t tmp dest shim install prefix v
proof unfold_locales
  fix p fs assume p: "p \<notin> {tmp, dest}"
  obtain fs' r where t: "translate3 t (write_bytes fs tmp []) tmp shim install prefix v = (fs', r)"
    by (cases "translate3 t (write_bytes fs tmp []) tmp shim install prefix v")
  have "fst (translate3 t (write_bytes fs tmp []) tmp shim install prefix v) p = write_bytes fs tmp [] p"
    by (rule t3.frame) (use p in simp)
  then have "fs' p = fs p" using p by (simp add: t write_bytes_apply)
  then show "fst (translate4 t fs tmp dest shim install prefix v) p = fs p"
    using p by (cases r) (auto simp: translate4_def t unlink_def write_bytes_apply split: sum.splits)
qed

interpretation p4: file_op "\<lambda>fs. translate_phase4 fs tmp input dest shim install prefix v" "{tmp, dest}"
  for tmp input dest shim install prefix v
  by unfold_locales (auto simp: translate_phase4_def t4.frame split: sum.splits)

end
