(* ===== verification/Phase3_Layout.thy ===== *)
theory Phase3_Layout
  imports Phase3
begin

section \<open>The layout of Phase 3\<close>

text \<open>
  The segments of Phase 3 at the constant slide: pages, file order and the address lookup, which is an
  \<open>address_map\<close> like that of Phase 2.
\<close>

definition segment_placed :: "int \<Rightarrow> int \<Rightarrow> program_header \<Rightarrow> image_segment \<Rightarrow> bool" where
  "segment_placed slide page ph seg \<longleftrightarrow>
     page dvd is_vmaddr seg \<and> page dvd is_vmsize seg \<and> page dvd is_fileoff seg
     \<and> is_fileoff seg \<le> is_data_fileoff seg
     \<and> is_data_addr seg = slide + p_vaddr ph
     \<and> is_data_addr seg - is_vmaddr seg = is_data_fileoff seg - is_fileoff seg
     \<and> is_data_fileoff seg - is_fileoff seg + p_memsz ph \<le> is_vmsize seg
     \<and> is_filesize seg = is_data_fileoff seg - is_fileoff seg + p_filesz ph
     \<and> is_elf_vaddr seg = p_vaddr ph \<and> is_elf_offset seg = p_offset ph
     \<and> is_elf_filesz seg = p_filesz ph \<and> is_elf_memsz seg = p_memsz ph \<and> is_data_size seg = p_filesz ph"

abbreviation segment_file_region :: "image_segment \<Rightarrow> int \<times> int" where
  "segment_file_region seg \<equiv> (is_fileoff seg, is_filesize seg)"

lemma first_segment_placed:
  assumes "pow2 page" and "page dvd base" and "0 \<le> reserve" and "p_vaddr ph = 0"
  shows "segment_placed (base + reserve) page ph (first_segment base reserve page ph)"
  using assms align_bounds[OF assms(1), of "reserve + p_memsz ph"]
  by (simp add: segment_placed_def first_segment_def)

lemma other_segment_placed:
  assumes "pow2 page"
  shows "segment_placed slide page ph (other_segment slide page cursor i ph)"
  using floor_to_bounds[OF assms, of "slide + p_vaddr ph"] align_bounds[OF assms]
  by (simp add: segment_placed_def other_segment_def Let_def)

lemma other_segments_placed:
  "pow2 page \<Longrightarrow> list_all2 (segment_placed slide page) phs (other_segments slide page cursor i phs)"
  by (induction phs arbitrary: cursor i) (auto simp: Let_def other_segment_placed)

lemma other_segment_fileoff [simp]: "is_fileoff (other_segment slide page cursor i ph) = align cursor page"
  by (simp add: other_segment_def Let_def)

lemma other_segments_ordered:
  assumes "pow2 page" and "\<forall>ph \<in> set phs. 0 \<le> p_filesz ph"
  shows "\<exists>b. regions_ordered cursor (map segment_file_region (other_segments slide page cursor i phs)) b"
  using assms(2)
proof (induction phs arbitrary: cursor i)
  case Nil
  then show ?case by auto
next
  case (Cons ph phs)
  let ?seg = "other_segment slide page cursor i ph"
  let ?stop = "is_fileoff ?seg + is_filesize ?seg"
  obtain b where b: "regions_ordered (align ?stop page)
      (map segment_file_region (other_segments slide page (align ?stop page) (i + 1) phs)) b"
    using Cons.IH[of "align ?stop page" "i + 1"] Cons.prems by auto
  have "regions_ordered ?stop
      (map segment_file_region (other_segments slide page (align ?stop page) (i + 1) phs)) b"
    by (rule regions_ordered_mono[OF b]) (simp_all add: align_bounds(1)[OF assms(1)])
  moreover have "0 \<le> is_filesize ?seg"
    using other_segment_placed[OF assms(1), of slide ph cursor i] Cons.prems by (simp add: segment_placed_def)
  ultimately show ?case
    using align_bounds(1)[OF assms(1), of cursor] by (intro exI[of _ b]) (simp add: Let_def)
qed

lemma layout_segments_Inr:
  assumes "layout_segments e base reserve page = Inr segs"
  obtains first rest where "pt_loads e = first # rest" and "p_vaddr first = 0" and "p_flags first AND 1 \<noteq> 0"
    and "segs = first_segment base reserve page first
      # other_segments (base + reserve) page (align (is_filesize (first_segment base reserve page first)) page) 1 rest"
  using assms by (auto simp: layout_segments_def pt_loads_def Let_def split: list.splits if_splits)

text \<open>What the errors of \<open>_layout_segments\<close> mean.\<close>

lemma layout_segments_error:
  "layout_segments e base reserve page = Inl x \<longleftrightarrow>
     (case pt_loads e of [] \<Rightarrow> x = Phase3Error No_Pt_Load
      | first # _ \<Rightarrow> (p_vaddr first \<noteq> 0 \<or> p_flags first AND 1 = 0) \<and> x = Phase3Error First_Load_Not_Rx_At_Zero)"
  by (auto simp: layout_segments_def pt_loads_def Let_def split: list.splits)

lemma layout_segments_placed:
  assumes "pow2 page" and "page dvd base" and "0 \<le> reserve" and "layout_segments e base reserve page = Inr segs"
  shows "list_all2 (segment_placed (base + reserve) page) (pt_loads e) segs"
  using assms(4)
  by (rule layout_segments_Inr)
    (simp add: first_segment_placed[OF assms(1-3)] other_segments_placed[OF assms(1)])

lemma segments_end_ge:
  assumes "pow2 page" and "seg \<in> set segs"
  shows "is_fileoff seg + is_filesize seg \<le> segments_end page segs"
proof -
  have "align (is_fileoff seg + is_filesize seg) page \<le> segments_end page segs"
    unfolding segments_end_def by (rule max_list_ge) (use assms in auto)
  then show ?thesis using align_bounds(1)[OF assms(1), of "is_fileoff seg + is_filesize seg"] by linarith
qed

text \<open>The file regions of the segments follow each other, from the start of the file.\<close>

lemma layout_segments_ordered:
  assumes "pow2 page" and "0 \<le> reserve" and "elf_wf e" and "layout_segments e base reserve page = Inr segs"
  shows "regions_ordered 0 (map segment_file_region segs) (segments_end page segs)"
proof -
  obtain first rest where l: "pt_loads e = first # rest"
    "segs = first_segment base reserve page first
      # other_segments (base + reserve) page (align (is_filesize (first_segment base reserve page first)) page) 1 rest"
    by (rule layout_segments_Inr[OF assms(4)])
  let ?f = "first_segment base reserve page first"
  let ?os = "other_segments (base + reserve) page (align (is_filesize ?f) page) 1 rest"
  have sz: "\<forall>ph \<in> set (first # rest). 0 \<le> p_filesz ph"
    using pt_loads_ok[OF assms(3)] unfolding l(1)[symmetric] by (auto simp: phdr_ok_def)
  obtain b where b: "regions_ordered (align (is_filesize ?f) page) (map segment_file_region ?os) b"
    using other_segments_ordered[OF assms(1), where phs = rest and cursor = "align (is_filesize ?f) page"
      and slide = "base + reserve" and i = 1] sz by auto
  have "regions_ordered (is_filesize ?f) (map segment_file_region ?os) b"
    by (rule regions_ordered_mono[OF b]) (simp_all add: align_bounds(1)[OF assms(1)])
  then have r: "regions_ordered 0 (map segment_file_region segs) b"
    using sz assms(2) by (simp add: l(2)) (simp add: first_segment_def)
  have "0 \<le> is_filesize ?f" using sz assms(2) by (simp add: first_segment_def)
  then have "0 \<le> segments_end page segs"
    using segments_end_ge[OF assms(1), of ?f segs] by (simp add: l(2)) (simp add: first_segment_def)
  then show ?thesis
    using segments_end_ge[OF assms(1)] by (intro regions_ordered_limit[OF r]) auto
qed

subsection \<open>The lookup\<close>

text \<open>The image offset \<open>_location\<close> finds; the lookup that \<open>translate\<close> writes through.\<close>

definition output_offset :: "image_segment list \<Rightarrow> int \<Rightarrow> int result" where
  "output_offset segs vaddr = rmap (\<lambda>(_, p, _). p) (location 0 0 segs vaddr)"

lemma location_Inr:
  assumes "location slide i segs v = Inr (j, p, q)"
  shows "\<exists>seg. i \<le> j \<and> j < i + int (length segs) \<and> seg = segs ! nat (j - i) \<and> find (segment_covers v) segs = Some seg
    \<and> is_elf_vaddr seg \<le> v \<and> v < is_elf_vaddr seg + is_elf_filesz seg
    \<and> p = is_data_fileoff seg + (v - is_elf_vaddr seg) \<and> q = slide + v - is_vmaddr seg"
  using assms
proof (induction segs arbitrary: i)
  case (Cons seg segs)
  show ?case
  proof (cases "segment_covers v seg")
    case True
    then show ?thesis using Cons.prems by (auto simp: segment_covers_def Let_def)
  next
    case False
    then have "location slide (i + 1) segs v = Inr (j, p, q)" using Cons.prems by simp
    from Cons.IH[OF this] obtain s where j: "i + 1 \<le> j" "j < i + 1 + int (length segs)"
      "s = segs ! nat (j - (i + 1))"
      and s: "find (segment_covers v) segs = Some s"
      "is_elf_vaddr s \<le> v" "v < is_elf_vaddr s + is_elf_filesz s"
      "p = is_data_fileoff s + (v - is_elf_vaddr s)" "q = slide + v - is_vmaddr s"
      by blast
    have "nat (j - i) = Suc (nat (j - (i + 1)))" using j(1) by linarith
    then have "(seg # segs) ! nat (j - i) = segs ! nat (j - (i + 1))" by (simp only: nth_Cons_Suc)
    moreover have "find (segment_covers v) (seg # segs) = Some s" using False s(1) by simp
    ultimately have "i \<le> j \<and> j < i + int (length (seg # segs)) \<and> s = (seg # segs) ! nat (j - i)
        \<and> find (segment_covers v) (seg # segs) = Some s"
      using j by simp
    then show ?thesis using s by blast
  qed
qed simp

lemma location_Inl:
  "location slide i segs v = Inl x \<longleftrightarrow>
     x = Phase3Error (Target_Not_File_Backed v) \<and> (\<forall>seg \<in> set segs. \<not> segment_covers v seg)"
  by (induction segs arbitrary: i) (auto simp: Let_def)

text \<open>Only the third component depends on the slide, only the first on the start index.\<close>

lemma location_offset: "rmap (\<lambda>(_, p, _). p) (location slide i segs v) = output_offset segs v"
proof -
  have "rmap (\<lambda>(_, p, _). p) (location s i segs v) = rmap (\<lambda>(_, p, _). p) (location s' i' segs v)" for s s' i i'
    by (induction segs arbitrary: i i') (auto simp: Let_def)
  then show ?thesis by (simp add: output_offset_def)
qed

lemma location_output_offset:
  "location slide i segs v = Inr (j, p, q) \<Longrightarrow> output_offset segs v = Inr p"
  using location_offset[of slide i segs v] by simp

interpretation p3: address_map is_elf_vaddr is_elf_filesz is_data_fileoff output_offset
proof (unfold_locales, goal_cases)
  case (1 ss v p)
  then obtain j q where "location 0 0 ss v = Inr (j, p, q)"
    by (cases "location 0 0 ss v") (auto simp: output_offset_def)
  from location_Inr[OF this] show ?case by (auto simp: find_Some_iff)
next
  case (2 s ss v)
  then have "segment_covers v s" by (simp add: segment_covers_def)
  then obtain r where "location 0 0 ss v = Inr r"
    using 2(1) location_Inl[of 0 0 ss v] by (cases "location 0 0 ss v") auto
  then show ?case by (auto simp: output_offset_def split: prod.split)
qed

text \<open>The segments' bytes lie behind the reserved header.\<close>

lemma layout_segments_p3_placed:
  assumes "pow2 page" and "page dvd base" and "0 \<le> reserve" and "elf_wf e"
    and "layout_segments e base reserve page = Inr segs"
  shows "p3.placed reserve segs (segments_end page segs)"
proof -
  obtain first rest where l: "pt_loads e = first # rest" "p_vaddr first = 0"
    "segs = first_segment base reserve page first
      # other_segments (base + reserve) page (align (is_filesize (first_segment base reserve page first)) page) 1 rest"
    by (rule layout_segments_Inr[OF assms(5)])
  let ?f = "first_segment base reserve page first"
  let ?os = "other_segments (base + reserve) page (align (is_filesize ?f) page) 1 rest"
  have f: "is_data_fileoff ?f = reserve" "is_elf_filesz ?f = p_filesz first" "is_fileoff ?f = 0"
    "is_filesize ?f = reserve + p_filesz first" by (simp_all add: first_segment_def)
  have sz: "0 \<le> p_filesz ph" if "ph \<in> set (first # rest)" for ph
    using pt_loads_ok[OF assms(4), of ph] that unfolding l(1)[symmetric] by (simp add: phdr_ok_def)
  have ord: "regions_ordered (reserve + p_filesz first) (map segment_file_region ?os) (segments_end page segs)"
    using layout_segments_ordered[OF assms(1,3-5)] by (simp add: l(3)) (simp add: f)
  have ins: "is_fileoff s \<le> is_data_fileoff s \<and> 0 \<le> is_elf_filesz s
      \<and> is_data_fileoff s + is_elf_filesz s \<le> is_fileoff s + is_filesize s" if s: "s \<in> set ?os" for s
  proof -
    obtain ph where "ph \<in> set rest" "segment_placed (base + reserve) page ph s"
      using list_all2_elem[OF other_segments_placed[OF assms(1)] s] by blast
    then show ?thesis using sz by (simp add: segment_placed_def)
  qed
  have "regions_ordered (reserve + p_filesz first)
      (map (\<lambda>s. (is_data_fileoff s, is_elf_filesz s)) ?os) (segments_end page segs)"
    by (rule regions_ordered_shrink[OF _ ord order_refl]) (simp add: list.rel_map list_all2_same ins)
  then have "regions_ordered reserve ((reserve, p_filesz first)
      # map (\<lambda>s. (is_data_fileoff s, is_elf_filesz s)) ?os) (segments_end page segs)"
    using sz[of first] by simp
  moreover have "map (\<lambda>s. (is_data_fileoff s, is_elf_filesz s)) segs
      = (reserve, p_filesz first) # map (\<lambda>s. (is_data_fileoff s, is_elf_filesz s)) ?os"
    unfolding l(3) by (simp only: list.map f)
  ultimately show ?thesis unfolding p3.placed_def by simp
qed

end
