(* ===== verification/Phase3_Relocs.thy ===== *)
theory Phase3_Relocs
  imports Phase3_Layout
begin

section \<open>The relocation loop of Phase 3 refines the relocation rules\<close>

text \<open>
  One iteration of the loop of \<open>phase3.py\<close> patches the slot as the relocation rules say and records its
  place for the rebase stream, or records a binding. The image after a run is the sequence of
  patches of \<open>Relocs\<close>, exactly as in Phase 2, so that the two phases agree on every slot.
\<close>

definition place3 :: "image_segment list \<Rightarrow> int \<Rightarrow> int" where
  "place3 segs v = (case output_offset segs v of Inr p \<Rightarrow> p | Inl _ \<Rightarrow> -1)"

text \<open>The segment index and the offset in the segment of an address.\<close>

definition spot3 :: "phase3 \<Rightarrow> int \<Rightarrow> int \<times> int" where
  "spot3 t v = (case location (p3_slide t) 0 (p3_segments t) v of Inr (i, _, q) \<Rightarrow> (i, q) | Inl _ \<Rightarrow> (-1, -1))"

text \<open>The binding an import leads to when its slot holds \<open>existing\<close>.\<close>

definition import_binding :: "phase3 \<Rightarrow> elf_symbol list \<Rightarrow> pystr \<Rightarrow> bytes \<Rightarrow> relocation \<Rightarrow> binding" where
  "import_binding t syms prefix img r =
     mk_binding prefix (syms ! nat (rel_sym r)) r (fst (spot3 t (rel_offset r))) (snd (spot3 t (rel_offset r)))
       (case read_u64 img (place3 (p3_segments t) (rel_offset r)) of Inr v \<Rightarrow> v | Inl _ \<Rightarrow> 0)"

definition located3 :: "phase3 \<Rightarrow> relocation \<Rightarrow> bool" where
  "located3 t r \<longleftrightarrow> location (p3_slide t) 0 (p3_segments t) (rel_offset r)
     = Inr (fst (spot3 t (rel_offset r)), place3 (p3_segments t) (rel_offset r), snd (spot3 t (rel_offset r)))
     \<and> output_offset (p3_segments t) (rel_offset r) = Inr (place3 (p3_segments t) (rel_offset r))"

lemma located3I:
  "location (p3_slide t) 0 (p3_segments t) (rel_offset r) = Inr x \<Longrightarrow> located3 t r"
  by (cases x) (auto simp: located3_def place3_def spot3_def dest: location_output_offset)

definition step_effect3 ::
  "phase3 \<Rightarrow> elf_symbol list \<Rightarrow> pystr \<Rightarrow> relocation \<Rightarrow> p3_state \<Rightarrow> p3_state \<Rightarrow> bool" where
  "step_effect3 t syms prefix r st st' \<longleftrightarrow>
     known_reloc syms r \<and> located3 t r
     \<and> u64.patches (t_image st) (reloc_patches (place3 (p3_segments t)) (p3_slide t) syms [r]) = Inr (t_image st')
     \<and> n_relative (t_patched st') = n_relative (t_patched st) + count_kind syms R_AARCH64_RELATIVE [r]
     \<and> n_abs64 (t_patched st') = n_abs64 (t_patched st) + count_kind syms R_AARCH64_ABS64 [r]
     \<and> n_glob_dat (t_patched st') = n_glob_dat (t_patched st) + count_kind syms R_AARCH64_GLOB_DAT [r]
     \<and> n_jump_slot (t_patched st') = n_jump_slot (t_patched st) + count_kind syms R_AARCH64_JUMP_SLOT [r]
     \<and> t_rebases st' = t_rebases st @ map (\<lambda>r. spot3 t (rel_offset r)) (filter (\<lambda>r. \<not> is_import syms r) [r])
     \<and> t_bindings st' = t_bindings st @ map (import_binding t syms prefix (t_image st)) (filter (is_import syms) [r])"

lemma reloc_step3_effect:
  assumes step: "reloc_step3 t syms prefix st r = Inr st'"
    and dst0: "0 \<le> place3 (p3_segments t) (rel_offset r)"
  shows "step_effect3 t syms prefix r st st'"
proof -
  obtain x where "location (p3_slide t) 0 (p3_segments t) (rel_offset r) = Inr x"
    using step by (auto simp: reloc_step3_def result_iff)
  then have lc: "located3 t r" by (rule located3I)
  define i where "i = fst (spot3 t (rel_offset r))"
  define dst where "dst = place3 (p3_segments t) (rel_offset r)"
  define q where "q = snd (spot3 t (rel_offset r))"
  have loc: "location (p3_slide t) 0 (p3_segments t) (rel_offset r) = Inr (i, dst, q)"
    using lc by (simp add: located3_def i_def dst_def q_def)
  have pos: "0 \<le> dst" using dst0 by (simp add: dst_def)
  have spot: "spot3 t (rel_offset r) = (i, q)" by (simp add: i_def q_def)
  note patch = write_is_patch[OF pos, of "t_image st"]
  note eff = step_effect3_def lc known_reloc_def reloc_patch_def dst_def[symmetric] spot
  consider (rel) "rel_type r = R_AARCH64_RELATIVE"
    | (imp) "is_import syms r"
    | (def) "rel_type r \<in> set symbol_relocs" "rel_sym r < int (length syms)" "\<not> is_import syms r"
    using step loc by (auto simp: reloc_step3_def is_import_def Let_def split: if_splits)
  then show ?thesis
  proof cases
    case rel
    then obtain img where "write_u64 (t_image st) dst (mask64 (p3_slide t + rel_addend r)) = Inr img"
      and "st' = st\<lparr>t_image := img, t_rebases := t_rebases st @ [(i, q)],
        t_patched := (t_patched st)\<lparr>n_relative := n_relative (t_patched st) + 1\<rparr>\<rparr>"
      using step loc by (auto simp: reloc_step3_def result_iff Let_def)
    then show ?thesis using rel patch by (simp add: eff is_import_def)
  next
    case imp
    then obtain existing where ex: "read_u64 (t_image st) dst = Inr existing"
      and "st' = st\<lparr>t_bindings := t_bindings st @ [mk_binding prefix (syms ! nat (rel_sym r)) r i q existing]\<rparr>"
      using step loc by (auto simp: reloc_step3_def is_import_def Let_def result_iff split: if_splits)
    moreover have "import_binding t syms prefix (t_image st) r = mk_binding prefix (syms ! nat (rel_sym r)) r i q existing"
      using ex by (simp add: import_binding_def spot dst_def)
    ultimately show ?thesis using imp by (auto simp: eff is_import_def)
  next
    case def
    let ?sym = "syms ! nat (rel_sym r)"
    have defd: "st_shndx ?sym \<noteq> SHN_UNDEF" "rel_type r \<noteq> R_AARCH64_RELATIVE" "\<not> int (length syms) \<le> rel_sym r"
      using def by (auto simp: is_import_def)
    show ?thesis
    proof (cases "rel_type r = R_AARCH64_ABS64")
      case True
      then obtain old img where "read_u64 (t_image st) dst = Inr old"
        and "write_u64 (t_image st) dst (mask64 (p3_slide t + st_value ?sym + rel_addend r + old)) = Inr img"
        and "st' = st\<lparr>t_image := img, t_rebases := t_rebases st @ [(i, q)],
          t_patched := (t_patched st)\<lparr>n_abs64 := n_abs64 (t_patched st) + 1\<rparr>\<rparr>"
        using step loc def defd by (auto simp: reloc_step3_def result_iff Let_def)
      then show ?thesis using True patch def defd by (simp add: eff)
    next
      case False
      then obtain img where w: "write_u64 (t_image st) dst (mask64 (p3_slide t + st_value ?sym + rel_addend r)) = Inr img"
        and st': "st' = st\<lparr>t_image := img, t_rebases := t_rebases st @ [(i, q)], t_patched :=
          (if rel_type r = R_AARCH64_GLOB_DAT
           then (t_patched st)\<lparr>n_glob_dat := n_glob_dat (t_patched st) + 1\<rparr>
           else (t_patched st)\<lparr>n_jump_slot := n_jump_slot (t_patched st) + 1\<rparr>)\<rparr>"
        using step loc def defd by (auto simp: reloc_step3_def result_iff Let_def split: if_splits)
      have "rel_type r = R_AARCH64_GLOB_DAT \<or> rel_type r = R_AARCH64_JUMP_SLOT"
        using False def(1) by (auto simp: symbol_relocs_def)
      then show ?thesis using False patch def defd w st' by (auto simp: eff)
    qed
  qed
qed

text \<open>A whole run of the loop.\<close>

definition run_effect3 ::
  "phase3 \<Rightarrow> elf_symbol list \<Rightarrow> pystr \<Rightarrow> relocation list \<Rightarrow> p3_state \<Rightarrow> p3_state \<Rightarrow> bool" where
  "run_effect3 t syms prefix rs st st' \<longleftrightarrow>
     (\<forall>r \<in> set rs. known_reloc syms r \<and> located3 t r)
     \<and> u64.patches (t_image st) (reloc_patches (place3 (p3_segments t)) (p3_slide t) syms rs) = Inr (t_image st')
     \<and> n_relative (t_patched st') = n_relative (t_patched st) + count_kind syms R_AARCH64_RELATIVE rs
     \<and> n_abs64 (t_patched st') = n_abs64 (t_patched st) + count_kind syms R_AARCH64_ABS64 rs
     \<and> n_glob_dat (t_patched st') = n_glob_dat (t_patched st) + count_kind syms R_AARCH64_GLOB_DAT rs
     \<and> n_jump_slot (t_patched st') = n_jump_slot (t_patched st) + count_kind syms R_AARCH64_JUMP_SLOT rs
     \<and> t_rebases st' = t_rebases st @ map (\<lambda>r. spot3 t (rel_offset r)) (filter (\<lambda>r. \<not> is_import syms r) rs)
     \<and> (\<exists>bs. t_bindings st' = t_bindings st @ bs
          \<and> list_all2 (\<lambda>r b. \<exists>img. b = import_binding t syms prefix img r) (filter (is_import syms) rs) bs)"

lemma relocate3_effect:
  assumes "foldM_r (reloc_step3 t syms prefix) st rs = Inr st'"
    and "p3.placed a (p3_segments t) b" and "0 \<le> a"
  shows "run_effect3 t syms prefix rs st st'"
  using assms(1)
proof (rule foldM_r_history[where P = "\<lambda>done st'. run_effect3 t syms prefix done st st'"])
  show "run_effect3 t syms prefix [] st st" by (simp add: run_effect3_def)
next
  fix "done" st1 r st2
  assume run: "run_effect3 t syms prefix done st st1"
    and step: "reloc_step3 t syms prefix st1 r = Inr st2"
  obtain x where "location (p3_slide t) 0 (p3_segments t) (rel_offset r) = Inr x"
    using step by (auto simp: reloc_step3_def result_iff)
  then have "located3 t r" by (rule located3I)
  then have "0 \<le> place3 (p3_segments t) (rel_offset r)"
    using p3.locate_bounds(1)[OF assms(2)] assms(3) by (fastforce simp: located3_def)
  from reloc_step3_effect[OF step this]
  have eff: "step_effect3 t syms prefix r st1 st2" .
  have "u64.patches (t_image st) (reloc_patches (place3 (p3_segments t)) (p3_slide t) syms (done @ [r])) = Inr (t_image st2)"
    unfolding reloc_patches_append patches_append
    using run eff by (simp add: run_effect3_def step_effect3_def)
  moreover have "\<exists>bs. t_bindings st2 = t_bindings st @ bs
      \<and> list_all2 (\<lambda>r b. \<exists>img. b = import_binding t syms prefix img r) (filter (is_import syms) (done @ [r])) bs"
  proof -
    obtain bs where bs: "t_bindings st1 = t_bindings st @ bs"
      "list_all2 (\<lambda>r b. \<exists>img. b = import_binding t syms prefix img r) (filter (is_import syms) done) bs"
      using run by (auto simp: run_effect3_def)
    let ?new = "map (import_binding t syms prefix (t_image st1)) (filter (is_import syms) [r])"
    have "list_all2 (\<lambda>r b. \<exists>img. b = import_binding t syms prefix img r) (filter (is_import syms) [r]) ?new"
      by auto
    from list_all2_appendI[OF bs(2) this] show ?thesis
      using bs(1) eff by (intro exI[of _ "bs @ ?new"]) (simp add: step_effect3_def)
  qed
  ultimately show "run_effect3 t syms prefix (done @ [r]) st st2"
    using run eff unfolding run_effect3_def step_effect3_def by simp
qed

text \<open>With slots that do not overlap every binding sees the contents its slot has in the ELF file.\<close>

lemma relocate3_bindings:
  assumes "foldM_r (reloc_step3 t syms prefix) st rs = Inr st'"
    and "p3.placed a (p3_segments t) b" and "0 \<le> a"
    and "sorted_wrt (\<lambda>r q. apart 8 (place3 (p3_segments t) (rel_offset r)) (place3 (p3_segments t) (rel_offset q))) rs"
  shows "t_bindings st' = t_bindings st @ map (import_binding t syms prefix (t_image st)) (filter (is_import syms) rs)"
proof -
  let ?place = "\<lambda>r. place3 (p3_segments t) (rel_offset r)"
  let ?P = "\<lambda>done s. run_effect3 t syms prefix done st s
    \<and> t_bindings s = t_bindings st @ map (import_binding t syms prefix (t_image st)) (filter (is_import syms) done)"
  have "?P rs st'"
    using assms(1)
  proof (rule foldM_r_prefix[where P = ?P])
    show "?P [] st" by (simp add: run_effect3_def)
  next
    fix "done" r rest st1 st2
    assume rs: "rs = done @ r # rest" and run: "?P done st1" and step: "reloc_step3 t syms prefix st1 r = Inr st2"
    have "foldM_r (reloc_step3 t syms prefix) st1 [r] = Inr st2" using step by simp
    from relocate3_effect[OF this assms(2,3)] have one: "run_effect3 t syms prefix [r] st1 st2" .
    obtain x where "location (p3_slide t) 0 (p3_segments t) (rel_offset r) = Inr x"
      using step by (auto simp: reloc_step3_def result_iff)
    then have lc: "located3 t r" by (rule located3I)
    then have pos: "0 \<le> ?place r"
      using p3.locate_bounds(1)[OF assms(2)] assms(3) by (fastforce simp: located3_def)
    have nn: "0 \<le> ?place q" if "q \<in> set done" for q
      using run that p3.locate_bounds(1)[OF assms(2)] assms(3) by (fastforce simp: run_effect3_def located3_def)
    have "\<forall>q \<in> set done. apart 8 (?place q) (?place r)"
      using assms(4) unfolding rs by (auto simp: sorted_wrt_append)
    then have "read_u64 (t_image st1) (?place r) = read_u64 (t_image st) (?place r)"
      using run nn pos
      by (intro u64.patches_other[of "t_image st" "reloc_patches (place3 (p3_segments t)) (p3_slide t) syms done"])
        (auto simp: run_effect3_def set_reloc_patches)
    then have same: "import_binding t syms prefix (t_image st1) r = import_binding t syms prefix (t_image st) r"
      by (simp add: import_binding_def)
    have "step_effect3 t syms prefix r st1 st2" by (rule reloc_step3_effect[OF step pos])
    then have "t_bindings st2 = t_bindings st @ map (import_binding t syms prefix (t_image st)) (filter (is_import syms) (done @ [r]))"
      using run same by (auto simp: step_effect3_def)
    moreover have "foldM_r (reloc_step3 t syms prefix) st (done @ [r]) = Inr st2 \<Longrightarrow> run_effect3 t syms prefix (done @ [r]) st st2"
      by (rule relocate3_effect[OF _ assms(2,3)])
    moreover have "run_effect3 t syms prefix (done @ [r]) st st2"
      using run one by (auto simp: run_effect3_def reloc_patches_append patches_append intro: list_all2_appendI)
    ultimately show "?P (done @ [r]) st2" by blast
  qed
  then show ?thesis by blast
qed

end
