(* ===== verification/Load_Commands.thy ===== *)
theory Load_Commands
  imports Macho
begin

section \<open>Reading a Mach-O header back\<close>

text \<open>
  What a loader finds in an image: a reader for the header and the list of load commands, which
  walks from one command to the next by the declared \<open>cmdsize\<close>, and views of the segment
  commands, the dyld information and the symbol table. It is the specification the header pages of the translators are checked against: the
  commands they emit are framed, so the walk returns exactly those commands in order.
\<close>

fun walk_commands :: "nat \<Rightarrow> bytes \<Rightarrow> bytes list option" where
  "walk_commands 0 b = Some []"
| "walk_commands (Suc n) b =
     (let sz = nat (le_int (take 4 (drop 4 b)))
      in if sz < 8 \<or> length b < sz then None
         else map_option (Cons (take sz b)) (walk_commands n (drop sz b)))"

definition command_id :: "bytes \<Rightarrow> int" where
  "command_id c = le_int (take 4 c)"

text \<open>A command that starts with its number and its own length.\<close>

definition framed :: "int \<Rightarrow> bytes \<Rightarrow> bool" where
  "framed cmd c \<longleftrightarrow> 8 \<le> length c \<and> command_id c = cmd \<and> le_int (take 4 (drop 4 c)) = int (length c)"

text \<open>The file type and the load commands of an image; \<open>None\<close> for a malformed header.\<close>

definition header_codes64 :: "code list" where
  "header_codes64 = [C_I, C_i, C_i, C_I, C_I, C_I, C_I, C_I]"

definition read_macho :: "bytes \<Rightarrow> (int \<times> int \<times> bytes list) option" where
  "read_macho img =
     (case unpack_from header_codes64 img 0 of
        Inr [U32 magic, I32 cpu, I32 sub, U32 filetype, U32 ncmds, U32 sizeofcmds, U32 fl, U32 _] \<Rightarrow>
          if magic \<noteq> MH_MAGIC_64 \<or> cpu \<noteq> CPU_TYPE_ARM64 \<or> int (length img) < 32 + sizeofcmds then None
          else map_option (\<lambda>cs. (filetype, fl, cs))
                 (walk_commands (nat ncmds) (take (nat sizeofcmds) (drop 32 img)))
      | _ \<Rightarrow> None)"

lemma walk_commands_concat:
  assumes "list_all (\<lambda>c. \<exists>cmd. framed cmd c) cs"
  shows "walk_commands (length cs) (concat cs @ rest) = Some cs"
  using assms
proof (induction cs)
  case (Cons c cs)
  then have "8 \<le> length c" "le_int (take 4 (drop 4 (c @ concat cs @ rest))) = int (length c)"
    by (auto simp: framed_def)
  then show ?case using Cons by (simp add: Let_def)
qed simp

text \<open>A list of items that packs is in range, up to the length of its strings.\<close>

lemma pack_items_ok:
  "pack xs = Inr p \<Longrightarrow> (\<And>s. S16 s \<in> set xs \<Longrightarrow> length s = 16) \<Longrightarrow> \<forall>x \<in> set xs. item_ok x"
proof (induction xs arbitrary: p)
  case (Cons x xs)
  then obtain b q where "pack_item x = Inr b" "pack xs = Inr q" by (auto simp: pack_Cons result_iff)
  then show ?case using Cons pack_item_range[of x b] by auto
qed simp

lemma read_macho_commands:
  assumes "mach_header ft (int (length cs)) (int (length (concat cs))) fl = Inr h"
    and "list_all (\<lambda>c. \<exists>cmd. framed cmd c) cs" and "img = h @ concat cs @ rest"
  shows "read_macho img = Some (ft, fl, cs)"
proof -
  let ?items = "header_items ft (int (length cs)) (int (length (concat cs))) fl"
  have p: "pack ?items = Inr h" using assms(1) by (simp add: mach_header_def)
  have "\<forall>x \<in> set ?items. item_ok x"
    by (rule pack_items_ok[OF p]) (auto simp: header_items_def)
  moreover have "map code_of ?items = header_codes64"
    by (simp add: header_items_def header_codes64_def)
  ultimately have u: "unpack_from header_codes64 img 0 = Inr ?items"
    using unpack_from_packed[of ?items h img "[]" "concat cs @ rest" 0] p assms(3) by simp
  have "int (length img) \<ge> 32 + int (length (concat cs))" "take (length (concat cs)) (drop 32 img) = concat cs"
    using mach_header_length[OF assms(1)] assms(3) by simp_all
  then show ?thesis
    using walk_commands_concat[OF assms(2), of "[]"]
    by (simp add: read_macho_def u header_items_def del: length_concat)
qed

subsection \<open>The builders frame their commands\<close>

lemma pack_framed:
  assumes "pack (U32 cmd # U32 sz # xs) = Inr p" and "sz = int (length (p @ rest))"
  shows "framed cmd (p @ rest)"
proof -
  obtain a b q where ab: "pack_item (U32 cmd) = Inr a" "pack_item (U32 sz) = Inr b" and p: "p = a @ b @ q"
    using assms(1) by (auto simp: pack_Cons result_iff)
  have a: "a = le_bytes 4 cmd" "0 \<le> cmd" "cmd < 256 ^ 4"
    using ab(1) by (auto simp: pack_unsigned_def split: if_splits)
  have b: "b = le_bytes 4 sz" "0 \<le> sz" "sz < 256 ^ 4"
    using ab(2) by (auto simp: pack_unsigned_def split: if_splits)
  have "take 4 (p @ rest) = a" "take 4 (drop 4 (p @ rest)) = b" "8 \<le> length (p @ rest)"
    using p a(1) b(1) by simp_all
  moreover have "le_int a = cmd" "le_int b = sz"
    using a b le_int_le_bytes by blast+
  ultimately show ?thesis using assms(2) by (simp add: framed_def command_id_def)
qed

lemma segment_framed:
  assumes "pack (segment_items sz nm va vs fo fsz mp ip ns) = Inr p" and "sz = int (length (p @ rest))"
  shows "framed LC_SEGMENT_64 (p @ rest)"
  using assms(1) unfolding segment_items_def by (rule pack_framed[OF _ assms(2)])

lemma dylib_framed: "dylib_command cmd nm = Inr c \<Longrightarrow> framed cmd c"
  by (erule dylib_command_Inr) (metis pack_framed)

lemma build_version_framed:
  assumes "build_version_command v = Inr c"
  shows "framed LC_BUILD_VERSION c"
proof -
  have "pack [U32 LC_BUILD_VERSION, U32 24, U32 PLATFORM_IOS, U32 (encode_version v), U32 (encode_version v), U32 0] = Inr c"
    using assms by (simp add: build_version_command_def Let_def)
  from pack_framed[OF this, of "[]"] show ?thesis using build_version_command_length[OF assms] by simp
qed

subsection \<open>Segments\<close>

definition segment_codes :: "code list" where
  "segment_codes = [C_I, C_I, C_16s, C_Q, C_Q, C_Q, C_Q, C_i, C_i, C_I, C_I]"

text \<open>Name, address, memory size, file offset, file size and protections of a segment command.\<close>

type_synonym segment_view = "bytes \<times> int \<times> int \<times> int \<times> int \<times> int \<times> int"

definition view_segment :: "bytes \<Rightarrow> segment_view option" where
  "view_segment c =
     (case unpack_from segment_codes c 0 of
        Inr [U32 cmd, U32 _, S16 nm, U64 va, U64 vs, U64 fo, U64 fsz, I32 mp, I32 ip, U32 _, U32 _] \<Rightarrow>
          if cmd = LC_SEGMENT_64 then Some (nm, va, vs, fo, fsz, mp, ip) else None
      | _ \<Rightarrow> None)"

text \<open>The segments an image declares, in order.\<close>

definition image_segments :: "bytes \<Rightarrow> segment_view list option" where
  "image_segments img =
     (case read_macho img of None \<Rightarrow> None
      | Some (_, _, cs) \<Rightarrow> Some (List.map_filter view_segment (filter (\<lambda>c. command_id c = LC_SEGMENT_64) cs)))"

lemma view_segment_packed:
  assumes "pack (segment_items cs nm va vs fo fsz mp ip ns) = Inr p" and "length nm = 16"
  shows "view_segment (p @ rest) = Some (nm, va, vs, fo, fsz, mp, ip)"
proof -
  let ?items = "segment_items cs nm va vs fo fsz mp ip ns"
  have "\<forall>x \<in> set ?items. item_ok x"
    by (rule pack_items_ok[OF assms(1)]) (use assms(2) in \<open>auto simp: segment_items_def\<close>)
  moreover have "map code_of ?items = segment_codes"
    by (simp add: segment_items_def segment_codes_def)
  ultimately have "unpack_from segment_codes (p @ rest) 0 = Inr ?items"
    using unpack_from_packed[of ?items p "p @ rest" "[]" rest 0] assms(1) by simp
  then show ?thesis by (simp add: view_segment_def segment_items_def)
qed

lemma header_page_read:
  assumes "header_page err fl reserve cs img = Inr img'" and "reserve \<le> int (length img)"
    and "list_all (\<lambda>c. \<exists>cmd. framed cmd c) cs"
  shows "read_macho img' = Some (MH_DYLIB, fl, cs)"
proof -
  obtain h where "mach_header MH_DYLIB (int (length cs)) (int (length (concat cs))) fl = Inr h"
    and "img' = h @ concat cs @ drop (32 + length (concat cs)) img"
    by (rule header_page_Inr[OF assms(1,2)])
  then show ?thesis by (intro read_macho_commands[OF _ assms(3)])
qed

subsection \<open>The dyld information\<close>

text \<open>The offsets and sizes of \<open>LC_DYLD_INFO_ONLY\<close>: rebase, bind, weak bind, lazy bind and export.\<close>

definition dyld_codes :: "code list" where
  "dyld_codes = replicate 12 C_I"

definition view_dyld_info :: "bytes \<Rightarrow> (int \<times> int \<times> int \<times> int \<times> int \<times> int) option" where
  "view_dyld_info c =
     (case unpack_from dyld_codes c 0 of
        Inr [U32 _, U32 _, U32 ro, U32 rs, U32 bo, U32 bs, U32 _, U32 _, U32 _, U32 _, U32 eo, U32 es] \<Rightarrow>
          Some (ro, rs, bo, bs, eo, es)
      | _ \<Rightarrow> None)"

definition image_dyld_info :: "bytes \<Rightarrow> (int \<times> int \<times> int \<times> int \<times> int \<times> int) option" where
  "image_dyld_info img =
     (case read_macho img of None \<Rightarrow> None
      | Some (_, _, cs) \<Rightarrow>
          (case find (\<lambda>c. command_id c = LC_DYLD_INFO_ONLY) cs of None \<Rightarrow> None | Some c \<Rightarrow> view_dyld_info c))"

text \<open>The symbol table command: offset and number of the symbols, offset and size of the string table.\<close>

definition symtab_codes :: "code list" where
  "symtab_codes = replicate 6 C_I"

definition view_symtab :: "bytes \<Rightarrow> (int \<times> int \<times> int \<times> int) option" where
  "view_symtab c =
     (case unpack_from symtab_codes c 0 of
        Inr [U32 _, U32 _, U32 symoff, U32 nsyms, U32 stroff, U32 strsize] \<Rightarrow> Some (symoff, nsyms, stroff, strsize)
      | _ \<Rightarrow> None)"

definition image_symtab :: "bytes \<Rightarrow> (int \<times> int \<times> int \<times> int) option" where
  "image_symtab img =
     (case read_macho img of None \<Rightarrow> None
      | Some (_, _, cs) \<Rightarrow>
          (case find (\<lambda>c. command_id c = LC_SYMTAB) cs of None \<Rightarrow> None | Some c \<Rightarrow> view_symtab c))"

text \<open>A range of the image.\<close>

definition image_range :: "bytes \<Rightarrow> int \<Rightarrow> int \<Rightarrow> bytes" where
  "image_range img off sz = take (nat sz) (drop (nat off) img)"

end
