(* ===== verification/Phase3_Correct.thy ===== *)
theory Phase3_Correct
  imports Phase3_Relocs Load_Commands
begin

section \<open>What Phase 3 writes\<close>

text \<open>
  The output image of Phase 3 in closed form: the linked image, the two opcode streams in \<open>__LINKEDIT\<close> and
  the header page over its front.
\<close>

definition phase3_wf :: "phase3 \<Rightarrow> bool" where
  "phase3_wf t \<longleftrightarrow> pow2 (p3_page t) \<and> p3_page t dvd p3_base t \<and> 0 \<le> p3_reserve t \<and> elf_wf (p3_elf t)
     \<and> p3_slide t = p3_base t + p3_reserve t
     \<and> layout_segments (p3_elf t) (p3_base t) (p3_reserve t) (p3_page t) = Inr (p3_segments t)"

definition segments_in_file :: "phase3 \<Rightarrow> bool" where
  "segments_in_file t \<longleftrightarrow>
     (\<forall>s \<in> set (p3_segments t). is_elf_offset s + is_elf_filesz s \<le> int (length (edata (p3_elf t))))"

lemma phase3_init_wf:
  assumes "phase3_init e base reserve page = Inr t" and "elf_wf e" and "pow2 page" and "page dvd base" and "0 \<le> reserve"
  shows "phase3_wf t" "p3_elf t = e" "p3_slide t = base + reserve" "p3_page t = page" "p3_base t = base"
    "p3_reserve t = reserve" "e_machine (ehdr e) = EM_AARCH64" "e_type (ehdr e) = ET_DYN"
  using assms by (auto simp: phase3_init_def phase3_wf_def result_iff split: if_splits)

abbreviation image_end :: "phase3 \<Rightarrow> int" where
  "image_end t \<equiv> segments_end (p3_page t) (p3_segments t)"

lemma phase3_wf_placed: "phase3_wf t \<Longrightarrow> p3.placed (p3_reserve t) (p3_segments t) (image_end t)"
  by (auto simp: phase3_wf_def intro: layout_segments_p3_placed)

lemma phase3_wf_end: "phase3_wf t \<Longrightarrow> p3_reserve t \<le> image_end t" "phase3_wf t \<Longrightarrow> 0 \<le> p3_reserve t"
  using phase3_wf_placed[of t] unfolding p3.placed_def by (auto dest: regions_ordered_le simp: phase3_wf_def)

lemma phase3_wf_segment:
  assumes "phase3_wf t" and "s \<in> set (p3_segments t)"
  shows "\<exists>ph \<in> set (pt_loads (p3_elf t)). segment_placed (p3_slide t) (p3_page t) ph s"
    and "0 \<le> is_elf_offset s" "0 \<le> is_elf_filesz s" "0 \<le> is_elf_vaddr s"
proof -
  have "list_all2 (segment_placed (p3_slide t) (p3_page t)) (pt_loads (p3_elf t)) (p3_segments t)"
    using layout_segments_placed[of "p3_page t" "p3_base t" "p3_reserve t" "p3_elf t" "p3_segments t"] assms(1)
    by (simp add: phase3_wf_def)
  from list_all2_elem[OF this assms(2)] obtain ph where ph: "ph \<in> set (pt_loads (p3_elf t))"
    "segment_placed (p3_slide t) (p3_page t) ph s" by blast
  then show "\<exists>ph \<in> set (pt_loads (p3_elf t)). segment_placed (p3_slide t) (p3_page t) ph s" by blast
  have "phdr_ok ph" using pt_loads_ok[OF _ ph(1)] assms(1) by (simp add: phase3_wf_def)
  then show "0 \<le> is_elf_offset s" "0 \<le> is_elf_filesz s" "0 \<le> is_elf_vaddr s"
    using ph(2) by (simp_all add: phdr_ok_def segment_placed_def)
qed

subsection \<open>The copied segments\<close>

lemma segment_regions_in_file:
  "phase3_wf t \<Longrightarrow> segments_in_file t \<Longrightarrow>
     \<forall>r \<in> set (map segment_region (p3_segments t)). region_in_file (edata (p3_elf t)) r"
  using phase3_wf_segment by (auto simp: segments_in_file_def region_in_file_def segment_region_def)

lemma length_copy_segments:
  assumes "phase3_wf t" and "segments_in_file t"
  shows "int (length (copy_segments t)) = image_end t"
proof -
  have "\<forall>r \<in> set (map segment_region (p3_segments t)). region_in_file (edata (p3_elf t)) r \<and> 0 \<le> fst r
      \<and> fst r + snd (snd r) \<le> int (length (zeros (image_end t)))"
    using segment_regions_in_file[OF assms] p3.placed_bounds[OF phase3_wf_placed[OF assms(1)]]
      phase3_wf_end[OF assms(1)]
    by (fastforce simp: segment_region_def)
  from copy_regions_length[OF this] show ?thesis
    using phase3_wf_end[OF assms(1)] by (simp add: copy_segments_def)
qed

lemma nth_copy_segments:
  assumes "phase3_wf t" and "segments_in_file t" and "s \<in> set (p3_segments t)" and "0 \<le> k" and "k < is_elf_filesz s"
  shows "copy_segments t ! nat (is_data_fileoff s + k) = edata (p3_elf t) ! nat (is_elf_offset s + k)"
  unfolding copy_segments_def
proof (rule copy_regions_content)
  show "regions_ordered (p3_reserve t) (map dst_region (map segment_region (p3_segments t))) (int (length (zeros (image_end t))))"
    using phase3_wf_placed[OF assms(1)] phase3_wf_end[OF assms(1)]
    by (simp add: p3.placed_def segment_region_def comp_def)
  show "0 \<le> p3_reserve t" by (rule phase3_wf_end(2)[OF assms(1)])
  show "(is_data_fileoff s, is_elf_offset s, is_elf_filesz s) \<in> set (map segment_region (p3_segments t))"
    using assms(3) by (force simp: segment_region_def)
qed (use segment_regions_in_file[OF assms(1,2)] assms in auto)

subsection \<open>The link-edit segment\<close>

text \<open>Writing into a tail of zeros.\<close>

lemma assign_into_zeros:
  assumes "0 \<le> g" and "g + int (length ys) \<le> n" and "i = int (length pre) + g" and "j = i + int (length ys)"
  shows "py_slice_assign (pre @ zeros n) i j ys = pre @ zeros g @ ys @ zeros (n - g - int (length ys))"
proof -
  have z: "zeros n = zeros g @ zeros (n - g)"
    using assms(1,2) by (simp add: zeros_def flip: replicate_add nat_add_distrib)
  have "py_slice_assign ((pre @ zeros g) @ zeros (n - g)) i j ys = (pre @ zeros g) @ ys @ drop (length ys) (zeros (n - g))"
    by (rule py_slice_assign_behind) (use assms in auto)
  moreover have "drop (length ys) (zeros (n - g)) = zeros (n - g - int (length ys))"
    using assms(1,2) by (simp add: zeros_def nat_diff_distrib)
  ultimately show ?thesis by (simp add: z)
qed

definition linkedit_ok :: "linkedit \<Rightarrow> int \<Rightarrow> int \<Rightarrow> int \<Rightarrow> bool" where
  "linkedit_ok k image_size rebase_size bind_size \<longleftrightarrow>
     image_size \<le> k_fileoff k \<and> k_rebase_off k = k_fileoff k \<and> k_rebase_off k + rebase_size \<le> k_bind_off k
     \<and> k_bind_off k < k_rebase_off k + rebase_size + 8 \<and> 8 dvd k_bind_off k
     \<and> k_bind_off k + bind_size = k_fileoff k + k_size k \<and> k_fileoff k + k_size k \<le> k_final_size k"

lemma mk_linkedit_ok:
  assumes "pow2 page" and "0 \<le> image_size"
  shows "linkedit_ok (mk_linkedit page segs image_size rebase_size bind_size) image_size rebase_size bind_size"
    and "page dvd k_fileoff (mk_linkedit page segs image_size rebase_size bind_size)"
    and "page dvd k_final_size (mk_linkedit page segs image_size rebase_size bind_size)"
    and "page dvd k_vmaddr (mk_linkedit page segs image_size rebase_size bind_size)"
proof -
  have p8: "pow2 8" by (rule pow2I[of _ 3]) simp
  show "linkedit_ok (mk_linkedit page segs image_size rebase_size bind_size) image_size rebase_size bind_size"
    "page dvd k_fileoff (mk_linkedit page segs image_size rebase_size bind_size)"
    "page dvd k_final_size (mk_linkedit page segs image_size rebase_size bind_size)"
    "page dvd k_vmaddr (mk_linkedit page segs image_size rebase_size bind_size)"
    using align_bounds[OF assms(1)] align_bounds[OF p8]
    by (simp_all add: linkedit_ok_def mk_linkedit_def Let_def)
qed

lemma link_image_eq:
  assumes "linkedit_ok k (int (length img)) (int (length rebases)) (int (length binds))"
  shows "link_image k img rebases binds =
    img @ zeros (k_fileoff k - int (length img)) @ rebases
      @ zeros (k_bind_off k - k_rebase_off k - int (length rebases)) @ binds
      @ zeros (k_final_size k - k_bind_off k - int (length binds))"
proof -
  define a where "a = k_fileoff k - int (length img)"
  define b where "b = k_bind_off k - k_rebase_off k - int (length rebases)"
  note ok = assms[unfolded linkedit_ok_def]
  have "py_slice_assign (zeros (k_final_size k)) 0 (int (length img)) img
    = img @ zeros (k_final_size k - int (length img))"
    using assign_into_zeros[of 0 img "k_final_size k" 0 "[]" "int (length img)"] ok by (simp add: zeros_def)
  moreover have "py_slice_assign (img @ zeros (k_final_size k - int (length img))) (k_rebase_off k)
      (k_rebase_off k + int (length rebases)) rebases
    = (img @ zeros a @ rebases) @ zeros (k_final_size k - k_rebase_off k - int (length rebases))"
    using ok by (subst assign_into_zeros[where g = a]) (simp_all add: a_def algebra_simps)
  moreover have "py_slice_assign ((img @ zeros a @ rebases) @ zeros (k_final_size k - k_rebase_off k - int (length rebases)))
      (k_bind_off k) (k_bind_off k + int (length binds)) binds
    = (img @ zeros a @ rebases) @ zeros b @ binds @ zeros (k_final_size k - k_bind_off k - int (length binds))"
    using ok by (subst assign_into_zeros[where g = b]) (simp_all add: a_def b_def algebra_simps)
  ultimately show ?thesis by (simp add: link_image_def Let_def a_def b_def)
qed

lemma length_link_image:
  assumes "linkedit_ok k (int (length img)) (int (length rebases)) (int (length binds))"
  shows "int (length (link_image k img rebases binds)) = k_final_size k"
  using assms unfolding link_image_eq[OF assms] by (simp add: linkedit_ok_def)

lemma nth_link_image:
  assumes "linkedit_ok k (int (length img)) (int (length rebases)) (int (length binds))" and "i < length img"
  shows "link_image k img rebases binds ! i = img ! i"
  using assms(2) unfolding link_image_eq[OF assms(1)] by (simp add: nth_append)

lemma range_link_image:
  assumes "linkedit_ok k (int (length img)) (int (length rebases)) (int (length binds))"
  shows "image_range (link_image k img rebases binds) (k_rebase_off k) (int (length rebases)) = rebases"
    and "image_range (link_image k img rebases binds) (k_bind_off k) (int (length binds)) = binds"
proof -
  define a where "a = k_fileoff k - int (length img)"
  define b where "b = k_bind_off k - k_rebase_off k - int (length rebases)"
  define c where "c = k_final_size k - k_bind_off k - int (length binds)"
  note ok = assms[unfolded linkedit_ok_def]
  have eq: "link_image k img rebases binds = (img @ zeros a) @ rebases @ zeros b @ binds @ zeros c"
    "link_image k img rebases binds = (img @ zeros a @ rebases @ zeros b) @ binds @ zeros c"
    using link_image_eq[OF assms] by (simp_all add: a_def b_def c_def)
  have "nat (k_rebase_off k) = length (img @ zeros a)"
    using ok by (simp add: a_def nat_eq_iff)
  then show "image_range (link_image k img rebases binds) (k_rebase_off k) (int (length rebases)) = rebases"
    unfolding image_range_def eq(1) by simp
  have "nat (k_bind_off k) = length (img @ zeros a @ rebases @ zeros b)"
    using ok by (simp add: a_def b_def nat_eq_iff)
  then show "image_range (link_image k img rebases binds) (k_bind_off k) (int (length binds)) = binds"
    unfolding image_range_def eq(2) by simp
qed

text \<open>Ranges above a point where two images agree are the same.\<close>

lemma image_range_cong:
  assumes "length a = length b" and "0 \<le> p" and "\<And>k. p \<le> int k \<Longrightarrow> k < length b \<Longrightarrow> a ! k = b ! k"
  shows "image_range a p n = image_range b p n"
  unfolding image_range_def by (rule nth_equalityI) (use assms in auto)

subsection \<open>The commands\<close>

lemma segment_with_data_section_view:
  assumes "segment_with_data_section seg = Inr c"
  obtains nm where "name16 (is_name seg) = Inr nm" and "framed LC_SEGMENT_64 c" and "length c = 232"
    and "view_segment c = Some (nm, is_vmaddr seg, is_vmsize seg, is_fileoff seg, is_filesize seg,
           is_protection seg, is_protection seg)"
proof -
  let ?items = "\<lambda>nm. segment_items 232 nm (is_vmaddr seg) (is_vmsize seg) (is_fileoff seg) (is_filesize seg)
    (is_protection seg) (is_protection seg) 2"
  from assms obtain nm sn p q r where nm: "name16 (is_name seg) = Inr nm" and p: "pack (?items nm) = Inr p"
    and q: "pack (section_items (pad16 (map byte_of (lit ''__segstart''))) nm (is_vmaddr seg) 0 (is_fileoff seg) 0 0) = Inr q"
    and r: "pack (section_items sn nm (is_data_addr seg) (is_data_size seg) (is_data_fileoff seg) 3 0) = Inr r"
    and c: "c = p @ q @ r"
    by (auto simp: segment_with_data_section_def result_iff Let_def)
  have len: "length c = 232"
    using pack_length[OF p] pack_length[OF q] pack_length[OF r] by (simp add: c)
  have "framed LC_SEGMENT_64 c"
    using segment_framed[OF p, of "q @ r"] len by (simp add: c)
  moreover have "view_segment c = Some (nm, is_vmaddr seg, is_vmsize seg, is_fileoff seg, is_filesize seg,
           is_protection seg, is_protection seg)"
    using view_segment_packed[OF p name16_length[OF nm], of "q @ r"] by (simp add: c)
  ultimately show thesis using that nm len by blast
qed

lemma segment_no_sections_view:
  assumes "segment_no_sections nm va vs fo fsz prot = Inr c"
  obtains nm16 where "name16 nm = Inr nm16" and "framed LC_SEGMENT_64 c"
    and "view_segment c = Some (nm16, va, vs, fo, fsz, prot, prot)"
proof -
  from assms obtain nm16 where nm: "name16 nm = Inr nm16"
    and p: "pack (segment_items 72 nm16 va vs fo fsz prot prot 0) = Inr c"
    by (auto simp: segment_no_sections_def result_iff)
  show thesis
    using that nm segment_framed[OF p, of "[]"] pack_length[OF p] view_segment_packed[OF p name16_length[OF nm], of "[]"]
    by simp
qed

lemma dyld_info_view:
  assumes "dyld_info_command ro rs bo bs eo es = Inr c"
  shows "framed LC_DYLD_INFO_ONLY c" "view_dyld_info c = Some (ro, rs, bo, bs, eo, es)" "length c = 48"
proof -
  let ?items = "[U32 LC_DYLD_INFO_ONLY, U32 48, U32 ro, U32 rs, U32 bo, U32 bs, U32 0, U32 0, U32 0, U32 0, U32 eo, U32 es]"
  have p: "pack ?items = Inr c" using assms by (simp add: dyld_info_command_def)
  show len: "length c = 48" using pack_length[OF p] by simp
  show "framed LC_DYLD_INFO_ONLY c" using pack_framed[OF p, of "[]"] len by simp
  have ok: "\<forall>x \<in> set ?items. item_ok x" by (rule pack_items_ok[OF p]) simp
  have "map code_of ?items = dyld_codes" by (simp add: dyld_codes_def numeral_eq_Suc)
  then have "unpack_from dyld_codes c 0 = Inr ?items"
    using unpack_from_packed[OF ok p, of c "[]" "[]" 0] by simp
  then show "view_dyld_info c = Some (ro, rs, bo, bs, eo, es)" by (simp add: view_dyld_info_def)
qed

text \<open>What a loader sees of a segment, and the commands of a linked image in order.\<close>

definition segment_view_of :: "image_segment \<Rightarrow> segment_view option" where
  "segment_view_of seg = (case name16 (is_name seg) of Inl _ \<Rightarrow> None
     | Inr nm \<Rightarrow> Some (nm, is_vmaddr seg, is_vmsize seg, is_fileoff seg, is_filesize seg, is_protection seg, is_protection seg))"

definition linkedit_view :: "int \<Rightarrow> int \<Rightarrow> int \<Rightarrow> int \<Rightarrow> segment_view option" where
  "linkedit_view page va fo sz = (case name16 (lit ''__LINKEDIT'') of Inl _ \<Rightarrow> None
     | Inr nm \<Rightarrow> Some (nm, va, align sz page, fo, sz, VM_PROT_READ, VM_PROT_READ))"

lemma linked_commands_view:
  assumes "linked_commands page segs va fo sz shim install v (dyld_info_command ro rs bo bs eo es) = Inr cs"
  shows "list_all (\<lambda>c. \<exists>cmd. framed cmd c) cs"
    and "map command_id cs = replicate (length segs + 1) LC_SEGMENT_64
      @ [LC_LOAD_DYLIB, LC_ID_DYLIB, LC_BUILD_VERSION, LC_DYLD_INFO_ONLY]"
    and "map view_segment (filter (\<lambda>c. command_id c = LC_SEGMENT_64) cs)
      = map segment_view_of segs @ [linkedit_view page va fo sz]"
    and "view_dyld_info (last cs) = Some (ro, rs, bo, bs, eo, es)" and "cs \<noteq> []"
    and "find (\<lambda>c. command_id c = LC_DYLD_INFO_ONLY) cs = Some (last cs)"
proof -
  from assms obtain ss cl c1 c2 cv cd where ss: "list_all2 (\<lambda>x y. segment_with_data_section x = Inr y) segs ss"
    and cl: "segment_no_sections (lit ''__LINKEDIT'') va (align sz page) fo sz VM_PROT_READ = Inr cl"
    and c1: "dylib_command LC_LOAD_DYLIB shim = Inr c1" and c2: "dylib_command LC_ID_DYLIB install = Inr c2"
    and cv: "build_version_command v = Inr cv" and cd: "dyld_info_command ro rs bo bs eo es = Inr cd"
    and cs: "cs = ss @ [cl, c1, c2, cv, cd]"
    by (auto simp: linked_commands_def result_iff mapM_r_Inr_iff)
  have f: "framed LC_LOAD_DYLIB c1" "framed LC_ID_DYLIB c2" "framed LC_BUILD_VERSION cv" "framed LC_DYLD_INFO_ONLY cd"
    using dylib_framed[OF c1] dylib_framed[OF c2] build_version_framed[OF cv] dyld_info_view(1)[OF cd] by blast+
  obtain nm16 where l: "framed LC_SEGMENT_64 cl" "view_segment cl = linkedit_view page va fo sz"
    by (rule segment_no_sections_view[OF cl]) (simp add: linkedit_view_def)
  have one: "framed LC_SEGMENT_64 c \<and> view_segment c = segment_view_of seg" if "segment_with_data_section seg = Inr c" for seg c
    by (rule segment_with_data_section_view[OF that]) (simp add: segment_view_of_def)
  have s: "list_all (framed LC_SEGMENT_64) ss \<and> map view_segment ss = map segment_view_of segs \<and> length ss = length segs"
    using ss by (induction rule: list_all2_induct) (auto dest: one)
  have "list_all (framed LC_SEGMENT_64) ss \<Longrightarrow> map command_id ss = replicate (length ss) LC_SEGMENT_64"
    by (induction ss) (auto simp: framed_def)
  then have i: "map command_id ss = replicate (length segs) LC_SEGMENT_64" using s by simp
  have fs: "filter (\<lambda>c. command_id c = LC_SEGMENT_64) ss = ss"
    using s by (auto simp: list_all_iff framed_def intro: filter_True)
  have nf: "find (\<lambda>c. command_id c = LC_DYLD_INFO_ONLY) (ss @ qs) = find (\<lambda>c. command_id c = LC_DYLD_INFO_ONLY) qs" for qs
    using s by (induction ss arbitrary: segs) (auto simp: framed_def macho_consts)
  note ids = f[unfolded framed_def] l(1)[unfolded framed_def]
  show "list_all (\<lambda>c. \<exists>cmd. framed cmd c) cs" using s f l by (auto simp: cs list_all_iff)
  show "map command_id cs = replicate (length segs + 1) LC_SEGMENT_64
      @ [LC_LOAD_DYLIB, LC_ID_DYLIB, LC_BUILD_VERSION, LC_DYLD_INFO_ONLY]"
    using ids i by (simp add: cs replicate_append_same[symmetric])
  show "map view_segment (filter (\<lambda>c. command_id c = LC_SEGMENT_64) cs)
      = map segment_view_of segs @ [linkedit_view page va fo sz]"
    using ids s l(2) fs by (simp add: cs macho_consts)
  show "view_dyld_info (last cs) = Some (ro, rs, bo, bs, eo, es)" "cs \<noteq> []"
    using dyld_info_view(2)[OF cd] by (simp_all add: cs)
  show "find (\<lambda>c. command_id c = LC_DYLD_INFO_ONLY) cs = Some (last cs)"
    unfolding cs nf using ids by (simp add: macho_consts)
qed

subsection \<open>A finished build\<close>

lemma build3_run:
  assumes "phase3_wf t" and "segments_in_file t" and "build3 t shim install prefix v = Inr b"
  obtains syms rels cs where "dynamic_symbols (p3_elf t) = Inr syms" and "iter_relocations (p3_elf t) = Inr rels"
    and "foldM_r (reloc_step3 t syms prefix)
      \<lparr>t_image = copy_segments t, t_rebases = [], t_bindings = [], t_patched = no_patches\<rparr> rels = Inr (f_state b)"
    and "run_effect3 t syms prefix rels
      \<lparr>t_image = copy_segments t, t_rebases = [], t_bindings = [], t_patched = no_patches\<rparr> (f_state b)"
    and "rebase_stream (t_rebases (f_state b)) = Inr (f_rebases b)"
    and "bind_stream (t_bindings (f_state b)) 1 = Inr (f_binds b)"
    and "linkedit_ok (f_link b) (int (length (t_image (f_state b)))) (int (length (f_rebases b))) (int (length (f_binds b)))"
    and "f_link b = mk_linkedit (p3_page t) (p3_segments t) (image_end t) (int (length (f_rebases b))) (int (length (f_binds b)))"
    and "int (length (t_image (f_state b))) = image_end t"
    and "linked_commands (p3_page t) (p3_segments t) (k_vmaddr (f_link b)) (k_fileoff (f_link b)) (k_size (f_link b))
           shim install v (dyld_info_command (k_rebase_off (f_link b)) (int (length (f_rebases b)))
             (k_bind_off (f_link b)) (int (length (f_binds b))) 0 0) = Inr cs"
    and "header_page (Phase3Error Load_Commands_Too_Large) (MH_DYLDLINK OR MH_TWOLEVEL) (p3_reserve t) cs
           (link_image (f_link b) (t_image (f_state b)) (f_rebases b) (f_binds b)) = Inr (f_final b)"
proof -
  let ?st0 = "\<lparr>t_image = copy_segments t, t_rebases = [], t_bindings = [], t_patched = no_patches\<rparr>"
  from assms(3) obtain syms rels st rs bs k cs img where
    s: "dynamic_symbols (p3_elf t) = Inr syms" "iter_relocations (p3_elf t) = Inr rels"
    and f: "foldM_r (reloc_step3 t syms prefix) ?st0 rels = Inr st"
    and r: "rebase_stream (t_rebases st) = Inr rs" "bind_stream (t_bindings st) 1 = Inr bs"
    and k: "k = mk_linkedit (p3_page t) (p3_segments t) (int (length (t_image st))) (int (length rs)) (int (length bs))"
    and cs: "linked_commands (p3_page t) (p3_segments t) (k_vmaddr k) (k_fileoff k) (k_size k) shim install v
      (dyld_info_command (k_rebase_off k) (int (length rs)) (k_bind_off k) (int (length bs)) 0 0) = Inr cs"
    and hp: "header_page (Phase3Error Load_Commands_Too_Large) (MH_DYLDLINK OR MH_TWOLEVEL) (p3_reserve t) cs
      (link_image k (t_image st) rs bs) = Inr img"
    and b: "b = \<lparr>f_state = st, f_rebases = rs, f_binds = bs, f_link = k, f_final = img\<rparr>"
    by (auto simp: build3_def relocate3_def result_iff Let_def)
  note pl = phase3_wf_placed[OF assms(1)] and nn = phase3_wf_end(2)[OF assms(1)]
  have run: "run_effect3 t syms prefix rels ?st0 st" by (rule relocate3_effect[OF f pl nn])
  have "\<forall>p \<in> set (reloc_patches (place3 (p3_segments t)) (p3_slide t) syms rels). 0 \<le> fst p"
    using run p3.locate_bounds(1)[OF pl] nn
    by (fastforce simp: run_effect3_def located3_def set_reloc_patches)
  from u64.patches_msize[OF this, of "copy_segments t" "t_image st"] run
  have len: "int (length (t_image st)) = image_end t"
    using length_copy_segments[OF assms(1,2)] by (simp add: run_effect3_def)
  have "pow2 (p3_page t)" "0 \<le> image_end t"
    using assms(1) phase3_wf_end[OF assms(1)] by (auto simp: phase3_wf_def)
  from mk_linkedit_ok(1)[OF this] have "linkedit_ok k (int (length (t_image st))) (int (length rs)) (int (length bs))"
    unfolding k len .
  then show thesis
    using that[of syms rels cs] s f run r k cs hp len unfolding b by simp
qed

text \<open>Above the header page the file is the linked image.\<close>

lemma build3_final:
  assumes "phase3_wf t" and "segments_in_file t" and "build3 t shim install prefix v = Inr b"
  shows "int (length (f_final b)) = k_final_size (f_link b)"
    and "p3_reserve t \<le> int k \<Longrightarrow> k < length (t_image (f_state b)) \<Longrightarrow> f_final b ! k = t_image (f_state b) ! k"
    and "image_range (f_final b) (k_rebase_off (f_link b)) (int (length (f_rebases b))) = f_rebases b"
    and "image_range (f_final b) (k_bind_off (f_link b)) (int (length (f_binds b))) = f_binds b"
    and "p3_reserve t \<le> k_rebase_off (f_link b)"
    and "length (t_image (f_state b)) \<le> length (f_final b)"
proof -
  let ?k = "f_link b" and ?img = "t_image (f_state b)" and ?rs = "f_rebases b" and ?bs = "f_binds b"
  let ?link = "link_image ?k ?img ?rs ?bs"
  obtain cs where ok: "linkedit_ok ?k (int (length ?img)) (int (length ?rs)) (int (length ?bs))"
    and len: "int (length ?img) = image_end t"
    and hp: "header_page (Phase3Error Load_Commands_Too_Large) (MH_DYLDLINK OR MH_TWOLEVEL) (p3_reserve t) cs ?link
      = Inr (f_final b)"
    by (rule build3_run[OF assms])
  note sz = length_link_image[OF ok] and range = range_link_image[OF ok]
  have fits: "p3_reserve t \<le> int (length ?img)" using len phase3_wf_end(1)[OF assms(1)] by simp
  have big: "int (length ?img) \<le> k_final_size ?k"
    using ok by (simp add: linkedit_ok_def)
  then have "p3_reserve t \<le> int (length ?link)" using fits sz by linarith
  note above = header_page_above[OF hp this]
  show "int (length (f_final b)) = k_final_size ?k" using above(1) sz by simp
  show "length ?img \<le> length (f_final b)" using above(1) sz big by linarith
  show "p3_reserve t \<le> int k \<Longrightarrow> k < length ?img \<Longrightarrow> f_final b ! k = ?img ! k"
    using above(2)[of k] nth_link_image[OF ok] sz big by simp
  show reb: "p3_reserve t \<le> k_rebase_off ?k" using ok fits by (simp add: linkedit_ok_def)
  have res: "0 \<le> p3_reserve t" by (rule phase3_wf_end(2)[OF assms(1)])
  have same: "image_range (f_final b) p n = image_range ?link p n" if "p3_reserve t \<le> p" for p n
    using that above res by (intro image_range_cong) auto
  show "image_range (f_final b) (k_rebase_off ?k) (int (length ?rs)) = ?rs"
    using same[OF reb] range(1) by simp
  have "p3_reserve t \<le> k_bind_off ?k" using reb ok by (simp add: linkedit_ok_def)
  then show "image_range (f_final b) (k_bind_off ?k) (int (length ?bs)) = ?bs"
    using same range(2) by simp
qed

end
