(* ===== verification/Phase3_Success.thy ===== *)
theory Phase3_Success
  imports Phase3_Correct
begin

section \<open>When Phase 3 goes through\<close>

text \<open>
  The conditions under which the relocation loop, the opcode streams and the load commands are all written,
  so that \<open>translate\<close> returns.
\<close>

definition relocs_ready3 :: "phase3 \<Rightarrow> elf_symbol list \<Rightarrow> relocation list \<Rightarrow> bool" where
  "relocs_ready3 t syms rels \<longleftrightarrow> (\<forall>r \<in> set rels. known_reloc syms r
     \<and> p3.slot_inside 8 (p3_segments t) (rel_offset r)
     \<and> (\<exists>s \<in> set (p3_segments t). segment_covers (rel_offset r) s))"

lemma covered_located:
  assumes "s \<in> set (p3_segments t)" and "segment_covers (rel_offset r) s"
  shows "located3 t r"
proof -
  have "\<not> (\<exists>x. location (p3_slide t) 0 (p3_segments t) (rel_offset r) = Inl x)"
    using assms by (auto simp: location_Inl)
  then show ?thesis by (cases "location (p3_slide t) 0 (p3_segments t) (rel_offset r)") (auto intro: located3I)
qed

lemma reloc_step3_progress:
  assumes "known_reloc syms r" and "located3 t r" and "0 \<le> place3 (p3_segments t) (rel_offset r)"
    and "place3 (p3_segments t) (rel_offset r) + 8 \<le> int (length (t_image st))"
  shows "\<exists>st'. reloc_step3 t syms prefix st r = Inr st' \<and> length (t_image st') = length (t_image st)"
proof -
  define p where "p = place3 (p3_segments t) (rel_offset r)"
  have p: "0 \<le> p" "p + 8 \<le> int (length (t_image st))" using assms(3,4) by (simp_all add: p_def)
  obtain i q where loc: "location (p3_slide t) 0 (p3_segments t) (rel_offset r) = Inr (i, p, q)"
    using assms(2) by (auto simp: located3_def p_def)
  have w: "\<exists>img. write_u64 (t_image st) p (mask64 v) = Inr img \<and> length img = length (t_image st)" for v
    using p mask64_range[of v] by (auto simp: write_u64_eq)
  obtain old where old: "read_u64 (t_image st) p = Inr old" using p by (auto simp: read_u64_eq)
  show ?thesis
  proof (cases "rel_type r = R_AARCH64_RELATIVE")
    case True
    then show ?thesis using loc w[of "p3_slide t + rel_addend r"] by (auto simp: reloc_step3_def Let_def)
  next
    case False
    then have "rel_type r \<in> set symbol_relocs" "\<not> int (length syms) \<le> rel_sym r"
      using assms(1) by (auto simp: known_reloc_def)
    then show ?thesis
      using False loc old w[of "p3_slide t + st_value (syms ! nat (rel_sym r)) + rel_addend r"]
        w[of "p3_slide t + st_value (syms ! nat (rel_sym r)) + rel_addend r + old"]
      by (auto simp: reloc_step3_def Let_def)
  qed
qed

lemma relocs_progress3:
  assumes "p3.placed a (p3_segments t) b" and "0 \<le> a" and "int (length (t_image st)) = b"
    and "relocs_ready3 t syms rels"
  shows "\<exists>st'. foldM_r (reloc_step3 t syms prefix) st rels = Inr st'"
  using assms(3,4)
proof (induction rels arbitrary: st)
  case Nil
  then show ?case by simp
next
  case (Cons r rels)
  obtain s where r: "known_reloc syms r" "p3.slot_inside 8 (p3_segments t) (rel_offset r)"
    "s \<in> set (p3_segments t)" "segment_covers (rel_offset r) s"
    using Cons.prems(2) by (auto simp: relocs_ready3_def)
  have lc: "located3 t r" by (rule covered_located[OF r(3,4)])
  then have o: "output_offset (p3_segments t) (rel_offset r) = Inr (place3 (p3_segments t) (rel_offset r))"
    by (simp add: located3_def)
  have "0 \<le> place3 (p3_segments t) (rel_offset r)"
    "place3 (p3_segments t) (rel_offset r) + 8 \<le> int (length (t_image st))"
    using p3.locate_bounds(1)[OF assms(1) o] p3.locate_slot_bounds[OF assms(1) o r(2)] assms(2) Cons.prems(1) by auto
  from reloc_step3_progress[OF r(1) lc this] obtain st1
    where st1: "reloc_step3 t syms prefix st r = Inr st1" "length (t_image st1) = length (t_image st)"
    by blast
  have "\<exists>st'. foldM_r (reloc_step3 t syms prefix) st1 rels = Inr st'"
    by (rule Cons.IH) (use Cons.prems st1 in \<open>auto simp: relocs_ready3_def\<close>)
  then show ?case using st1 by simp
qed

text \<open>A place found by \<open>_location\<close>: its segment, and an offset that is not negative.\<close>

lemma spot3_bounds:
  assumes "phase3_wf t" and "located3 t r"
  shows "0 \<le> fst (spot3 t (rel_offset r))" "fst (spot3 t (rel_offset r)) < int (length (p3_segments t))"
    "0 \<le> snd (spot3 t (rel_offset r))"
    "is_vmaddr (p3_segments t ! nat (fst (spot3 t (rel_offset r)))) + snd (spot3 t (rel_offset r))
      = p3_slide t + rel_offset r"
proof -
  obtain s where s: "0 \<le> fst (spot3 t (rel_offset r))" "fst (spot3 t (rel_offset r)) < int (length (p3_segments t))"
    "s = p3_segments t ! nat (fst (spot3 t (rel_offset r)))" "find (segment_covers (rel_offset r)) (p3_segments t) = Some s"
    "is_elf_vaddr s \<le> rel_offset r" "snd (spot3 t (rel_offset r)) = p3_slide t + rel_offset r - is_vmaddr s"
    using location_Inr[OF assms(2)[unfolded located3_def, THEN conjunct1]] by auto
  have "s \<in> set (p3_segments t)" using s(4) by (auto simp: find_Some_iff)
  then obtain ph where "segment_placed (p3_slide t) (p3_page t) ph s" using phase3_wf_segment(1)[OF assms(1)] by blast
  then have "0 \<le> p3_slide t + is_elf_vaddr s - is_vmaddr s" by (simp add: segment_placed_def)
  then show "0 \<le> fst (spot3 t (rel_offset r))" "fst (spot3 t (rel_offset r)) < int (length (p3_segments t))"
    "0 \<le> snd (spot3 t (rel_offset r))"
    "is_vmaddr (p3_segments t ! nat (fst (spot3 t (rel_offset r)))) + snd (spot3 t (rel_offset r))
      = p3_slide t + rel_offset r"
    using s by simp_all
qed

text \<open>The bindings of a run: where they bind, and under which name.\<close>

lemma run_bindings:
  assumes "run_effect3 t syms prefix rels
      \<lparr>t_image = img, t_rebases = [], t_bindings = [], t_patched = no_patches\<rparr> st" and "item \<in> set (t_bindings st)"
  obtains r where "r \<in> set rels" and "is_import syms r" and "located3 t r"
    and "b_shim_symbol item = prefix @ sym_name (syms ! nat (rel_sym r))"
    and "b_symbol item = sym_name (syms ! nat (rel_sym r))"
    and "(b_segment_index item, b_segment_offset item) = spot3 t (rel_offset r)"
proof -
  obtain bs where bs: "t_bindings st = bs"
    "list_all2 (\<lambda>r b. \<exists>img. b = import_binding t syms prefix img r) (filter (is_import syms) rels) bs"
    using assms(1) by (auto simp: run_effect3_def)
  from list_all2_elem[OF bs(2), of item] assms(2) bs(1)
  obtain r img where "r \<in> set (filter (is_import syms) rels)" "item = import_binding t syms prefix img r"
    by auto
  then show thesis
    using that[of r] assms(1) by (auto simp: run_effect3_def import_binding_def mk_binding_def)
qed

lemma import_symbol_in: "is_import syms r \<Longrightarrow> 0 \<le> rel_sym r \<Longrightarrow> syms ! nat (rel_sym r) \<in> set syms"
  by (auto simp: is_import_def intro!: nth_mem)

text \<open>The streams are written whenever there are at most sixteen segments and the prefix is encodable.\<close>

lemma streams_ok:
  assumes "phase3_wf t" and "length (p3_segments t) \<le> 16" and "list_all is_scalar prefix"
    and "list_all symbol_ok syms" and "list_all reloc_ok rels"
    and "run_effect3 t syms prefix rels
      \<lparr>t_image = img, t_rebases = [], t_bindings = [], t_patched = no_patches\<rparr> st"
  shows "\<exists>rs. rebase_stream (t_rebases st) = Inr rs" "\<exists>bs. bind_stream (t_bindings st) 1 = Inr bs"
proof -
  have reb: "t_rebases st = map (\<lambda>r. spot3 t (rel_offset r)) (filter (\<lambda>r. \<not> is_import syms r) rels)"
    using assms(6) by (simp add: run_effect3_def)
  have "fst loc \<le> 15 \<and> 0 \<le> snd loc" if mem: "loc \<in> set (t_rebases st)" for loc
  proof -
    obtain r where "r \<in> set rels" "loc = spot3 t (rel_offset r)" using mem unfolding reb by auto
    then show ?thesis using spot3_bounds[OF assms(1), of r] assms(2,6) by (auto simp: run_effect3_def)
  qed
  then show "\<exists>rs. rebase_stream (t_rebases st) = Inr rs" by (simp add: rebase_stream_ok)
  have "b_segment_index item \<le> 15 \<and> 0 \<le> b_segment_offset item \<and> list_all is_scalar (b_shim_symbol item)"
    if mem: "item \<in> set (t_bindings st)" for item
  proof -
    obtain r where r: "r \<in> set rels" "is_import syms r" "located3 t r"
      "b_shim_symbol item = prefix @ sym_name (syms ! nat (rel_sym r))"
      "(b_segment_index item, b_segment_offset item) = spot3 t (rel_offset r)"
      using run_bindings[OF assms(6) mem] by blast
    have "0 \<le> rel_sym r" using r(1) assms(5) by (auto simp: list_all_iff reloc_ok_def)
    then have "symbol_ok (syms ! nat (rel_sym r))"
      using import_symbol_in[OF r(2)] assms(4) by (simp add: list_all_iff)
    moreover have "b_segment_index item = fst (spot3 t (rel_offset r))" "b_segment_offset item = snd (spot3 t (rel_offset r))"
      using r(5) by (metis fst_conv, metis snd_conv)
    ultimately show ?thesis using spot3_bounds[OF assms(1) r(3)] assms(2,3) r(4) by (simp add: symbol_ok_def)
  qed
  then show "\<exists>bs. bind_stream (t_bindings st) 1 = Inr bs" by (simp add: bind_stream_ok)
qed

subsection \<open>The load commands fit\<close>

text \<open>Every number of a segment's commands is in the range of its field, and the names are ASCII.\<close>

definition segment_fits :: "image_segment \<Rightarrow> bool" where
  "segment_fits seg \<longleftrightarrow> list_all (\<lambda>c. c < 128) (is_name seg) \<and> list_all (\<lambda>c. c < 128) (is_section_name seg)
     \<and> (\<forall>x \<in> set [U64 (is_vmaddr seg), U64 (is_vmsize seg), U64 (is_fileoff seg), U64 (is_filesize seg),
                    I32 (is_protection seg), U64 (is_data_addr seg), U64 (is_data_size seg),
                    U32 (is_fileoff seg), U32 (is_data_fileoff seg)]. item_ok x)"

text \<open>
  A bound on the bytes of the two streams: \<open>n\<close> relocations against names of at most \<open>l\<close> characters, and the
  alignment between the streams.
\<close>

definition stream_room :: "nat \<Rightarrow> nat \<Rightarrow> int" where
  "stream_room n l = 13 + (37 + 4 * int l) * int n"

definition fits3 :: "phase3 \<Rightarrow> pystr \<Rightarrow> pystr \<Rightarrow> int \<times> int \<times> int \<Rightarrow> int \<Rightarrow> bool" where
  "fits3 t shim install v room \<longleftrightarrow>
     length (p3_segments t) \<le> 16 \<and> list_all segment_fits (p3_segments t)
     \<and> item_ok (U64 (align (max_list (map (\<lambda>x. is_vmaddr x + is_vmsize x) (p3_segments t))) (p3_page t)))
     \<and> image_end t + 3 * p3_page t + room < 2 ^ 32
     \<and> item_ok (U32 (encode_version v)) \<and> p3_reserve t < 2 ^ 32
     \<and> (case (encode_utf8 shim, encode_utf8 install) of
          (Inr a, Inr b) \<Rightarrow> 232 * int (length (p3_segments t)) + 176 + dylib_size a + dylib_size b \<le> p3_reserve t
        | _ \<Rightarrow> False)"

lemma segment_with_data_section_ok:
  assumes "segment_fits seg"
  shows "\<exists>c. segment_with_data_section seg = Inr c \<and> length c = 232"
proof -
  obtain nm sn where nm: "name16 (is_name seg) = Inr nm" "length nm = 16"
    and sn: "name16 (is_section_name seg) = Inr sn" "length sn = 16"
    using name16_ok[of "is_name seg"] name16_ok[of "is_section_name seg"] name16_length assms
    by (auto simp: segment_fits_def)
  have sl: "length (pad16 (map byte_of (lit ''__segstart''))) = 16" by simp
  have "\<forall>x \<in> set (segment_items 232 nm (is_vmaddr seg) (is_vmsize seg) (is_fileoff seg) (is_filesize seg)
      (is_protection seg) (is_protection seg) 2). item_ok x"
    using assms nm by (simp add: segment_items_def segment_fits_def LC_SEGMENT_64_def)
  then obtain p where p: "pack (segment_items 232 nm (is_vmaddr seg) (is_vmsize seg) (is_fileoff seg) (is_filesize seg)
      (is_protection seg) (is_protection seg) 2) = Inr p" using pack_ok by blast
  have "\<forall>x \<in> set (section_items (pad16 (map byte_of (lit ''__segstart''))) nm (is_vmaddr seg) 0 (is_fileoff seg) 0 0). item_ok x"
    using assms nm sl by (simp add: section_items_def segment_fits_def)
  then obtain q where q: "pack (section_items (pad16 (map byte_of (lit ''__segstart''))) nm (is_vmaddr seg) 0 (is_fileoff seg) 0 0) = Inr q"
    using pack_ok by blast
  have "\<forall>x \<in> set (section_items sn nm (is_data_addr seg) (is_data_size seg) (is_data_fileoff seg) 3 0). item_ok x"
    using assms nm sn by (simp add: section_items_def segment_fits_def)
  then obtain r where r: "pack (section_items sn nm (is_data_addr seg) (is_data_size seg) (is_data_fileoff seg) 3 0) = Inr r"
    using pack_ok by blast
  show ?thesis using nm sn p q r pack_length[OF p] pack_length[OF q] pack_length[OF r]
    by (simp add: segment_with_data_section_def Let_def)
qed

lemma segment_no_sections_ok:
  assumes "list_all (\<lambda>c. c < 128) nm" and "\<forall>x \<in> set [U64 va, U64 vs, U64 fo, U64 fsz, I32 prot]. item_ok x"
  shows "\<exists>c. segment_no_sections nm va vs fo fsz prot = Inr c"
proof -
  obtain nm16 where nm: "name16 nm = Inr nm16" "length nm16 = 16"
    using name16_ok[OF assms(1)] name16_length by auto
  have "\<forall>x \<in> set (segment_items 72 nm16 va vs fo fsz prot prot 0). item_ok x"
    using assms nm by (simp add: segment_items_def LC_SEGMENT_64_def)
  then show ?thesis using pack_ok nm by (auto simp: segment_no_sections_def)
qed

lemma linked_commands_ok:
  assumes "list_all segment_fits segs" and "encode_utf8 shim = Inr a" and "encode_utf8 install = Inr b'"
    and "dylib_size a < 2 ^ 32" and "dylib_size b' < 2 ^ 32" and "item_ok (U32 (encode_version v))"
    and "\<forall>x \<in> set [U64 va, U64 (align sz page), U64 fo, U64 sz]. item_ok x"
    and "\<forall>x \<in> set [U32 ro, U32 rs, U32 bo, U32 bs, U32 eo, U32 es]. item_ok x"
  shows "\<exists>cs. linked_commands page segs va fo sz shim install v (dyld_info_command ro rs bo bs eo es) = Inr cs
    \<and> int (length (concat cs)) = 232 * int (length segs) + 144 + dylib_size a + dylib_size b'
    \<and> length cs = length segs + 5"
proof -
  obtain cs where cs: "mapM_r segment_with_data_section segs = Inr cs" "list_all (\<lambda>c. length c = 232) cs"
    using mapM_r_total_good[of segs segment_with_data_section "\<lambda>c. length c = 232"]
      segment_with_data_section_ok assms(1) by (auto simp: list_all_iff)
  obtain cl where cl: "segment_no_sections (lit ''__LINKEDIT'') va (align sz page) fo sz VM_PROT_READ = Inr cl"
    using segment_no_sections_ok[of "lit ''__LINKEDIT''" va "align sz page" fo sz VM_PROT_READ] assms(7)
    by (auto simp: lit_simps VM_PROT_READ_def)
  obtain c1 where c1: "dylib_command LC_LOAD_DYLIB shim = Inr c1" "int (length c1) = dylib_size a"
    using dylib_command_ok[OF assms(2), of LC_LOAD_DYLIB] assms(4) by (auto simp: LC_LOAD_DYLIB_def)
  obtain c2 where c2: "dylib_command LC_ID_DYLIB install = Inr c2" "int (length c2) = dylib_size b'"
    using dylib_command_ok[OF assms(3), of LC_ID_DYLIB] assms(5) by (auto simp: LC_ID_DYLIB_def)
  from build_version_ok[OF assms(6)] obtain cv where cv: "build_version_command v = Inr cv" by blast
  have "\<forall>x \<in> set [U32 LC_DYLD_INFO_ONLY, U32 48, U32 ro, U32 rs, U32 bo, U32 bs, U32 0, U32 0, U32 0, U32 0, U32 eo, U32 es]. item_ok x"
    using assms(8) by (simp add: LC_DYLD_INFO_ONLY_def)
  then obtain cd where cd: "dyld_info_command ro rs bo bs eo es = Inr cd"
    using pack_ok unfolding dyld_info_command_def by blast
  have "length (concat cs) = 232 * length cs" using cs(2) by (induction cs) auto
  then have "int (length (concat (cs @ [cl, c1, c2, cv, cd]))) = 232 * int (length segs) + 144 + dylib_size a + dylib_size b'"
    using c1(2) c2(2) segment_no_sections_length[OF cl] build_version_command_length[OF cv]
      dyld_info_view(3)[OF cd] mapM_r_length[OF cs(1)] by simp
  then show ?thesis
    using cs(1) cl c1(1) c2(1) cv cd mapM_r_length[OF cs(1)] by (simp add: linked_commands_def)
qed

subsection \<open>A build that goes through\<close>

lemma spot3_small:
  assumes "phase3_wf t" and "list_all segment_fits (p3_segments t)" and "located3 t r"
  shows "snd (spot3 t (rel_offset r)) < 2 ^ 64"
proof -
  obtain s where s: "find (segment_covers (rel_offset r)) (p3_segments t) = Some s"
    "rel_offset r < is_elf_vaddr s + is_elf_filesz s"
    "snd (spot3 t (rel_offset r)) = p3_slide t + rel_offset r - is_vmaddr s"
    using location_Inr[OF assms(3)[unfolded located3_def, THEN conjunct1]] by auto
  have mem: "s \<in> set (p3_segments t)" using s(1) by (auto simp: find_Some_iff)
  then obtain ph where "segment_placed (p3_slide t) (p3_page t) ph s" using phase3_wf_segment(1)[OF assms(1)] by blast
  then have "p3_slide t + is_elf_vaddr s - is_vmaddr s + is_elf_filesz s = is_filesize s"
    by (simp add: segment_placed_def)
  moreover have "is_filesize s < 2 ^ 64" using assms(2) mem by (auto simp: list_all_iff segment_fits_def)
  ultimately show ?thesis using s(2,3) by linarith
qed

lemma stream_sizes:
  assumes "phase3_wf t" and "list_all segment_fits (p3_segments t)" and "list_all reloc_ok rels"
    and "\<forall>s \<in> set syms. length prefix + length (sym_name s) \<le> l"
    and "run_effect3 t syms prefix rels
      \<lparr>t_image = img, t_rebases = [], t_bindings = [], t_patched = no_patches\<rparr> st"
    and "rebase_stream (t_rebases st) = Inr rs" and "bind_stream (t_bindings st) 1 = Inr bs"
  shows "int (length rs) + int (length bs) + 8 \<le> stream_room (length rels) l"
proof -
  have reb: "t_rebases st = map (\<lambda>r. spot3 t (rel_offset r)) (filter (\<lambda>r. \<not> is_import syms r) rels)"
    and loc: "\<forall>r \<in> set rels. located3 t r"
    using assms(5) by (simp_all add: run_effect3_def)
  obtain bds where bds: "t_bindings st = bds"
    "list_all2 (\<lambda>r b. \<exists>img. b = import_binding t syms prefix img r) (filter (is_import syms) rels) bds"
    using assms(5) by (auto simp: run_effect3_def)
  have small: "snd (spot3 t (rel_offset r)) < 2 ^ 70" if "r \<in> set rels" for r
    using spot3_small[OF assms(1,2), of r] loc that by simp
  have "\<forall>loc \<in> set (t_rebases st). snd loc < 2 ^ 70"
    unfolding reb using small by auto
  from length_rebase_stream[OF assms(6) this] have r: "length rs \<le> 2 + 12 * length rels"
    unfolding reb length_map using length_filter_le[of "\<lambda>r. \<not> is_import syms r" rels] by linarith
  have "b_segment_offset item < 2 ^ 70 \<and> - (2 ^ 69) \<le> b_addend item \<and> b_addend item < 2 ^ 69
      \<and> length (b_shim_symbol item) \<le> l" if item: "item \<in> set bds" for item
  proof -
    from list_all2_elem[OF bds(2) item] obtain q im where q: "q \<in> set rels" "is_import syms q"
      "item = import_binding t syms prefix im q" by auto
    have ok: "reloc_ok q" using assms(3) q(1) by (simp add: list_all_iff)
    let ?old = "case read_u64 im (place3 (p3_segments t) (rel_offset q)) of Inr v \<Rightarrow> v | Inl _ \<Rightarrow> 0"
    have "0 \<le> ?old \<and> ?old < 2 ^ 64" using read_u64_range by (auto split: sum.split)
    then have "- (2 ^ 69) \<le> b_addend item \<and> b_addend item < 2 ^ 69"
      using ok by (simp add: q(3) import_binding_def mk_binding_def reloc_ok_def)
    moreover have "b_segment_offset item < 2 ^ 70"
      using small[OF q(1)] by (simp add: q(3) import_binding_def mk_binding_def)
    moreover have "syms ! nat (rel_sym q) \<in> set syms"
      using import_symbol_in[OF q(2)] ok by (simp add: reloc_ok_def)
    then have "length (b_shim_symbol item) \<le> l" using assms(4) by (simp add: q(3) import_binding_def mk_binding_def)
    ultimately show ?thesis by blast
  qed
  then have "length bs \<le> 3 + (25 + 4 * l) * length bds"
    using length_bind_stream[OF assms(7)] bds(1) by blast
  also have "length bds \<le> length rels"
    using list_all2_lengthD[OF bds(2)] length_filter_le[of "is_import syms" rels] by simp
  then have "3 + (25 + 4 * l) * length bds \<le> 3 + (25 + 4 * l) * length rels" by simp
  finally have "int (length bs) \<le> int (3 + (25 + 4 * l) * length rels)" by (simp only: of_nat_le_iff)
  then show ?thesis using r by (simp add: stream_room_def algebra_simps)
qed

lemma mk_linkedit_fits:
  assumes "pow2 page" and "0 \<le> image_size" and "0 \<le> rs" and "0 \<le> bs" and "rs + bs + 8 \<le> room"
    and "image_size + 3 * page + room < 2 ^ 32"
    and "item_ok (U64 (align (max_list (map (\<lambda>x. is_vmaddr x + is_vmsize x) segs)) page))"
  defines "k \<equiv> mk_linkedit page segs image_size rs bs"
  shows "\<forall>x \<in> set [U64 (k_vmaddr k), U64 (align (k_size k) page), U64 (k_fileoff k), U64 (k_size k)]. item_ok x"
    and "\<forall>x \<in> set [U32 (k_rebase_off k), U32 rs, U32 (k_bind_off k), U32 bs]. item_ok x"
proof -
  have p: "0 < page" by (rule pow2_pos[OF assms(1)])
  have p8: "pow2 8" by simp
  have v: "k_vmaddr k = align (max_list (map (\<lambda>x. is_vmaddr x + is_vmsize x) segs)) page"
    by (simp add: k_def mk_linkedit_def Let_def)
  have f: "image_size \<le> k_fileoff k" "k_fileoff k < image_size + page" "k_rebase_off k = k_fileoff k"
    using align_bounds[OF assms(1), of image_size] by (simp_all add: k_def mk_linkedit_def Let_def)
  have b: "k_fileoff k + rs \<le> k_bind_off k" "k_bind_off k < k_fileoff k + rs + 8" "k_size k = k_bind_off k - k_fileoff k + bs"
    using align_bounds[OF p8, of "align image_size page + rs"] by (simp_all add: k_def mk_linkedit_def Let_def)
  have s: "k_size k \<le> align (k_size k) page" "align (k_size k) page < k_size k + page"
    using align_bounds[OF assms(1), of "k_size k"] by simp_all
  show "\<forall>x \<in> set [U64 (k_vmaddr k), U64 (align (k_size k) page), U64 (k_fileoff k), U64 (k_size k)]. item_ok x"
    using assms(2-7) p f b s unfolding v by auto
  show "\<forall>x \<in> set [U32 (k_rebase_off k), U32 rs, U32 (k_bind_off k), U32 bs]. item_ok x"
    using assms(2-6) p f b by auto
qed

lemma relocate3_ok:
  assumes "phase3_wf t" and "segments_in_file t"
    and "dynamic_symbols (p3_elf t) = Inr syms" and "iter_relocations (p3_elf t) = Inr rels"
    and "relocs_ready3 t syms rels"
  obtains st where "relocate3 t prefix = Inr st" and "int (length (t_image st)) = image_end t"
    and "run_effect3 t syms prefix rels
      \<lparr>t_image = copy_segments t, t_rebases = [], t_bindings = [], t_patched = no_patches\<rparr> st"
proof -
  let ?st0 = "\<lparr>t_image = copy_segments t, t_rebases = [], t_bindings = [], t_patched = no_patches\<rparr>"
  note pl = phase3_wf_placed[OF assms(1)] and nn = phase3_wf_end(2)[OF assms(1)]
  obtain st where f: "foldM_r (reloc_step3 t syms prefix) ?st0 rels = Inr st"
    using relocs_progress3[OF pl nn, of ?st0 syms rels prefix] length_copy_segments[OF assms(1,2)] assms(5) by auto
  have run: "run_effect3 t syms prefix rels ?st0 st" by (rule relocate3_effect[OF f pl nn])
  have "\<forall>p \<in> set (reloc_patches (place3 (p3_segments t)) (p3_slide t) syms rels). 0 \<le> fst p"
    using run p3.locate_bounds(1)[OF pl] nn by (fastforce simp: run_effect3_def located3_def set_reloc_patches)
  from u64.patches_msize[OF this, of "copy_segments t" "t_image st"] run
  have "int (length (t_image st)) = image_end t"
    using length_copy_segments[OF assms(1,2)] by (simp add: run_effect3_def)
  then show thesis using that f run assms(3,4) by (simp add: relocate3_def)
qed

lemma build3_ok:
  assumes "phase3_wf t" and "segments_in_file t"
    and "dynamic_symbols (p3_elf t) = Inr syms" and "iter_relocations (p3_elf t) = Inr rels"
    and "relocs_ready3 t syms rels" and "list_all is_scalar prefix"
    and "\<forall>s \<in> set syms. length prefix + length (sym_name s) \<le> l"
    and "fits3 t shim install v (stream_room (length rels) l)"
  shows "\<exists>b. build3 t shim install prefix v = Inr b"
proof -
  obtain st where st: "relocate3 t prefix = Inr st" "int (length (t_image st)) = image_end t"
    and run: "run_effect3 t syms prefix rels
      \<lparr>t_image = copy_segments t, t_rebases = [], t_bindings = [], t_patched = no_patches\<rparr> st"
    by (rule relocate3_ok[OF assms(1-5)])
  have wf: "elf_wf (p3_elf t)" "pow2 (p3_page t)" using assms(1) by (simp_all add: phase3_wf_def)
  have so: "list_all symbol_ok syms" "list_all reloc_ok rels"
    using dynamic_symbols_total[OF wf(1)] iter_relocations_total[OF wf(1)] assms(3,4) by auto
  have fit: "length (p3_segments t) \<le> 16" "list_all segment_fits (p3_segments t)"
    "item_ok (U64 (align (max_list (map (\<lambda>x. is_vmaddr x + is_vmsize x) (p3_segments t))) (p3_page t)))"
    "image_end t + 3 * p3_page t + stream_room (length rels) l < 2 ^ 32" "p3_reserve t < 2 ^ 32"
    using assms(8) by (simp_all add: fits3_def)
  obtain rs bs where rb: "rebase_stream (t_rebases st) = Inr rs" "bind_stream (t_bindings st) 1 = Inr bs"
    using streams_ok[OF assms(1) fit(1) assms(6) so run] by blast
  have "0 \<le> int (length (t_image st))" by simp
  then have ie: "0 \<le> image_end t" using st(2) by simp
  define k where "k = mk_linkedit (p3_page t) (p3_segments t) (image_end t) (int (length rs)) (int (length bs))"
  note lk = mk_linkedit_fits[OF wf(2) ie _ _ stream_sizes[OF assms(1) fit(2) so(2) assms(7) run rb] fit(4,3), folded k_def]
  have u: "\<forall>x \<in> set [U32 (k_rebase_off k), U32 (int (length rs)), U32 (k_bind_off k), U32 (int (length bs)), U32 0, U32 0]. item_ok x"
    using lk(2) by simp
  obtain cs where cs: "linked_commands (p3_page t) (p3_segments t) (k_vmaddr k) (k_fileoff k) (k_size k) shim install v
      (dyld_info_command (k_rebase_off k) (int (length rs)) (k_bind_off k) (int (length bs)) 0 0) = Inr cs"
    "32 + int (length (concat cs)) \<le> p3_reserve t" "length cs = length (p3_segments t) + 5"
  proof -
    obtain a b' where ab: "encode_utf8 shim = Inr a" "encode_utf8 install = Inr b'"
      and room: "232 * int (length (p3_segments t)) + 176 + dylib_size a + dylib_size b' \<le> p3_reserve t"
      using assms(8) by (auto simp: fits3_def split: sum.splits)
    have sm: "dylib_size a < 2 ^ 32" "dylib_size b' < 2 ^ 32"
      using room fit(5) dylib_size_bounds(1)[of a] dylib_size_bounds(1)[of b'] by linarith+
    have "item_ok (U32 (encode_version v))" using assms(8) by (simp add: fits3_def)
    from linked_commands_ok[OF fit(2) ab sm this lk(1) u] show thesis using that room by auto
  qed
  have "MH_DYLDLINK OR MH_TWOLEVEL = 0x84" by (simp add: macho_consts)
  then obtain img where "header_page (Phase3Error Load_Commands_Too_Large) (MH_DYLDLINK OR MH_TWOLEVEL) (p3_reserve t) cs
      (link_image k (t_image st) rs bs) = Inr img"
    using header_page_ok[OF cs(2) fit(5)] cs(3) fit(1) by fastforce
  then show ?thesis
    using st rb cs(1) by (simp add: build3_def k_def Let_def)
qed

end
