(* ===== verification/Dyld.thy ===== *)
theory Dyld
  imports Fixups Load_Commands Relocs
begin

section \<open>What dyld does with an image\<close>

text \<open>
  The abstract loader the linked phases are written for. It finds the segments and the dyld
  information through the load commands of the image, runs the rebase program and adds the distance
  \<open>d\<close> between the load address and the preferred address to every pointer the program names, and
  runs the bind program. Nothing here is code of the repository: it is the documented behaviour of
  the consumer, against which the output of \<open>Phase3\<close> is judged.
\<close>

definition segment_fileoff :: "segment_view \<Rightarrow> int" where
  "segment_fileoff s = (case s of (_, _, _, fo, _) \<Rightarrow> fo)"

definition rebase_patches :: "int \<Rightarrow> segment_view list \<Rightarrow> (int \<times> int \<times> int) list \<Rightarrow> (int \<times> (int \<Rightarrow> int)) list" where
  "rebase_patches d segs prog =
     map (\<lambda>(_, seg, off). (segment_fileoff (segs ! nat seg) + off, \<lambda>v. mask64 (v + d))) prog"

definition dyld_rebase :: "int \<Rightarrow> bytes \<Rightarrow> bytes option" where
  "dyld_rebase d img =
     (case (image_dyld_info img, image_segments img) of
        (Some (ro, rs, _), Some segs) \<Rightarrow>
          (case run_rebase 0 0 0 (image_range img ro rs) of
             None \<Rightarrow> None
           | Some prog \<Rightarrow> (case u64.patches img (rebase_patches d segs prog) of Inl _ \<Rightarrow> None | Inr img' \<Rightarrow> Some img'))
      | _ \<Rightarrow> None)"

definition dyld_binds :: "bytes \<Rightarrow> bound list option" where
  "dyld_binds img =
     (case image_dyld_info img of None \<Rightarrow> None
      | Some (_, _, bo, bs, _) \<Rightarrow> run_bind bind_start (image_range img bo bs))"

text \<open>A list of views that are all defined.\<close>

lemma map_filter_defined: "map f xs = map Some ys \<Longrightarrow> List.map_filter f xs = ys"
  by (induction xs arbitrary: ys) (auto simp: map_filter_simps)

text \<open>Rebasing twice adds the distances, and rebasing a value of the rules is the value at the moved slide.\<close>

lemma mask64_shift:
  "mask64 (mask64 a + d) = mask64 (a + d)"
  "mask64 (d + mask64 a) = mask64 (d + a)"
  by (simp_all add: mask64_mod mod_add_left_eq mod_add_right_eq)

lemma reloc_patch_shift:
  assumes "reloc_patch (slide + d) syms r = Some f"
  shows "\<exists>g. reloc_patch slide syms r = Some g \<and> (\<forall>old. f old = mask64 (g old + d))"
  using assms by (auto simp: reloc_patch_def mask64_shift algebra_simps split: if_splits)

end
