(* ===== verification/Phase3_Slots.thy ===== *)
theory Phase3_Slots
  imports Phase3_Success Dyld
begin

section \<open>The slots of a Phase 3 image, before and after dyld rebases it\<close>

text \<open>
  The value every relocated slot holds in the file, the load commands as dyld finds them, and the
  image after dyld has moved it.
\<close>

subsection \<open>In the file\<close>

lemma read_copy_segments:
  assumes "phase3_wf t" and "segments_in_file t" and "s \<in> set (p3_segments t)" and "0 \<le> k" and "k + 8 \<le> is_elf_filesz s"
  shows "read_u64 (copy_segments t) (is_data_fileoff s + k) = read_u64 (edata (p3_elf t)) (is_elf_offset s + k)"
proof (rule read_u64_transfer)
  have pb: "p3_reserve t \<le> is_data_fileoff s" "is_data_fileoff s + is_elf_filesz s \<le> int (length (copy_segments t))"
    using p3.placed_bounds[OF phase3_wf_placed[OF assms(1)] assms(3)] length_copy_segments[OF assms(1,2)] by auto
  then show "0 \<le> is_data_fileoff s + k" "is_data_fileoff s + k + 8 \<le> int (length (copy_segments t))"
    using assms(4,5) phase3_wf_end(2)[OF assms(1)] by linarith+
  have "0 \<le> is_elf_offset s" "is_elf_offset s + is_elf_filesz s \<le> int (length (edata (p3_elf t)))"
    using assms(2,3) phase3_wf_segment(2)[OF assms(1,3)] by (auto simp: segments_in_file_def)
  then show "0 \<le> is_elf_offset s + k" "is_elf_offset s + k + 8 \<le> int (length (edata (p3_elf t)))"
    using assms(4,5) by linarith+
  fix i :: int assume "0 \<le> i" "i < 8"
  then show "copy_segments t ! nat (is_data_fileoff s + k + i) = edata (p3_elf t) ! nat (is_elf_offset s + k + i)"
    using nth_copy_segments[OF assms(1-3), of "k + i"] assms(4,5) by (simp add: add.assoc)
qed

lemma place3_find:
  assumes "find (segment_covers v) segs = Some s"
  shows "output_offset segs v = Inr (is_data_fileoff s + (v - is_elf_vaddr s))"
    and "place3 segs v = is_data_fileoff s + (v - is_elf_vaddr s)"
proof -
  have "\<not> (\<forall>seg \<in> set segs. \<not> segment_covers v seg)"
    using assms by (auto simp: find_Some_iff)
  then have "location 0 0 segs v \<noteq> Inl x" for x by (simp add: location_Inl)
  then obtain i p q where loc: "location 0 0 segs v = Inr (i, p, q)"
    by (cases "location 0 0 segs v") auto
  obtain s' where "find (segment_covers v) segs = Some s'" "p = is_data_fileoff s' + (v - is_elf_vaddr s')"
    using location_Inr[OF loc] by blast
  then show "output_offset segs v = Inr (is_data_fileoff s + (v - is_elf_vaddr s))"
    using assms loc by (simp add: output_offset_def)
  then show "place3 segs v = is_data_fileoff s + (v - is_elf_vaddr s)" by (simp add: place3_def)
qed

text \<open>A finished build in the terms of its symbols and relocations.\<close>

lemma build3_effect:
  assumes "phase3_wf t" and "segments_in_file t" and "build3 t shim install prefix v = Inr b"
    and "dynamic_symbols (p3_elf t) = Inr syms" and "iter_relocations (p3_elf t) = Inr rels"
  shows "foldM_r (reloc_step3 t syms prefix)
      \<lparr>t_image = copy_segments t, t_rebases = [], t_bindings = [], t_patched = no_patches\<rparr> rels = Inr (f_state b)"
    and "run_effect3 t syms prefix rels
      \<lparr>t_image = copy_segments t, t_rebases = [], t_bindings = [], t_patched = no_patches\<rparr> (f_state b)"
  using assms by - (rule build3_run[OF assms(1-3)]; simp)+

lemma build3_places:
  assumes "phase3_wf t" and "segments_in_file t" and "build3 t shim install prefix v = Inr b"
    and "dynamic_symbols (p3_elf t) = Inr syms" and "iter_relocations (p3_elf t) = Inr rels" and "r \<in> set rels"
  shows "p3_reserve t \<le> place3 (p3_segments t) (rel_offset r)" "0 \<le> place3 (p3_segments t) (rel_offset r)"
    "known_reloc syms r" "located3 t r"
    "output_offset (p3_segments t) (rel_offset r) = Inr (place3 (p3_segments t) (rel_offset r))"
proof -
  have l: "known_reloc syms r" "located3 t r"
    using build3_effect(2)[OF assms(1-5)] assms(6) by (auto simp: run_effect3_def)
  then show "known_reloc syms r" "located3 t r" by blast+
  show o: "output_offset (p3_segments t) (rel_offset r) = Inr (place3 (p3_segments t) (rel_offset r))"
    using l(2) by (simp add: located3_def)
  show "p3_reserve t \<le> place3 (p3_segments t) (rel_offset r)" "0 \<le> place3 (p3_segments t) (rel_offset r)"
    using p3.locate_bounds(1)[OF phase3_wf_placed[OF assms(1)] o] phase3_wf_end(2)[OF assms(1)] by linarith+
qed

lemma places3_apart:
  assumes "phase3_wf t" and "segments_in_file t" and "build3 t shim install prefix v = Inr b"
    and "dynamic_symbols (p3_elf t) = Inr syms" and "iter_relocations (p3_elf t) = Inr rels"
    and "relocs_ready3 t syms rels" and "sorted_wrt (\<lambda>r q. apart 8 (rel_offset r) (rel_offset q)) rels"
  shows "sorted_wrt (\<lambda>r q. apart 8 (place3 (p3_segments t) (rel_offset r)) (place3 (p3_segments t) (rel_offset q))) rels"
  using p3.locates_apart[OF phase3_wf_placed[OF assms(1)], of rels 8 rel_offset "place3 (p3_segments t)"]
    assms(6,7) build3_places(5)[OF assms(1-5)]
  by (auto simp: relocs_ready3_def)

text \<open>Above the reserved header, what the loop left is what the file holds.\<close>

lemma read_final3:
  assumes "phase3_wf t" and "segments_in_file t" and "build3 t shim install prefix v = Inr b"
    and "p3_reserve t \<le> p" and "p + 8 \<le> int (length (t_image (f_state b)))"
  shows "read_u64 (f_final b) p = read_u64 (t_image (f_state b)) p"
proof (rule read_u64_transfer)
  show "0 \<le> p" "0 \<le> p" using assms(4) phase3_wf_end(2)[OF assms(1)] by linarith+
  show "p + 8 \<le> int (length (f_final b))" "p + 8 \<le> int (length (t_image (f_state b)))"
    using assms(5) build3_final(6)[OF assms(1-3)] by linarith+
  fix i :: int assume "0 \<le> i" "i < 8"
  then show "f_final b ! nat (p + i) = t_image (f_state b) ! nat (p + i)"
    using build3_final(2)[OF assms(1-3), of "nat (p + i)"] assms(4,5) phase3_wf_end(2)[OF assms(1)] by simp
qed

lemma slot3_value:
  assumes "phase3_wf t" and "segments_in_file t" and "build3 t shim install prefix v = Inr b"
    and "dynamic_symbols (p3_elf t) = Inr syms" and "iter_relocations (p3_elf t) = Inr rels"
    and "relocs_ready3 t syms rels" and "sorted_wrt (\<lambda>r q. apart 8 (rel_offset r) (rel_offset q)) rels"
    and "r \<in> set rels" and "reloc_patch (p3_slide t) syms r = Some f"
    and "find (segment_covers (rel_offset r)) (p3_segments t) = Some s"
    and "read_u64 (edata (p3_elf t)) (is_elf_offset s + (rel_offset r - is_elf_vaddr s)) = Inr old"
  shows "read_u64 (f_final b) (is_data_fileoff s + (rel_offset r - is_elf_vaddr s)) = Inr (f old)"
proof -
  let ?p = "is_data_fileoff s + (rel_offset r - is_elf_vaddr s)"
  let ?ps = "reloc_patches (place3 (p3_segments t)) (p3_slide t) syms rels"
  note eff = build3_effect(2)[OF assms(1-5)]
  have s: "s \<in> set (p3_segments t)" "segment_covers (rel_offset r) s" using assms(10) by (auto simp: find_Some_iff)
  then have "rel_offset r + 8 \<le> is_elf_vaddr s + is_elf_filesz s" "is_elf_vaddr s \<le> rel_offset r"
    using assms(6,8) by (auto simp: relocs_ready3_def p3.slot_inside_def segment_covers_def)
  then have old: "read_u64 (copy_segments t) ?p = Inr old" "?p + 8 \<le> int (length (copy_segments t))"
    using read_copy_segments[OF assms(1,2) s(1), of "rel_offset r - is_elf_vaddr s"] assms(11)
      p3.placed_bounds[OF phase3_wf_placed[OF assms(1)] s(1)] length_copy_segments[OF assms(1,2)]
    by auto
  have pl: "place3 (p3_segments t) (rel_offset r) = ?p" by (rule place3_find(2)[OF assms(10)])
  have mem: "(?p, f) \<in> set ?ps" using assms(8,9) pl by (auto simp: set_reloc_patches intro!: exI[of _ r])
  have nn: "\<forall>q \<in> set ?ps. 0 \<le> fst q"
    using build3_places(2)[OF assms(1-5)] by (auto simp: set_reloc_patches)
  have ap: "slots_apart 8 (map fst ?ps)"
    by (rule reloc_patches_apart[OF places3_apart[OF assms(1-7)]])
  have run: "u64.patches (copy_segments t) ?ps = Inr (t_image (f_state b))"
    using eff by (simp add: run_effect3_def)
  from u64.patches_effect[OF run ap nn mem old(1)] have "read_u64 (t_image (f_state b)) ?p = Inr (f old)" .
  moreover have "int (length (t_image (f_state b))) = int (length (copy_segments t))"
    by (rule u64.patches_msize[OF nn run])
  ultimately show ?thesis
    using read_final3[OF assms(1-3), of ?p] old(2) build3_places(1)[OF assms(1-5,8)] pl by simp
qed

subsection \<open>The load commands\<close>

text \<open>The segments a loader finds among the commands.\<close>

lemma linked_commands_segments:
  assumes "linked_commands page segs va fo sz shim install v (dyld_info_command ro rs bo bs eo es) = Inr cs"
  obtains views lv where "map segment_view_of segs = map Some views" and "linkedit_view page va fo sz = Some lv"
    and "List.map_filter view_segment (filter (\<lambda>c. command_id c = LC_SEGMENT_64) cs) = views @ [lv]"
proof -
  note lv = linked_commands_view[OF assms]
  have "name16 (is_name s) \<noteq> Inl x" if s: "s \<in> set segs" for s x
  proof -
    obtain ss where "mapM_r segment_with_data_section segs = Inr ss"
      using assms by (cases "mapM_r segment_with_data_section segs") (simp_all add: linked_commands_def)
    then obtain c where "segment_with_data_section s = Inr c"
      using mapM_r_defined[of segment_with_data_section segs] s by auto
    then show ?thesis by (auto elim: segment_with_data_section_view)
  qed
  then have "\<exists>w. segment_view_of s = Some w" if "s \<in> set segs" for s
    using that by (auto simp: segment_view_of_def split: sum.split)
  then have vs: "map segment_view_of segs = map Some (map (the \<circ> segment_view_of) segs)" by simp
  moreover obtain w where w: "linkedit_view page va fo sz = Some w"
    using name16_ok[of "lit ''__LINKEDIT''"] by (auto simp: linkedit_view_def lit_simps)
  ultimately have "map view_segment (filter (\<lambda>c. command_id c = LC_SEGMENT_64) cs)
    = map Some (map (the \<circ> segment_view_of) segs @ [w])"
    using lv(3) by simp
  from map_filter_defined[OF this] show thesis using that[OF vs w] by blast
qed

lemma build3_view:
  assumes "phase3_wf t" and "segments_in_file t" and "build3 t shim install prefix v = Inr b"
  obtains cs views lv where "read_macho (f_final b) = Some (MH_DYLIB, MH_DYLDLINK OR MH_TWOLEVEL, cs)"
    and "map command_id cs = replicate (length (p3_segments t) + 1) LC_SEGMENT_64
      @ [LC_LOAD_DYLIB, LC_ID_DYLIB, LC_BUILD_VERSION, LC_DYLD_INFO_ONLY]"
    and "image_segments (f_final b) = Some (views @ [lv])"
    and "map segment_view_of (p3_segments t) = map Some views"
    and "linkedit_view (p3_page t) (k_vmaddr (f_link b)) (k_fileoff (f_link b)) (k_size (f_link b)) = Some lv"
    and "image_dyld_info (f_final b) = Some (k_rebase_off (f_link b), int (length (f_rebases b)),
      k_bind_off (f_link b), int (length (f_binds b)), 0, 0)"
proof -
  let ?k = "f_link b"
  obtain cs where ok: "linkedit_ok ?k (int (length (t_image (f_state b)))) (int (length (f_rebases b))) (int (length (f_binds b)))"
    and len: "int (length (t_image (f_state b))) = image_end t"
    and lc: "linked_commands (p3_page t) (p3_segments t) (k_vmaddr ?k) (k_fileoff ?k) (k_size ?k)
           shim install v (dyld_info_command (k_rebase_off ?k) (int (length (f_rebases b)))
             (k_bind_off ?k) (int (length (f_binds b))) 0 0) = Inr cs"
    and hp: "header_page (Phase3Error Load_Commands_Too_Large) (MH_DYLDLINK OR MH_TWOLEVEL) (p3_reserve t) cs
           (link_image ?k (t_image (f_state b)) (f_rebases b) (f_binds b)) = Inr (f_final b)"
    by (rule build3_run[OF assms])
  note lv = linked_commands_view[OF lc]
  have "p3_reserve t \<le> int (length (link_image ?k (t_image (f_state b)) (f_rebases b) (f_binds b)))"
    using length_link_image[OF ok] ok len phase3_wf_end(1)[OF assms(1)] by (simp add: linkedit_ok_def)
  from header_page_read[OF hp this lv(1)]
  have rd: "read_macho (f_final b) = Some (MH_DYLIB, MH_DYLDLINK OR MH_TWOLEVEL, cs)" .
  have di: "image_dyld_info (f_final b) = Some (k_rebase_off ?k, int (length (f_rebases b)),
      k_bind_off ?k, int (length (f_binds b)), 0, 0)"
    by (simp add: image_dyld_info_def rd lv(4,6))
  obtain views w where "map segment_view_of (p3_segments t) = map Some views"
    "linkedit_view (p3_page t) (k_vmaddr ?k) (k_fileoff ?k) (k_size ?k) = Some w"
    "List.map_filter view_segment (filter (\<lambda>c. command_id c = LC_SEGMENT_64) cs) = views @ [w]"
    by (rule linked_commands_segments[OF lc])
  then show thesis using that[OF rd lv(2) _ _ _ di, of views w] by (simp add: image_segments_def rd)
qed

lemma segment_view_fileoff: "segment_view_of s = Some w \<Longrightarrow> segment_fileoff w = is_fileoff s"
  by (auto simp: segment_view_of_def segment_fileoff_def split: sum.splits)

lemma segment_views_fileoff: "map segment_view_of ss = map Some ws \<Longrightarrow> map segment_fileoff ws = map is_fileoff ss"
  by (auto simp: list_eq_iff_nth_eq segment_view_fileoff)

subsection \<open>After dyld has moved it\<close>

text \<open>The place a rebase location names through the load commands is the place of the relocation.\<close>

lemma spot3_place:
  assumes "phase3_wf t" and "located3 t r" and "map segment_fileoff views = map is_fileoff (p3_segments t)"
  shows "segment_fileoff ((views @ rest) ! nat (fst (spot3 t (rel_offset r)))) + snd (spot3 t (rel_offset r))
    = place3 (p3_segments t) (rel_offset r)"
proof -
  obtain s where s: "0 \<le> fst (spot3 t (rel_offset r))" "fst (spot3 t (rel_offset r)) < int (length (p3_segments t))"
    "s = p3_segments t ! nat (fst (spot3 t (rel_offset r)))"
    "place3 (p3_segments t) (rel_offset r) = is_data_fileoff s + (rel_offset r - is_elf_vaddr s)"
    "snd (spot3 t (rel_offset r)) = p3_slide t + rel_offset r - is_vmaddr s"
    using location_Inr[OF assms(2)[unfolded located3_def, THEN conjunct1]] by auto
  let ?i = "nat (fst (spot3 t (rel_offset r)))"
  have i: "?i < length (p3_segments t)" using s(1,2) by linarith
  then have mem: "s \<in> set (p3_segments t)" using s(3) by simp
  obtain ph where "segment_placed (p3_slide t) (p3_page t) ph s"
    using phase3_wf_segment(1)[OF assms(1) mem] by blast
  then have "is_fileoff s + (p3_slide t + is_elf_vaddr s - is_vmaddr s) = is_data_fileoff s"
    by (simp add: segment_placed_def)
  moreover have "length views = length (p3_segments t)"
    using arg_cong[OF assms(3), of length] by simp
  then have "segment_fileoff ((views @ rest) ! ?i) = is_fileoff s"
    using i s(3) assms(3) by (metis nth_append nth_map)
  ultimately show ?thesis using s(4,5) by linarith
qed

text \<open>The patches the rebase program stands for, in any image that has the segments at their file offsets.\<close>

lemma rebase_program3:
  assumes "phase3_wf t" and "segments_in_file t" and "build3 t shim install prefix v = Inr b"
    and "dynamic_symbols (p3_elf t) = Inr syms" and "iter_relocations (p3_elf t) = Inr rels"
    and "relocs_ready3 t syms rels" and "sorted_wrt (\<lambda>r q. apart 8 (rel_offset r) (rel_offset q)) rels"
    and "map segment_fileoff views = map is_fileoff (p3_segments t)"
  obtains prog where "run_rebase 0 0 0 (f_rebases b) = Some prog"
    and "slots_apart 8 (map fst (rebase_patches d (views @ rest) prog))"
    and "\<forall>p \<in> set (rebase_patches d (views @ rest) prog). 0 \<le> fst p \<and> p3_reserve t \<le> fst p \<and> fst p + 8 \<le> image_end t"
    and "set (rebase_patches d (views @ rest) prog)
      = {(place3 (p3_segments t) (rel_offset r), \<lambda>v. mask64 (v + d)) | r. r \<in> set rels \<and> \<not> is_import syms r}"
    and "rebase_patches d (views @ rest) prog
      = map (\<lambda>(seg, off). (is_fileoff (p3_segments t ! nat seg) + off, \<lambda>v. mask64 (v + d))) (sort (t_rebases (f_state b)))"
proof -
  note eff = build3_effect(2)[OF assms(1-5)]
  let ?own = "filter (\<lambda>r. \<not> is_import syms r) rels"
  let ?place = "\<lambda>r. place3 (p3_segments t) (rel_offset r)"
  have rb: "t_rebases (f_state b) = map (\<lambda>r. spot3 t (rel_offset r)) ?own" using eff by (simp add: run_effect3_def)
  have lc: "located3 t r" if "r \<in> set rels" for r using build3_places(4)[OF assms(1-5) that] .
  have "rebase_stream (t_rebases (f_state b)) = Inr (f_rebases b)" by (rule build3_run[OF assms(1-3)])
  moreover have "\<forall>loc \<in> set (t_rebases (f_state b)). 0 \<le> fst loc"
    unfolding rb using spot3_bounds(1)[OF assms(1) lc] by auto
  ultimately have run: "run_rebase 0 0 0 (f_rebases b)
      = Some (map (\<lambda>(seg, off). (REBASE_TYPE_POINTER, seg, off)) (sort (t_rebases (f_state b))))"
    using rebase_stream_run[of "t_rebases (f_state b)" "f_rebases b" 0 0 0 "[]"] by simp
  define ps where "ps = rebase_patches d (views @ rest) (map (\<lambda>(seg, off). (REBASE_TYPE_POINTER, seg, off)) (sort (t_rebases (f_state b))))"
  let ?f = "\<lambda>(seg, off). (segment_fileoff ((views @ rest) ! nat seg) + off, \<lambda>v. mask64 (v + d))"
  have ps: "ps = map ?f (sort (t_rebases (f_state b)))"
    by (simp add: ps_def rebase_patches_def comp_def case_prod_beta)
  have f: "?f (spot3 t (rel_offset r)) = (?place r, \<lambda>v. mask64 (v + d))" if "r \<in> set rels" for r
    using spot3_place[OF assms(1) lc[OF that] assms(8), of rest] by (simp add: case_prod_beta)
  have m: "mset ps = mset (map (\<lambda>r. (?place r, \<lambda>v. mask64 (v + d))) ?own)"
  proof -
    have "mset ps = mset (map ?f (t_rebases (f_state b)))" by (simp add: ps)
    also have "map ?f (t_rebases (f_state b)) = map (\<lambda>r. (?place r, \<lambda>v. mask64 (v + d))) ?own"
      unfolding rb map_map comp_def using f by (intro map_cong refl) auto
    finally show ?thesis .
  qed
  have ss: "set ps = {(?place r, \<lambda>v. mask64 (v + d)) | r. r \<in> set rels \<and> \<not> is_import syms r}"
    using mset_eq_setD[OF m] by auto
  have fm: "mset (map fst ps) = mset (map ?place ?own)"
    using arg_cong[OF m, of "image_mset fst"] by (simp add: multiset.map_comp comp_def)
  have "slots_apart 8 (map ?place ?own)"
    using places3_apart[OF assms(1-7)] unfolding slots_apart_def sorted_wrt_map by (rule sorted_wrt_filter)
  then have ap: "slots_apart 8 (map fst ps)" using slots_apart_mset[OF _ fm, of 8] by simp
  have "0 \<le> fst p \<and> p3_reserve t \<le> fst p \<and> fst p + 8 \<le> image_end t" if "p \<in> set ps" for p
  proof -
    obtain r where r: "r \<in> set rels" "fst p = ?place r" using \<open>p \<in> set ps\<close> ss by auto
    have "?place r + 8 \<le> image_end t"
      using p3.locate_slot_bounds[OF phase3_wf_placed[OF assms(1)] build3_places(5)[OF assms(1-5) r(1)]]
        assms(6) r(1) by (simp add: relocs_ready3_def)
    then show ?thesis using r build3_places(1,2)[OF assms(1-5) r(1)] by simp
  qed
  then have bounds: "\<forall>p \<in> set ps. 0 \<le> fst p \<and> p3_reserve t \<le> fst p \<and> fst p + 8 \<le> image_end t" by blast
  have "segment_fileoff ((views @ rest) ! nat (fst loc)) = is_fileoff (p3_segments t ! nat (fst loc))"
    if loc: "loc \<in> set (t_rebases (f_state b))" for loc
  proof -
    obtain r where "r \<in> set rels" "loc = spot3 t (rel_offset r)" using loc unfolding rb by auto
    then have "nat (fst loc) < length (p3_segments t)"
      using spot3_bounds(1,2)[OF assms(1) lc, of r] by simp
    moreover have "length views = length (p3_segments t)" using arg_cong[OF assms(8), of length] by simp
    ultimately show ?thesis using assms(8) by (metis nth_append nth_map)
  qed
  then have "ps = map (\<lambda>(seg, off). (is_fileoff (p3_segments t ! nat seg) + off, \<lambda>v. mask64 (v + d))) (sort (t_rebases (f_state b)))"
    unfolding ps by (intro map_cong refl) (auto simp: case_prod_beta)
  then show thesis using that[OF run] ap ss bounds unfolding ps_def by blast
qed

lemma rebase_patches_defined:
  assumes "\<forall>p \<in> set (rebase_patches d segs prog). 0 \<le> fst p \<and> fst p + 8 \<le> int (length img)"
  shows "\<exists>img'. u64.patches img (rebase_patches d segs prog) = Inr img'"
  by (rule u64.patches_defined) (use assms in \<open>auto simp: rebase_patches_def mask64_range[simplified]\<close>)

lemma dyld_rebase3:
  assumes "phase3_wf t" and "segments_in_file t" and "build3 t shim install prefix v = Inr b"
    and "dynamic_symbols (p3_elf t) = Inr syms" and "iter_relocations (p3_elf t) = Inr rels"
    and "relocs_ready3 t syms rels" and "sorted_wrt (\<lambda>r q. apart 8 (rel_offset r) (rel_offset q)) rels"
  obtains ps img where "dyld_rebase d (f_final b) = Some img" and "u64.patches (f_final b) ps = Inr img"
    and "slots_apart 8 (map fst ps)" and "\<forall>p \<in> set ps. 0 \<le> fst p"
    and "set ps = {(place3 (p3_segments t) (rel_offset r), \<lambda>v. mask64 (v + d)) | r. r \<in> set rels \<and> \<not> is_import syms r}"
proof -
  obtain cs views lv where vw: "image_segments (f_final b) = Some (views @ [lv])"
    "map segment_view_of (p3_segments t) = map Some views"
    "image_dyld_info (f_final b) = Some (k_rebase_off (f_link b), int (length (f_rebases b)),
      k_bind_off (f_link b), int (length (f_binds b)), 0, 0)"
    by (rule build3_view[OF assms(1-3)])
  obtain prog where prog: "run_rebase 0 0 0 (f_rebases b) = Some prog"
    "slots_apart 8 (map fst (rebase_patches d (views @ [lv]) prog))"
    "\<forall>p \<in> set (rebase_patches d (views @ [lv]) prog). 0 \<le> fst p \<and> p3_reserve t \<le> fst p \<and> fst p + 8 \<le> image_end t"
    "set (rebase_patches d (views @ [lv]) prog)
      = {(place3 (p3_segments t) (rel_offset r), \<lambda>v. mask64 (v + d)) | r. r \<in> set rels \<and> \<not> is_import syms r}"
    by (rule rebase_program3[OF assms segment_views_fileoff[OF vw(2)]])
  have "int (length (t_image (f_state b))) = image_end t" by (rule build3_run[OF assms(1-3)])
  then have "\<forall>p \<in> set (rebase_patches d (views @ [lv]) prog). 0 \<le> fst p \<and> fst p + 8 \<le> int (length (f_final b))"
    using prog(3) build3_final(6)[OF assms(1-3)] by force
  then obtain img where img: "u64.patches (f_final b) (rebase_patches d (views @ [lv]) prog) = Inr img"
    using rebase_patches_defined by blast
  have "dyld_rebase d (f_final b) = Some img"
    using img by (simp add: dyld_rebase_def vw(1,3) prog(1) build3_final(3)[OF assms(1-3)])
  then show thesis using that[OF _ img prog(2) _ prog(4)] prog(3) by blast
qed

text \<open>The value of a relocated slot after dyld has moved the image.\<close>

lemma slot3_loaded:
  assumes "phase3_wf t" and "segments_in_file t" and "build3 t shim install prefix v = Inr b"
    and "dynamic_symbols (p3_elf t) = Inr syms" and "iter_relocations (p3_elf t) = Inr rels"
    and "relocs_ready3 t syms rels" and "sorted_wrt (\<lambda>r q. apart 8 (rel_offset r) (rel_offset q)) rels"
    and "r \<in> set rels" and "reloc_patch (p3_slide t + d) syms r = Some f"
    and "find (segment_covers (rel_offset r)) (p3_segments t) = Some s"
    and "read_u64 (edata (p3_elf t)) (is_elf_offset s + (rel_offset r - is_elf_vaddr s)) = Inr old"
    and "dyld_rebase d (f_final b) = Some img"
  shows "read_u64 img (is_data_fileoff s + (rel_offset r - is_elf_vaddr s)) = Inr (f old)"
proof -
  obtain ps img' where img: "dyld_rebase d (f_final b) = Some img'" "u64.patches (f_final b) ps = Inr img'"
    "slots_apart 8 (map fst ps)" "\<forall>p \<in> set ps. 0 \<le> fst p"
    and ps: "set ps = {(place3 (p3_segments t) (rel_offset r), \<lambda>v. mask64 (v + d)) | r. r \<in> set rels \<and> \<not> is_import syms r}"
    by (rule dyld_rebase3[OF assms(1-7)])
  have same: "img' = img" using img(1) assms(12) by simp
  obtain g where g: "reloc_patch (p3_slide t) syms r = Some g" "f old = mask64 (g old + d)"
    using reloc_patch_shift[OF assms(9)] by blast
  have "\<not> is_import syms r"
    using reloc_patch_None_iff[OF build3_places(3)[OF assms(1-5,8)], of "p3_slide t"] g(1) by simp
  then have mem: "(is_data_fileoff s + (rel_offset r - is_elf_vaddr s), \<lambda>v. mask64 (v + d)) \<in> set ps"
    using assms(8) place3_find(2)[OF assms(10)] by (auto simp: ps intro!: exI[of _ r])
  have "read_u64 (f_final b) (is_data_fileoff s + (rel_offset r - is_elf_vaddr s)) = Inr (g old)"
    by (rule slot3_value[OF assms(1-8) g(1) assms(10,11)])
  from u64.patches_effect[OF img(2-4) mem this] show ?thesis using g(2) same by simp
qed

text \<open>The names the bindings carry.\<close>

lemma build3_shim_names:
  assumes "phase3_wf t" and "segments_in_file t" and "build3 t shim install prefix v = Inr b"
    and "dynamic_symbols (p3_elf t) = Inr syms" and "iter_relocations (p3_elf t) = Inr rels"
  shows "map b_symbol (t_bindings (f_state b)) = map (\<lambda>r. sym_name (syms ! nat (rel_sym r))) (filter (is_import syms) rels)"
    and "map b_shim_symbol (t_bindings (f_state b))
      = map (\<lambda>r. prefix @ sym_name (syms ! nat (rel_sym r))) (filter (is_import syms) rels)"
proof -
  obtain bds where "t_bindings (f_state b) = bds"
    "list_all2 (\<lambda>r b. \<exists>img. b = import_binding t syms prefix img r) (filter (is_import syms) rels) bds"
    using build3_effect(2)[OF assms] by (auto simp: run_effect3_def)
  then show "map b_symbol (t_bindings (f_state b)) = map (\<lambda>r. sym_name (syms ! nat (rel_sym r))) (filter (is_import syms) rels)"
    "map b_shim_symbol (t_bindings (f_state b)) = map (\<lambda>r. prefix @ sym_name (syms ! nat (rel_sym r))) (filter (is_import syms) rels)"
    by (auto simp: import_binding_def mk_binding_def list_eq_iff_nth_eq list_all2_conv_all_nth)
qed

end
