(* ===== verification/Export_Walk.thy ===== *)
theory Export_Walk
  imports Export_Trie
begin

section \<open>Looking a symbol up in the bytes of an export trie\<close>

text \<open>
  The walk of dyld over an export trie and its agreement with the dictionary the trie was built from:
  a layout round that changes nothing has put every node where its parent's edge says, the bytes of the
  nodes in preorder are the trie, and the walk follows one edge a character.
\<close>

subsection \<open>The walk\<close>

fun read_edges :: "nat \<Rightarrow> bytes \<Rightarrow> (bytes \<times> int) list option" where
  "read_edges 0 bs = Some []"
| "read_edges (Suc n) bs =
     (case read_name bs of None \<Rightarrow> None
      | Some (edge, r) \<Rightarrow> (case read_uleb r of None \<Rightarrow> None
          | Some (off, r') \<Rightarrow> map_option (Cons (edge, off)) (read_edges n r')))"

definition edge_matches :: "bytes \<Rightarrow> bytes \<times> int \<Rightarrow> bool" where
  "edge_matches symbol e \<longleftrightarrow> fst e \<noteq> [] \<and> take (length (fst e)) symbol = fst e"

lemma find_edge:
  "find (edge_matches symbol) es = Some (e, o') \<Longrightarrow> (e, o') \<in> set es \<and> e \<noteq> [] \<and> take (length e) symbol = e"
  by (induction es) (auto simp: edge_matches_def split: if_splits)

text \<open>A node: the bytes of its terminal information and its edges.\<close>

definition read_node :: "bytes \<Rightarrow> int \<Rightarrow> (bytes \<times> (bytes \<times> int) list) option" where
  "read_node out off =
     (if off < 0 then None
      else case read_uleb (drop (nat off) out) of None \<Rightarrow> None
        | Some (n, rest) \<Rightarrow> (case drop (nat n) rest of [] \<Rightarrow> None
            | k # r \<Rightarrow> map_option (Pair (take (nat n) rest)) (read_edges (unat k) r)))"

function trie_walk :: "bytes \<Rightarrow> int \<Rightarrow> bytes \<Rightarrow> int option" where
  "trie_walk out off symbol =
     (case read_node out off of None \<Rightarrow> None
      | Some (terminal, es) \<Rightarrow>
          if symbol = [] then payload_address terminal
          else (case find (edge_matches symbol) es of None \<Rightarrow> None
            | Some (e, o') \<Rightarrow> trie_walk out o' (drop (length e) symbol)))"
  by pat_completeness auto
termination
  by (relation "measure (\<lambda>(_, _, symbol). length symbol)") (auto dest!: find_edge)

declare trie_walk.simps [simp del]

subsection \<open>What a round of the layout keeps\<close>

text \<open>Nodes of a trie whose edges can be written and read back.\<close>

definition node_ok :: "trie \<Rightarrow> bool" where
  "node_ok n \<longleftrightarrow> distinct (map fst (tn_children n)) \<and> (\<forall>c \<in> set (map fst (tn_children n)). is_scalar c \<and> c \<noteq> 0)"

definition trie_ok :: "trie \<Rightarrow> bool" where
  "trie_ok n \<longleftrightarrow> (\<forall>m \<in> set (trie_nodes n). node_ok m)"

lemma trie_nodes_self: "n \<in> set (trie_nodes n)"
  by (cases n) simp

lemma children_nodes_member: "(c, k) \<in> set ch \<Longrightarrow> set (trie_nodes k) \<subseteq> set (children_nodes ch)"
  by (induction ch) auto

lemma trie_nodes_closed:
  "m \<in> set (trie_nodes n) \<Longrightarrow> (c, k) \<in> set (tn_children m) \<Longrightarrow> k \<in> set (trie_nodes n)"
  "m \<in> set (children_nodes ch) \<Longrightarrow> (c, k) \<in> set (tn_children m) \<Longrightarrow> k \<in> set (children_nodes ch)"
proof (induction n and ch arbitrary: m and m rule: trie_nodes_children_nodes.induct)
  case (1 t ch off)
  then show ?case using trie_nodes_self[of k] children_nodes_member[of c k ch] by auto
qed auto

abbreviation node_shape :: "trie \<Rightarrow> bytes \<times> nat list" where
  "node_shape n \<equiv> (tn_terminal n, map fst (tn_children n))"

lemma relayout_keeps:
  "relayout c n = Inr (n', c', b) \<Longrightarrow>
     map node_shape (trie_nodes n') = map node_shape (trie_nodes n)
     \<and> (\<forall>name. trie_lookup n' name = trie_lookup n name)"
  "relayout_list c ch = Inr (ch', c', b) \<Longrightarrow>
     map node_shape (children_nodes ch') = map node_shape (children_nodes ch) \<and> map fst ch' = map fst ch
     \<and> (\<forall>d name. (case map_of ch' d of None \<Rightarrow> [] | Some m \<Rightarrow> trie_lookup m name)
          = (case map_of ch d of None \<Rightarrow> [] | Some m \<Rightarrow> trie_lookup m name))"
proof (induction c n and c ch arbitrary: n' c' b and ch' c' b rule: relayout_relayout_list.induct)
  case (1 cursor t ch off)
  obtain body ch' c'' b' where e: "encode_node (TrieNode t ch cursor) = Inr body"
    "relayout_list (cursor + int (length body)) ch = Inr (ch', c'', b')" "n' = TrieNode t ch' cursor"
    using "1.prems" by (auto simp: result_iff)
  note ih = "1.IH"[OF e(1,2)]
  have "trie_lookup (TrieNode t ch' cursor) name = trie_lookup (TrieNode t ch off) name" for name
    using ih by (cases name) simp_all
  then show ?case using ih e(3) by simp
next
  case (2 cursor)
  then show ?case by simp
next
  case (3 cursor c n ch)
  obtain m c1 b1 ms b2 where e: "relayout cursor n = Inr (m, c1, b1)"
    "relayout_list c1 ch = Inr (ms, c', b2)" "ch' = (c, m) # ms" "b = (b1 \<or> b2)"
    using "3.prems" by (simp add: result_iff) blast
  show ?case using "3.IH"(1)[OF e(1)] "3.IH"(2)[OF e(1) refl refl e(2)] by (simp add: e(3))
qed

lemma trie_ok_shape: "map node_shape (trie_nodes n') = map node_shape (trie_nodes n) \<Longrightarrow> trie_ok n' = trie_ok n"
proof -
  assume eq: "map node_shape (trie_nodes n') = map node_shape (trie_nodes n)"
  have "trie_ok n = (\<forall>(t, ks) \<in> set (map node_shape (trie_nodes n)). distinct ks \<and> (\<forall>c \<in> set ks. is_scalar c \<and> c \<noteq> 0))" for n
    by (auto simp: trie_ok_def node_ok_def)
  then show ?thesis by (simp only: eq)
qed

lemma relayout_unchanged:
  "relayout c n = Inr (n', c', False) \<Longrightarrow> n' = n"
  "relayout_list c ch = Inr (ch', c', False) \<Longrightarrow> ch' = ch"
  by (induction c n and c ch arbitrary: n' c' and ch' c' rule: relayout_relayout_list.induct) (auto simp: result_iff)

lemma layout_rounds_keeps:
  "layout_rounds k n = Inr n' \<Longrightarrow>
     (\<forall>name. trie_lookup n' name = trie_lookup n name) \<and> trie_ok n' = trie_ok n \<and> (\<exists>c. relayout 0 n' = Inr (n', c, False))"
proof (induction k arbitrary: n)
  case (Suc k)
  obtain m c b where m: "relayout 0 n = Inr (m, c, b)" "(if b then layout_rounds k m else Inr m) = Inr n'"
    using Suc.prems by (auto simp: result_iff)
  note keep = relayout_keeps(1)[OF m(1)] trie_ok_shape[of m n]
  show ?case
  proof (cases b)
    case True
    then show ?thesis using Suc.IH[of m] m keep by simp
  next
    case False
    then have "m = n" using m(1) relayout_unchanged(1) by simp
    then show ?thesis using m keep False by auto
  qed
qed simp

subsection \<open>Where the nodes are\<close>

definition placed_node :: "bytes \<Rightarrow> int \<Rightarrow> trie \<Rightarrow> bool" where
  "placed_node out base m \<longleftrightarrow> (\<exists>pre e post. out = pre @ e @ post \<and> encode_node m = Inr e
     \<and> tn_offset m = base + int (length pre))"

lemma placed_node_append:
  assumes "placed_node out (base + int (length pre)) m"
  shows "placed_node (pre @ out @ post) base m"
proof -
  obtain p e q where pq: "out = p @ e @ q" "encode_node m = Inr e" "tn_offset m = base + int (length pre) + int (length p)"
    using assms by (auto simp: placed_node_def)
  have "pre @ out @ post = (pre @ p) @ e @ (q @ post)" by (simp add: pq(1))
  then show ?thesis unfolding placed_node_def using pq by (intro exI[of _ "pre @ p"] exI[of _ e] exI[of _ "q @ post"]) simp
qed

lemma relayout_placed:
  "relayout c n = Inr (n', c', False) \<Longrightarrow> mapM_r encode_node (trie_nodes n) = Inr bs \<Longrightarrow>
     c' = c + int (length (concat bs)) \<and> (\<forall>m \<in> set (trie_nodes n). placed_node (concat bs) c m)"
  "relayout_list c ch = Inr (ch', c', False) \<Longrightarrow> mapM_r encode_node (children_nodes ch) = Inr bs \<Longrightarrow>
     c' = c + int (length (concat bs)) \<and> (\<forall>m \<in> set (children_nodes ch). placed_node (concat bs) c m)"
proof (induction c n and c ch arbitrary: n' c' bs and ch' c' bs rule: relayout_relayout_list.induct)
  case (1 cursor t ch off)
  obtain body ch' where e: "encode_node (TrieNode t ch cursor) = Inr body" "off = cursor"
    "relayout_list (cursor + int (length body)) ch = Inr (ch', c', False)"
    using "1.prems"(1) by (auto simp: result_iff)
  obtain bs' where bs: "mapM_r encode_node (children_nodes ch) = Inr bs'" "bs = body # bs'"
    using "1.prems"(2) e by (auto simp: result_iff)
  note ih = "1.IH"[OF e(1,3) bs(1)]
  have "placed_node (concat bs) cursor m" if "m \<in> set (children_nodes ch)" for m
    using placed_node_append[of "concat bs'" cursor body m "[]"] ih that by (simp add: bs(2) del: length_concat)
  moreover have "placed_node (concat bs) cursor (TrieNode t ch off)"
    unfolding placed_node_def using e by (intro exI[of _ "[]"] exI[of _ body] exI[of _ "concat bs'"]) (simp add: bs(2))
  ultimately show ?case using ih e by (simp add: bs(2) del: length_concat)
next
  case (2 cursor)
  then show ?case by auto
next
  case (3 cursor c n ch)
  obtain m c1 ms where e: "relayout cursor n = Inr (m, c1, False)" "relayout_list c1 ch = Inr (ms, c', False)"
    using "3.prems"(1) by (auto simp: result_iff)
  obtain bs1 bs2 where bs: "mapM_r encode_node (trie_nodes n) = Inr bs1" "mapM_r encode_node (children_nodes ch) = Inr bs2"
    "bs = bs1 @ bs2"
    using "3.prems"(2) by (auto simp: mapM_r_append result_iff)
  note ih1 = "3.IH"(1)[OF e(1) bs(1)] and ih2 = "3.IH"(2)[OF e(1) refl refl e(2) bs(2)]
  have "placed_node (concat bs) cursor m" if "m \<in> set (trie_nodes n)" for m
    using placed_node_append[of "concat bs1" cursor "[]" m "concat bs2"] ih1 that by (simp add: bs(3))
  moreover have "placed_node (concat bs) cursor m" if "m \<in> set (children_nodes ch)" for m
    using placed_node_append[of "concat bs2" cursor "concat bs1" m "[]"] ih1 ih2 that by (simp add: bs(3) del: length_concat)
  ultimately show ?case using ih1 ih2 by (auto simp: bs(3) simp del: length_concat)
qed

subsection \<open>The walk over the bytes\<close>

lemma encode_edge_Inr:
  "encode_edge (c, k) = Inr e \<longleftrightarrow> is_scalar c \<and> 0 \<le> tn_offset k \<and> e = utf8_char c @ [0] @ uleb_bytes (tn_offset k)"
  by (auto simp: encode_edge_def encode_utf8_def uleb128_4_def)

abbreviation edge_bytes :: "nat \<times> trie \<Rightarrow> bytes \<times> int" where
  "edge_bytes e \<equiv> (utf8_char (fst e), tn_offset (snd e))"

lemma read_edges_encoded:
  assumes "mapM_r encode_edge ch = Inr es" and "\<forall>c \<in> set (map fst ch). c \<noteq> 0"
  shows "read_edges (length ch) (concat es @ rest) = Some (map edge_bytes ch)"
  using assms
proof (induction ch arbitrary: es)
  case (Cons e ch)
  obtain c k where e: "e = (c, k)" by (cases e)
  obtain b bs where b: "encode_edge (c, k) = Inr b" "mapM_r encode_edge ch = Inr bs" "es = b # bs"
    using Cons.prems(1) e by (auto simp: result_iff)
  have c: "is_scalar c" "0 \<le> tn_offset k" "b = utf8_char c @ [0] @ uleb_bytes (tn_offset k)"
    using b(1) by (simp_all add: encode_edge_Inr)
  have "0 \<notin> set (utf8_char c)" using utf8_char_nonzero[OF c(1)] Cons.prems(2) e by simp
  from name.dec_enc[OF this] have "read_name (utf8_char c @ 0 # r) = Some (utf8_char c, r)" for r
    by (simp add: name_bytes_def)
  then show ?case
    using Cons b c by (simp add: e read_uleb_enc)
qed simp

lemma encode_node_Inr:
  assumes "encode_node m = Inr e"
  obtains es where "mapM_r encode_edge (sort_key fst (tn_children m)) = Inr es" and "length (tn_children m) \<le> 255"
    and "e = uleb_bytes (int (length (tn_terminal m))) @ tn_terminal m @ [word_of_nat (length (tn_children m))] @ concat es"
  using assms by (auto simp: encode_node_def uleb128_4_def result_iff split: if_splits)

lemma read_node_placed:
  assumes "placed_node out 0 m" and "node_ok m"
  shows "read_node out (tn_offset m) = Some (tn_terminal m, map edge_bytes (sort_key fst (tn_children m)))"
proof -
  obtain pre e post where out: "out = pre @ e @ post" "encode_node m = Inr e" "tn_offset m = int (length pre)"
    using assms(1) by (auto simp: placed_node_def)
  obtain es where es: "mapM_r encode_edge (sort_key fst (tn_children m)) = Inr es" "length (tn_children m) \<le> 255"
    "e = uleb_bytes (int (length (tn_terminal m))) @ tn_terminal m @ [word_of_nat (length (tn_children m))] @ concat es"
    by (rule encode_node_Inr[OF out(2)])
  have "unat (word_of_nat (length (tn_children m)) :: u8) = length (tn_children m)"
    using es(2) by (simp add: unat_byte_of)
  moreover have "read_edges (length (sort_key fst (tn_children m))) (concat es @ post) = Some (map edge_bytes (sort_key fst (tn_children m)))"
    by (rule read_edges_encoded[OF es(1)]) (use assms(2) in \<open>simp add: node_ok_def\<close>)
  ultimately show ?thesis
    by (simp add: read_node_def out(1,3) es(3) read_uleb_enc)
qed

text \<open>No code point's encoding is a prefix of another's.\<close>

lemma utf8_char_prefix:
  assumes "is_scalar c" and "is_scalar d" and "utf8_char c @ r = utf8_char d @ s"
  shows "c = d"
proof -
  have "c # decode_values (map unat r) = decode_values (map unat (utf8_char c @ r))"
    using decode_values_utf8_char[OF assms(1)] by simp
  also have "\<dots> = d # decode_values (map unat s)"
    unfolding assms(3) using decode_values_utf8_char[OF assms(2)] by simp
  finally show ?thesis by simp
qed

lemma edge_matches_utf8:
  assumes "is_scalar c" and "is_scalar d"
  shows "edge_matches (utf8_char c @ rest) (edge_bytes (d, k)) \<longleftrightarrow> c = d"
proof
  assume "edge_matches (utf8_char c @ rest) (edge_bytes (d, k))"
  then have "utf8_char c @ rest = utf8_char d @ drop (length (utf8_char d)) (utf8_char c @ rest)"
    by (metis edge_matches_def fst_conv append_take_drop_id)
  then show "c = d" by (rule utf8_char_prefix[OF assms])
qed (simp add: edge_matches_def utf8_char_def)

lemma find_edge_utf8:
  assumes "is_scalar c" and "\<forall>d \<in> set (map fst ch). is_scalar d"
  shows "find (edge_matches (utf8_char c @ rest)) (map edge_bytes ch)
    = map_option (\<lambda>k. (utf8_char c, tn_offset k)) (map_of ch c)"
  using assms(2)
proof (induction ch)
  case (Cons e ch)
  then show ?case using edge_matches_utf8[OF assms(1), of "fst e" rest "snd e"] by (cases e) auto
qed simp

text \<open>Every node of the trie is where the walk looks for it.\<close>

definition laid_out :: "bytes \<Rightarrow> trie \<Rightarrow> bool" where
  "laid_out out root \<longleftrightarrow> trie_ok root \<and> (\<forall>m \<in> set (trie_nodes root). placed_node out 0 m)"

lemma map_of_sort_key: "distinct (map fst ch) \<Longrightarrow> map_of (sort_key fst ch) = map_of ch"
proof -
  assume d: "distinct (map fst ch)"
  have "mset (map fst (sort_key fst ch)) = mset (map fst ch)" by simp
  then have "distinct (map fst (sort_key fst ch))" using d mset_eq_imp_distinct_iff by blast
  then show ?thesis using d by (intro map_of_eqI) (auto simp: map_of_eq_Some_iff)
qed

lemma laid_out_node:
  assumes "laid_out out root" and "m \<in> set (trie_nodes root)"
  shows "read_node out (tn_offset m) = Some (tn_terminal m, map edge_bytes (sort_key fst (tn_children m)))"
    and "\<forall>d \<in> set (map fst (tn_children m)). is_scalar d" and "distinct (map fst (tn_children m))"
  using assms read_node_placed by (auto simp: laid_out_def trie_ok_def node_ok_def)

lemma trie_walk_complete:
  assumes "laid_out out root" and "m \<in> set (trie_nodes root)" and "list_all is_scalar name"
  shows "trie_walk out (tn_offset m) (concat (map utf8_char name)) = payload_address (trie_lookup m name)"
  using assms(2,3)
proof (induction name arbitrary: m)
  case Nil
  then show ?case by (subst trie_walk.simps) (simp add: laid_out_node(1)[OF assms(1)])
next
  case (Cons c cs)
  note nd = laid_out_node[OF assms(1) Cons.prems(1)]
  have c: "is_scalar c" using Cons.prems(2) by simp
  have f: "find (edge_matches (utf8_char c @ concat (map utf8_char cs))) (map edge_bytes (sort_key fst (tn_children m)))
      = map_option (\<lambda>k. (utf8_char c, tn_offset k)) (map_of (tn_children m) c)"
    using find_edge_utf8[OF c, of "sort_key fst (tn_children m)"] nd(2) by (simp add: map_of_sort_key[OF nd(3)])
  have ne: "utf8_char c \<noteq> []" by (simp add: utf8_char_def)
  show ?case
  proof (cases "map_of (tn_children m) c")
    case None
    then show ?thesis
      using ne f by (subst trie_walk.simps) (simp add: nd(1) payload_address_def)
  next
    case (Some k)
    have "k \<in> set (trie_nodes root)"
      by (rule trie_nodes_closed(1)[OF Cons.prems(1) map_of_SomeD[OF Some]])
    then show ?thesis
      using ne f Some Cons by (subst trie_walk.simps) (simp add: nd(1))
  qed
qed

lemma trie_walk_sound:
  assumes "laid_out out root" and "m \<in> set (trie_nodes root)" and "trie_walk out (tn_offset m) symbol = Some a"
  shows "\<exists>name. list_all is_scalar name \<and> symbol = concat (map utf8_char name)"
  using assms(2,3)
proof (induction "length symbol" arbitrary: symbol m rule: less_induct)
  case less
  show ?case
  proof (cases "symbol = []")
    case True
    then show ?thesis by (intro exI[of _ "[]"]) simp
  next
    case False
    note nd = laid_out_node[OF assms(1) less.prems(1)]
    obtain e o' where f: "find (edge_matches symbol) (map edge_bytes (sort_key fst (tn_children m))) = Some (e, o')"
      "trie_walk out o' (drop (length e) symbol) = Some a"
      using less.prems(2) False by (subst (asm) trie_walk.simps) (auto simp: nd(1) split: option.splits)
    obtain c k where ck: "(c, k) \<in> set (tn_children m)" "e = utf8_char c" "o' = tn_offset k" "e \<noteq> []" "take (length e) symbol = e"
      using find_edge[OF f(1)] by auto
    have sc: "is_scalar c" using nd(2) ck(1) by force
    have "k \<in> set (trie_nodes root)" by (rule trie_nodes_closed(1)[OF less.prems(1) ck(1)])
    then obtain name where "list_all is_scalar name" "drop (length e) symbol = concat (map utf8_char name)"
      using less.hyps[of "drop (length e) symbol" k] f(2) ck(3,4) False by auto
    moreover have "symbol = e @ drop (length e) symbol" using ck(5) by (metis append_take_drop_id)
    ultimately show ?thesis using sc ck(2) by (intro exI[of _ "c # name"]) simp
  qed
qed

subsection \<open>The bytes of a dictionary of exports\<close>

lemma insert_name_ok:
  "list_all (\<lambda>c. is_scalar c \<and> c \<noteq> 0) name \<Longrightarrow> trie_ok n \<Longrightarrow> trie_ok (insert_name name p n)"
  "is_scalar c \<and> c \<noteq> 0 \<Longrightarrow> list_all (\<lambda>c. is_scalar c \<and> c \<noteq> 0) cs \<Longrightarrow> \<forall>m \<in> set (children_nodes ch). node_ok m \<Longrightarrow>
     (\<forall>m \<in> set (children_nodes (insert_child c cs p ch)). node_ok m)
     \<and> set (map fst (insert_child c cs p ch)) = insert c (set (map fst ch))
     \<and> (distinct (map fst ch) \<longrightarrow> distinct (map fst (insert_child c cs p ch)))"
proof (induction name p n and c cs p ch rule: insert_name_insert_child.induct)
  case (2 c cs payload t ch off)
  then have ch: "\<forall>m \<in> set (children_nodes ch). node_ok m" "node_ok (TrieNode t ch off)"
    and c: "is_scalar c \<and> c \<noteq> 0" "list_all (\<lambda>c. is_scalar c \<and> c \<noteq> 0) cs" by (simp_all add: trie_ok_def)
  from "2.IH"[OF c ch(1)] ch(2) c(1) have "node_ok (TrieNode t (insert_child c cs payload ch) off)"
    unfolding node_ok_def by simp
  then show ?case using "2.IH"[OF c ch(1)] by (simp add: trie_ok_def)
next
  case (3 c cs payload)
  have "trie_ok empty_node" by (simp add: trie_ok_def empty_node_def node_ok_def)
  then show ?case using 3 by (simp add: trie_ok_def)
next
  case (4 c cs payload d n ch)
  then have n: "trie_ok n" "\<forall>m \<in> set (children_nodes ch). node_ok m"
    and c: "is_scalar c \<and> c \<noteq> 0" "list_all (\<lambda>c. is_scalar c \<and> c \<noteq> 0) cs" by (simp_all add: trie_ok_def)
  show ?case
  proof (cases "c = d")
    case True
    have "trie_ok (insert_name cs payload n)" by (rule "4.IH"(1)[OF True c(2) n(1)])
    then show ?thesis using True n(2) by (simp add: trie_ok_def ball_Un)
  next
    case False
    note ih = "4.IH"(2)[OF False c n(2)]
    have "insert d (insert c (set (map fst ch))) = insert c (insert d (set (map fst ch)))" by (rule insert_commute)
    then show ?thesis using False n(1) ih by (simp add: trie_ok_def ball_Un)
  qed
qed (simp add: trie_ok_def node_ok_def)

text \<open>Names that can be written: encodable and without a NUL.\<close>

definition export_name_ok :: "pystr \<Rightarrow> bool" where
  "export_name_ok name \<longleftrightarrow> list_all (\<lambda>c. is_scalar c \<and> c \<noteq> 0) name"

lemma insert_exports_ok:
  assumes "foldM_r insert_export t es = Inr root" and "\<forall>e \<in> set es. export_name_ok (fst e)" and "trie_ok t"
  shows "trie_ok root"
  using assms
proof (induction es arbitrary: t)
  case (Cons e es)
  then show ?case
    by (cases e) (auto simp: insert_export_def result_iff export_name_ok_def intro!: Cons.IH insert_name_ok(1))
qed simp

lemma build_export_trie_lookup:
  assumes "build_export_trie exports = Inr out" and "distinct (map fst exports)" and "\<forall>e \<in> set exports. export_name_ok (fst e)"
  shows "trie_walk out 0 symbol = Some a \<longleftrightarrow> (\<exists>name. encode_utf8 name = Inr symbol \<and> map_of exports name = Some a)"
proof -
  obtain t0 root where t0: "foldM_r insert_export empty_node (sort exports) = Inr t0"
    and root: "layout_rounds 32 t0 = Inr root" and out: "emit_trie root = Inr out"
    using assms(1) by (auto simp: build_export_trie_def result_iff)
  have "trie_ok empty_node" by (simp add: trie_ok_def empty_node_def node_ok_def)
  then have "trie_ok t0" using insert_exports_ok[OF t0] assms(3) by simp
  then obtain c where keep: "\<forall>name. trie_lookup root name = trie_lookup t0 name" "trie_ok root" "relayout 0 root = Inr (root, c, False)"
    using layout_rounds_keeps[OF root] by blast
  obtain bs where bs: "mapM_r encode_node (trie_nodes root) = Inr bs" "out = concat bs"
    using out by (auto simp: emit_trie_def result_iff)
  have lay: "laid_out out root"
    using relayout_placed(1)[OF keep(3) bs(1)] keep(2) bs(2) by (simp add: laid_out_def)
  have off: "tn_offset root = 0"
    using keep(3) by (cases root) (auto simp: result_iff)
  have look: "payload_address (trie_lookup root name) = map_of exports name" for name
    using lookup_exports[OF t0 assms(2)] keep(1) by simp
  have walk: "trie_walk out 0 (concat (map utf8_char name)) = map_of exports name" if "list_all is_scalar name" for name
    using trie_walk_complete[OF lay trie_nodes_self that] look off by simp
  show ?thesis
  proof
    assume w: "trie_walk out 0 symbol = Some a"
    then obtain name where n: "list_all is_scalar name" "symbol = concat (map utf8_char name)"
      using trie_walk_sound[OF lay trie_nodes_self, of symbol a] off by auto
    then show "\<exists>name. encode_utf8 name = Inr symbol \<and> map_of exports name = Some a"
      using walk[OF n(1)] w by (intro exI[of _ name]) (simp add: encode_utf8_def)
  next
    assume "\<exists>name. encode_utf8 name = Inr symbol \<and> map_of exports name = Some a"
    then show "trie_walk out 0 symbol = Some a" using walk by (auto simp: encode_utf8_def split: if_splits)
  qed
qed

end
