(* ===== verification/Dict.thy ===== *)
theory Dict
  imports Prelude "HOL-Library.AList"
begin

section \<open>Dictionaries filled by a loop\<close>

text \<open>
  The interface of a loop that sets a key of a dictionary for every item it keeps, as the exports of Phase 4 and
  the imports of the shim generator are collected: the last item of a key decides its value, and the keys are
  those of the items kept, each once.
\<close>

locale dict_fill =
  fixes keep :: "'i \<Rightarrow> bool" and key :: "'i \<Rightarrow> 'k" and val :: "'i \<Rightarrow> 'v"
    and step :: "'i \<Rightarrow> ('k \<times> 'v) list \<Rightarrow> ('k \<times> 'v) list"
  assumes step_eq: "step x m = (if keep x then AList.update (key x) (val x) m else m)"
begin

lemma last_item:
  "map_of (fold step xs m) k =
     (case find (\<lambda>x. keep x \<and> key x = k) (rev xs) of None \<Rightarrow> map_of m k | Some x \<Rightarrow> Some (val x))"
  by (induction xs rule: rev_induct) (auto simp: step_eq update_conv split: option.split)

lemma distinct_keys: "distinct (map fst m) \<Longrightarrow> distinct (map fst (fold step xs m))"
  by (induction xs arbitrary: m) (auto simp: step_eq distinct_update)

lemma step_keys: "fst ` set (step x m) = (if keep x then insert (key x) (fst ` set m) else fst ` set m)"
  by (simp only: step_eq dom_update split: if_split) simp

lemma keys: "fst ` set (fold step xs m) = fst ` set m \<union> key ` {x \<in> set xs. keep x}"
proof (induction xs arbitrary: m)
  case (Cons x xs)
  have "{z \<in> set (x # xs). keep z} = (if keep x then insert x {z \<in> set xs. keep z} else {z \<in> set xs. keep z})"
    by auto
  then show ?case by (simp add: Cons step_keys del: set_simps)
qed simp

lemma keys_satisfy:
  assumes "\<forall>x \<in> set xs. keep x \<longrightarrow> P (key x)"
  shows "\<forall>k \<in> fst ` set (fold step xs []). P k"
  unfolding keys using assms by simp

end

end
