(* ===== verification/Phase4_Correct.thy ===== *)
theory Phase4_Correct
  imports Phase4 Phase3_Slots Export_Walk Dict
begin

section \<open>What Phase 4 writes\<close>

text \<open>
  The image of Phase 4 against the Phase 3 image it is made from: the same bytes between the header and the
  end of the bind program, the export trie and the string table behind them, and load commands whose
  segments leave no gap.
\<close>

subsection \<open>The tail of the link-edit segment\<close>

definition tail4 :: "bytes \<Rightarrow> int \<Rightarrow> bytes \<Rightarrow> bytes" where
  "tail4 data export_off stream =
     (let str_off = export_off + int (length stream);
          data1 = resize data (str_off + 1);
          data2 = py_slice_assign data1 export_off str_off stream
      in py_slice_assign data2 str_off (str_off + 1) [0])"

lemma length_resize: "0 \<le> n \<Longrightarrow> int (length (resize data n)) = n"
  by (simp add: resize_def py_slice_nonneg)

lemma nth_resize: "int p < n \<Longrightarrow> p < length data \<Longrightarrow> resize data n ! p = data ! p"
  by (simp add: resize_def py_slice_nonneg nth_append)

lemma tail4_props:
  assumes "0 \<le> export_off"
  shows "int (length (tail4 data export_off stream)) = export_off + int (length stream) + 1"
    and "int p < export_off \<Longrightarrow> p < length data \<Longrightarrow> tail4 data export_off stream ! p = data ! p"
    and "k < length stream \<Longrightarrow> tail4 data export_off stream ! (nat export_off + k) = stream ! k"
    and "tail4 data export_off stream ! (nat export_off + length stream) = 0"
proof -
  let ?str = "export_off + int (length stream)"
  let ?d1 = "resize data (?str + 1)"
  let ?d2 = "py_slice_assign ?d1 export_off ?str stream"
  have l1: "int (length ?d1) = ?str + 1" using length_resize[of "?str + 1"] assms by simp
  have l2: "length ?d2 = length ?d1"
    by (rule length_py_slice_assign) (use assms l1 in simp_all)
  have l3: "length (tail4 data export_off stream) = length ?d2"
    unfolding tail4_def Let_def by (rule length_py_slice_assign) (use assms l1 l2 in simp_all)
  show "int (length (tail4 data export_off stream)) = ?str + 1" using l1 l2 l3 by simp
  have n3: "tail4 data export_off stream ! q = (if q = nat ?str then 0 else ?d2 ! q)" if "q < length ?d2" for q
    unfolding tail4_def Let_def
    by (subst nth_py_slice_assign) (use assms l1 l2 that in auto)
  have n2: "?d2 ! q = (if nat export_off \<le> q \<and> q < nat export_off + length stream then stream ! (q - nat export_off) else ?d1 ! q)"
    if "q < length ?d1" for q
    by (rule nth_py_slice_assign) (use assms l1 that in simp_all)
  have str: "nat ?str = nat export_off + length stream" using assms by (simp add: nat_add_distrib)
  show "tail4 data export_off stream ! p = data ! p" if p: "int p < export_off" "p < length data"
  proof -
    have "p < length ?d1" "\<not> nat export_off \<le> p" "p \<noteq> nat ?str" using p assms l1 str by linarith+
    then show ?thesis using n3[of p] n2[of p] l2 nth_resize[of p "?str + 1" data] p by simp
  qed
  show "tail4 data export_off stream ! (nat export_off + k) = stream ! k" if "k < length stream"
  proof -
    have "nat export_off + k < length ?d1" using that l1 assms by linarith
    then show ?thesis using n3[of "nat export_off + k"] n2[of "nat export_off + k"] l2 str that by simp
  qed
  have "nat ?str < length ?d2" using l1 l2 assms by linarith
  then show "tail4 data export_off stream ! (nat export_off + length stream) = 0"
    using n3[of "nat ?str"] by (simp add: str)
qed

subsection \<open>Contiguous segments\<close>

text \<open>File and memory ranges that follow each other without a gap, up to the given ends.\<close>

fun contiguous :: "int \<Rightarrow> int \<Rightarrow> image_segment list \<Rightarrow> bool" where
  "contiguous fo vm [] = True"
| "contiguous fo vm [s] = (is_fileoff s + is_filesize s = fo \<and> is_vmaddr s + is_vmsize s = vm)"
| "contiguous fo vm (s # s' # ss) =
     (is_fileoff s + is_filesize s = is_fileoff s' \<and> is_vmaddr s + is_vmsize s = is_vmaddr s' \<and> contiguous fo vm (s' # ss))"

lemma command_segments_contiguous: "contiguous fo vm (command_segments fo vm segs)"
  by (induction fo vm segs rule: contiguous.induct) (auto simp: Let_def)

lemma command_segments_same:
  "map (\<lambda>s. (is_name s, is_vmaddr s, is_fileoff s, is_protection s, is_data_addr s, is_data_fileoff s, is_section_name s))
     (command_segments fo vm segs)
   = map (\<lambda>s. (is_name s, is_vmaddr s, is_fileoff s, is_protection s, is_data_addr s, is_data_fileoff s, is_section_name s)) segs"
  by (induction fo vm segs rule: contiguous.induct) (auto simp: Let_def)

lemma length_command_segments [simp]: "length (command_segments fo vm segs) = length segs"
  using arg_cong[OF command_segments_same[of fo vm segs], of length] by simp

lemma command_segments_fileoff: "map is_fileoff (command_segments fo vm segs) = map is_fileoff segs"
  using arg_cong[OF command_segments_same[of fo vm segs], of "map (\<lambda>(_, _, o', _). o')"] by (simp add: comp_def)

subsection \<open>A finished build\<close>

lemma symtab_framed:
  assumes "symtab_command off n = Inr c"
  shows "framed LC_SYMTAB c" "length c = 24" "view_symtab c = Some (off, 0, off, n)"
proof -
  let ?items = "[U32 LC_SYMTAB, U32 24, U32 off, U32 0, U32 off, U32 n]"
  have p: "pack ?items = Inr c"
    using assms by (simp add: symtab_command_def)
  have ok: "\<forall>x \<in> set ?items. item_ok x" by (rule pack_items_ok[OF p]) simp
  have "map code_of ?items = symtab_codes" by (simp add: symtab_codes_def numeral_eq_Suc)
  then show "view_symtab c = Some (off, 0, off, n)"
    using unpack_from_packed[OF ok p, of c "[]" "[]" 0] by (simp add: view_symtab_def)
  show "length c = 24" using pack_length[OF p] by simp
  then show "framed LC_SYMTAB c" using pack_framed[OF p, of "[]"] by simp
qed

lemma build4_unfold:
  assumes "phase3_wf t" and "segments_in_file t" and "build3 t shim install prefix v = Inr b"
  shows "build4 t (report3 t tmp shim b) (f_final b) shim' install' v' =
    rbind (dynamic_symbols (p3_elf t)) (\<lambda>syms.
    rbind (build_export_trie (fold (add_export (p3_reserve t)) syms [])) (\<lambda>stream.
      let eo = align (k_fileoff (f_link b) + k_size (f_link b)) 8 in
    rbind (linked_commands (p3_page t) (command_segments (k_fileoff (f_link b)) (k_vmaddr (f_link b)) (p3_segments t))
             (k_vmaddr (f_link b)) (k_fileoff (f_link b)) (eo + int (length stream) + 1 - k_fileoff (f_link b)) shim' install' v'
             (dyld_info_command (k_rebase_off (f_link b)) (int (length (f_rebases b))) (k_bind_off (f_link b))
                (int (length (f_binds b))) eo (int (length stream)))) (\<lambda>cs.
    rbind (symtab_command (eo + int (length stream)) 1) (\<lambda>csym.
    rbind (header_page (Phase3Error Load_Commands_Too_Large) (MH_DYLDLINK OR MH_TWOLEVEL) (p3_reserve t) (cs @ [csym])
             (py_slice_assign (tail4 (f_final b) eo stream) 0 (p3_reserve t) (zeros (p3_reserve t)))) (\<lambda>img.
      Inr \<lparr>x_exports = fold (add_export (p3_reserve t)) syms [], x_stream = stream, x_export_off = eo, x_final = img\<rparr>)))))"
proof -
  let ?k = "f_link b"
  obtain cs0 where ok: "linkedit_ok ?k (int (length (t_image (f_state b)))) (int (length (f_rebases b))) (int (length (f_binds b)))"
    and k: "?k = mk_linkedit (p3_page t) (p3_segments t) (image_end t) (int (length (f_rebases b))) (int (length (f_binds b)))"
    by (rule build3_run[OF assms(1-3)])
  have rep: "r3_linkedit_fileoff (report3 t tmp shim b) = py_hex (k_fileoff ?k)"
    "r3_linkedit_vmaddr (report3 t tmp shim b) = py_hex (k_vmaddr ?k)"
    "r3_rebase_stream_size (report3 t tmp shim b) = int (length (f_rebases b))"
    "r3_bind_stream_size (report3 t tmp shim b) = int (length (f_binds b))"
    by (simp_all add: report3_def Let_def)
  have kb: "align (k_fileoff ?k + int (length (f_rebases b))) 8 = k_bind_off ?k"
    unfolding k by (simp add: mk_linkedit_def Let_def)
  have ke: "k_bind_off ?k + int (length (f_binds b)) = k_fileoff ?k + k_size ?k" "k_rebase_off ?k = k_fileoff ?k"
    using ok by (simp_all add: linkedit_ok_def)
  have t4: "py_slice_assign (py_slice_assign (resize (f_final b) (k_fileoff ?k + (eo + int (length stream) + 1 - k_fileoff ?k))) eo
      (eo + int (length stream)) stream) (eo + int (length stream)) (eo + int (length stream) + 1) [0] = tail4 (f_final b) eo stream"
    for eo stream by (simp add: tail4_def Let_def algebra_simps)
  have sz: "eo + int (length stream) - k_fileoff ?k + 1 = eo + int (length stream) + 1 - k_fileoff ?k" for eo and stream :: bytes
    by simp
  have one: "int (length [z]) = 1" for z :: u8 by simp
  show ?thesis
    unfolding build4_def rep int16_hex exports4_def rbind.simps Let_def kb ke one t4 sz
    by (cases "dynamic_symbols (p3_elf t)") (simp_all only: rmap_simps rbind.simps ke)
qed

lemma build4_run:
  assumes "phase3_wf t" and "segments_in_file t" and "build3 t shim install prefix v = Inr b"
    and "build4 t (report3 t tmp shim b) (f_final b) shim' install' v' = Inr x"
  obtains syms cs csym where "dynamic_symbols (p3_elf t) = Inr syms"
    and "x_exports x = fold (add_export (p3_reserve t)) syms []"
    and "build_export_trie (x_exports x) = Inr (x_stream x)"
    and "x_export_off x = align (k_fileoff (f_link b) + k_size (f_link b)) 8"
    and "linked_commands (p3_page t) (command_segments (k_fileoff (f_link b)) (k_vmaddr (f_link b)) (p3_segments t))
           (k_vmaddr (f_link b)) (k_fileoff (f_link b)) (x_export_off x + int (length (x_stream x)) + 1 - k_fileoff (f_link b))
           shim' install' v' (dyld_info_command (k_rebase_off (f_link b)) (int (length (f_rebases b)))
             (k_bind_off (f_link b)) (int (length (f_binds b))) (x_export_off x) (int (length (x_stream x)))) = Inr cs"
    and "symtab_command (x_export_off x + int (length (x_stream x))) 1 = Inr csym"
    and "header_page (Phase3Error Load_Commands_Too_Large) (MH_DYLDLINK OR MH_TWOLEVEL) (p3_reserve t) (cs @ [csym])
           (py_slice_assign (tail4 (f_final b) (x_export_off x) (x_stream x)) 0 (p3_reserve t) (zeros (p3_reserve t)))
           = Inr (x_final x)"
  using assms(4) that unfolding build4_unfold[OF assms(1-3)] Let_def rbind_Inr_iff by fastforce

text \<open>The bytes of the image.\<close>

lemma build4_final:
  assumes "phase3_wf t" and "segments_in_file t" and "build3 t shim install prefix v = Inr b"
    and "build4 t (report3 t tmp shim b) (f_final b) shim' install' v' = Inr x"
  shows "int (length (x_final x)) = x_export_off x + int (length (x_stream x)) + 1"
    and "p3_reserve t \<le> int p \<Longrightarrow> int p < k_fileoff (f_link b) + k_size (f_link b) \<Longrightarrow> x_final x ! p = f_final b ! p"
    and "image_range (x_final x) (x_export_off x) (int (length (x_stream x))) = x_stream x"
    and "k_fileoff (f_link b) + k_size (f_link b) \<le> x_export_off x"
    and "p3_reserve t \<le> k_fileoff (f_link b)" "image_end t \<le> k_fileoff (f_link b)"
    and "k_fileoff (f_link b) + k_size (f_link b) \<le> int (length (f_final b))"
    and "k_bind_off (f_link b) + int (length (f_binds b)) = k_fileoff (f_link b) + k_size (f_link b)"
    and "k_rebase_off (f_link b) = k_fileoff (f_link b)" "k_fileoff (f_link b) + int (length (f_rebases b)) \<le> k_bind_off (f_link b)"
    and "image_range (x_final x) (x_export_off x + int (length (x_stream x))) 1 = [0]"
proof -
  let ?k = "f_link b"
  let ?tail = "tail4 (f_final b) (x_export_off x) (x_stream x)"
  let ?z = "py_slice_assign ?tail 0 (p3_reserve t) (zeros (p3_reserve t))"
  obtain cs0 where ok: "linkedit_ok ?k (int (length (t_image (f_state b)))) (int (length (f_rebases b))) (int (length (f_binds b)))"
    and len: "int (length (t_image (f_state b))) = image_end t"
    by (rule build3_run[OF assms(1-3)])
  obtain syms cs csym where eo: "x_export_off x = align (k_fileoff ?k + k_size ?k) 8"
    and hp: "header_page (Phase3Error Load_Commands_Too_Large) (MH_DYLDLINK OR MH_TWOLEVEL) (p3_reserve t) (cs @ [csym]) ?z
      = Inr (x_final x)"
    by (rule build4_run[OF assms])
  have res: "0 \<le> p3_reserve t" "p3_reserve t \<le> image_end t" using phase3_wf_end[OF assms(1)] by simp_all
  show i: "image_end t \<le> k_fileoff ?k" using ok len by (simp add: linkedit_ok_def)
  then show r: "p3_reserve t \<le> k_fileoff ?k" using res by linarith
  show e: "k_fileoff ?k + k_size ?k \<le> x_export_off x"
    using align_bounds(1)[of 8 "k_fileoff ?k + k_size ?k"] by (simp add: eo)
  show "k_bind_off ?k + int (length (f_binds b)) = k_fileoff ?k + k_size ?k" "k_rebase_off ?k = k_fileoff ?k"
    "k_fileoff ?k + int (length (f_rebases b)) \<le> k_bind_off ?k"
    using ok by (simp_all add: linkedit_ok_def)
  show f: "k_fileoff ?k + k_size ?k \<le> int (length (f_final b))"
    using ok build3_final(1)[OF assms(1-3)] by (simp add: linkedit_ok_def)
  have "0 \<le> k_size ?k" using ok by (simp add: linkedit_ok_def)
  then have eo0: "0 \<le> x_export_off x" "p3_reserve t \<le> x_export_off x" using e r res by linarith+
  note tl = tail4_props[OF eo0(1), where data = "f_final b" and stream = "x_stream x"]
  have zl: "length ?z = length ?tail"
    by (rule length_py_slice_assign) (use res(1) eo0 tl(1) in simp_all)
  have zn: "?z ! p = ?tail ! p" if "p3_reserve t \<le> int p" "p < length ?tail" for p
    by (subst nth_py_slice_assign) (use res(1) eo0 tl(1) that in auto)
  have "p3_reserve t \<le> int (length ?z)" using zl tl(1) eo0 by simp
  note above = header_page_above[OF hp this]
  have fl: "length (x_final x) = length ?tail" using above(1) zl by simp
  show "int (length (x_final x)) = x_export_off x + int (length (x_stream x)) + 1" using fl tl(1) by simp
  have fn: "x_final x ! p = ?tail ! p" if "p3_reserve t \<le> int p" "p < length ?tail" for p
    using above(2)[of p] zn[of p] zl that by simp
  show "x_final x ! p = f_final b ! p" if "p3_reserve t \<le> int p" "int p < k_fileoff ?k + k_size ?k"
  proof -
    have "p < length ?tail" "int p < x_export_off x" "p < length (f_final b)" using that e f tl(1) by linarith+
    then show ?thesis using fn[OF that(1)] tl(2)[of p] by simp
  qed
  show "image_range (x_final x) (x_export_off x) (int (length (x_stream x))) = x_stream x"
  proof (rule nth_equalityI)
    show l: "length (image_range (x_final x) (x_export_off x) (int (length (x_stream x)))) = length (x_stream x)"
      using fl tl(1) eo0 by (simp add: image_range_def)
    fix j assume "j < length (image_range (x_final x) (x_export_off x) (int (length (x_stream x))))"
    then have j: "j < length (x_stream x)" using l by simp
    have "nat (x_export_off x) + j < length ?tail" "p3_reserve t \<le> int (nat (x_export_off x) + j)"
      using j tl(1) eo0 by linarith+
    then show "image_range (x_final x) (x_export_off x) (int (length (x_stream x))) ! j = x_stream x ! j"
      using fn[of "nat (x_export_off x) + j"] tl(3)[OF j] j fl by (simp add: image_range_def)
  qed
  define q where "q = nat (x_export_off x) + length (x_stream x)"
  have q: "p3_reserve t \<le> int q" "q < length ?tail" using eo0 tl(1) unfolding q_def by linarith+
  then have "x_final x ! q = 0" using fn[OF q] tl(4) by (simp add: q_def)
  moreover have "nat (x_export_off x + int (length (x_stream x))) = q" using eo0(1) by (simp add: q_def)
  ultimately show "image_range (x_final x) (x_export_off x + int (length (x_stream x))) 1 = [0]"
    using q(2) fl by (simp add: image_range_def take_Suc_conv_app_nth hd_drop_conv_nth take_Suc)
qed

text \<open>The same ranges of the two programs.\<close>

lemma build4_ranges:
  assumes "phase3_wf t" and "segments_in_file t" and "build3 t shim install prefix v = Inr b"
    and "build4 t (report3 t tmp shim b) (f_final b) shim' install' v' = Inr x"
  shows "image_range (x_final x) (k_rebase_off (f_link b)) (int (length (f_rebases b))) = f_rebases b"
    and "image_range (x_final x) (k_bind_off (f_link b)) (int (length (f_binds b))) = f_binds b"
proof -
  note f = build4_final[OF assms] and res = phase3_wf_end(2)[OF assms(1)]
  have same: "image_range (x_final x) p n = image_range (f_final b) p n"
    if "p3_reserve t \<le> p" "p + n \<le> k_fileoff (f_link b) + k_size (f_link b)" "0 \<le> n" for p n
  proof (rule nth_equalityI)
    show "length (image_range (x_final x) p n) = length (image_range (f_final b) p n)"
      using that f(1,4,7) res by (simp add: image_range_def)
    fix j assume "j < length (image_range (x_final x) p n)"
    then have j: "j < nat n" "nat p + j < length (x_final x)" by (simp_all add: image_range_def) linarith
    then have "nat p + j < length (f_final b)" "x_final x ! (nat p + j) = f_final b ! (nat p + j)"
      using that f(2)[of "nat p + j"] f(7) res by simp_all
    then show "image_range (x_final x) p n ! j = image_range (f_final b) p n ! j"
      using j by (simp add: image_range_def)
  qed
  show "image_range (x_final x) (k_rebase_off (f_link b)) (int (length (f_rebases b))) = f_rebases b"
    using same[of "k_rebase_off (f_link b)" "int (length (f_rebases b))"] f(5,8,9,10) build3_final(3)[OF assms(1-3)] by simp
  show "image_range (x_final x) (k_bind_off (f_link b)) (int (length (f_binds b))) = f_binds b"
    using same[of "k_bind_off (f_link b)" "int (length (f_binds b))"] f(5,8,9,10) build3_final(4)[OF assms(1-3)] by simp
qed

lemma find_append_Some: "find P xs = Some y \<Longrightarrow> find P (xs @ ys) = Some y"
  by (induction xs) auto

lemma build4_view:
  assumes "phase3_wf t" and "segments_in_file t" and "build3 t shim install prefix v = Inr b"
    and "build4 t (report3 t tmp shim b) (f_final b) shim' install' v' = Inr x"
  obtains cs views lv where "read_macho (x_final x) = Some (MH_DYLIB, MH_DYLDLINK OR MH_TWOLEVEL, cs)"
    and "map command_id cs = replicate (length (p3_segments t) + 1) LC_SEGMENT_64
      @ [LC_LOAD_DYLIB, LC_ID_DYLIB, LC_BUILD_VERSION, LC_DYLD_INFO_ONLY, LC_SYMTAB]"
    and "image_segments (x_final x) = Some (views @ [lv])"
    and "map segment_view_of (command_segments (k_fileoff (f_link b)) (k_vmaddr (f_link b)) (p3_segments t)) = map Some views"
    and "linkedit_view (p3_page t) (k_vmaddr (f_link b)) (k_fileoff (f_link b))
      (int (length (x_final x)) - k_fileoff (f_link b)) = Some lv"
    and "image_dyld_info (x_final x) = Some (k_rebase_off (f_link b), int (length (f_rebases b)),
      k_bind_off (f_link b), int (length (f_binds b)), x_export_off x, int (length (x_stream x)))"
    and "image_symtab (x_final x) = Some (x_export_off x + int (length (x_stream x)), 0,
      x_export_off x + int (length (x_stream x)), 1)"
proof -
  let ?k = "f_link b"
  let ?z = "py_slice_assign (tail4 (f_final b) (x_export_off x) (x_stream x)) 0 (p3_reserve t) (zeros (p3_reserve t))"
  note f = build4_final[OF assms]
  have sz: "x_export_off x + int (length (x_stream x)) + 1 - k_fileoff ?k = int (length (x_final x)) - k_fileoff ?k"
    using f(1) by simp
  obtain syms cs csym where lc: "linked_commands (p3_page t) (command_segments (k_fileoff ?k) (k_vmaddr ?k) (p3_segments t))
           (k_vmaddr ?k) (k_fileoff ?k) (int (length (x_final x)) - k_fileoff ?k)
           shim' install' v' (dyld_info_command (k_rebase_off ?k) (int (length (f_rebases b)))
             (k_bind_off ?k) (int (length (f_binds b))) (x_export_off x) (int (length (x_stream x)))) = Inr cs"
    and sym: "symtab_command (x_export_off x + int (length (x_stream x))) 1 = Inr csym"
    and hp: "header_page (Phase3Error Load_Commands_Too_Large) (MH_DYLDLINK OR MH_TWOLEVEL) (p3_reserve t) (cs @ [csym]) ?z
      = Inr (x_final x)"
    using build4_run[OF assms] unfolding sz by blast
  note lv = linked_commands_view[OF lc] and sy = symtab_framed[OF sym]
  have ids: "command_id csym = LC_SYMTAB" using sy(1) by (simp add: framed_def)
  have res: "0 \<le> p3_reserve t" by (rule phase3_wf_end(2)[OF assms(1)])
  have eo: "0 \<le> k_size ?k" using f(8-10) by linarith
  have eo': "0 \<le> x_export_off x" "p3_reserve t \<le> x_export_off x" using f(4,5) res eo by linarith+
  have "length ?z = length (tail4 (f_final b) (x_export_off x) (x_stream x))"
    by (rule length_py_slice_assign) (use res eo' tail4_props(1)[OF eo'(1), of "f_final b" "x_stream x"] in simp_all)
  then have big: "p3_reserve t \<le> int (length ?z)"
    using tail4_props(1)[OF eo'(1), of "f_final b" "x_stream x"] eo' by simp
  have "list_all (\<lambda>c. \<exists>cmd. framed cmd c) (cs @ [csym])" using lv(1) sy(1) by auto
  from header_page_read[OF hp big this]
  have rd: "read_macho (x_final x) = Some (MH_DYLIB, MH_DYLDLINK OR MH_TWOLEVEL, cs @ [csym])" .
  have "find (\<lambda>c. command_id c = LC_DYLD_INFO_ONLY) (cs @ [csym]) = Some (last cs)"
    using lv(6) by (rule find_append_Some)
  then have di: "image_dyld_info (x_final x) = Some (k_rebase_off ?k, int (length (f_rebases b)),
      k_bind_off ?k, int (length (f_binds b)), x_export_off x, int (length (x_stream x)))"
    by (simp add: image_dyld_info_def rd lv(4))
  have "command_id c \<noteq> LC_SYMTAB" if "c \<in> set cs" for c
  proof -
    have "command_id c \<in> set (map command_id cs)" using that by simp
    then show ?thesis unfolding lv(2) by (auto simp: macho_consts LC_SYMTAB_def)
  qed
  then have "find (\<lambda>c. command_id c = LC_SYMTAB) (cs @ [csym]) = Some csym"
    using ids by (induction cs) auto
  then have st: "image_symtab (x_final x) = Some (x_export_off x + int (length (x_stream x)), 0,
      x_export_off x + int (length (x_stream x)), 1)"
    by (simp add: image_symtab_def rd sy(3))
  obtain views w where vw: "map segment_view_of (command_segments (k_fileoff ?k) (k_vmaddr ?k) (p3_segments t)) = map Some views"
    "linkedit_view (p3_page t) (k_vmaddr ?k) (k_fileoff ?k) (int (length (x_final x)) - k_fileoff ?k) = Some w"
    "List.map_filter view_segment (filter (\<lambda>c. command_id c = LC_SEGMENT_64) cs) = views @ [w]"
    by (rule linked_commands_segments[OF lc])
  have "image_segments (x_final x) = Some (views @ [w])"
    using vw(3) by (simp add: image_segments_def rd ids macho_consts)
  then show thesis
    using that[OF rd _ _ vw(1,2) di st] lv(2) ids by simp
qed

subsection \<open>After dyld has moved it\<close>

text \<open>The same patches, on two images that agree where the patches are, keep them in agreement there.\<close>

lemma patches_agree:
  assumes "u64.patches m ps = Inr m'" and "u64.patches n ps = Inr n'"
    and "\<forall>p \<in> set ps. 0 \<le> fst p \<and> a \<le> fst p \<and> fst p + 8 \<le> c"
    and "\<forall>k. a \<le> int k \<longrightarrow> int k < c \<longrightarrow> m ! k = n ! k" and "0 \<le> a"
    and "c \<le> int (length m)" and "c \<le> int (length n)"
  shows "\<forall>k. a \<le> int k \<longrightarrow> int k < c \<longrightarrow> m' ! k = n' ! k"
  using assms(1-4,6,7)
proof (induction ps arbitrary: m n)
  case (Cons p ps)
  obtain q f where p: "p = (q, f)" by (cases p)
  have q: "0 \<le> q" "a \<le> q" "q + 8 \<le> c" using Cons.prems(3) p by simp_all
  have same: "read_u64 m q = read_u64 n q"
    by (rule read_u64_transfer) (use q Cons.prems(4-6) in auto)
  obtain m1 where m1: "u64.patch m p = Inr m1" "u64.patches m1 ps = Inr m'"
    using Cons.prems(1) by (auto simp: result_iff)
  obtain n1 where n1: "u64.patch n p = Inr n1" "u64.patches n1 ps = Inr n'"
    using Cons.prems(2) by (auto simp: result_iff)
  obtain old where w: "write_u64 m q (f old) = Inr m1" "write_u64 n q (f old) = Inr n1"
    using m1(1) n1(1) same by (auto simp: p u64.patch_def result_iff)
  have len: "length m1 = length m" "length n1 = length n"
    using length_write_u64[OF q(1)] w by auto
  have "m1 ! k = n1 ! k" if k: "a \<le> int k" "int k < c" for k
  proof -
    have "k < length m" "k < length n" using k Cons.prems(5,6) by linarith+
    then show ?thesis using nth_write_u64[OF q(1) w(1)] nth_write_u64[OF q(1) w(2)] Cons.prems(4) k by simp
  qed
  then show ?case
    using Cons.IH[OF m1(2) n1(2)] Cons.prems(3,5,6) len by simp
qed simp

lemma dyld_rebase4:
  assumes "phase3_wf t" and "segments_in_file t" and "build3 t shim install prefix v = Inr b"
    and "build4 t (report3 t tmp shim b) (f_final b) shim' install' v' = Inr x"
    and "dynamic_symbols (p3_elf t) = Inr syms" and "iter_relocations (p3_elf t) = Inr rels"
    and "relocs_ready3 t syms rels" and "sorted_wrt (\<lambda>r q. apart 8 (rel_offset r) (rel_offset q)) rels"
  obtains img3 img4 where "dyld_rebase d (f_final b) = Some img3" and "dyld_rebase d (x_final x) = Some img4"
    and "\<forall>k. p3_reserve t \<le> int k \<longrightarrow> int k < image_end t \<longrightarrow> img4 ! k = img3 ! k"
    and "image_end t \<le> int (length img3)" and "image_end t \<le> int (length img4)"
proof -
  obtain views lv where v3: "image_segments (f_final b) = Some (views @ [lv])"
    "map segment_view_of (p3_segments t) = map Some views"
    "image_dyld_info (f_final b) = Some (k_rebase_off (f_link b), int (length (f_rebases b)),
      k_bind_off (f_link b), int (length (f_binds b)), 0, 0)"
    by (rule build3_view[OF assms(1-3)])
  obtain views' lv' where v4: "image_segments (x_final x) = Some (views' @ [lv'])"
    "map segment_view_of (command_segments (k_fileoff (f_link b)) (k_vmaddr (f_link b)) (p3_segments t)) = map Some views'"
    "image_dyld_info (x_final x) = Some (k_rebase_off (f_link b), int (length (f_rebases b)),
      k_bind_off (f_link b), int (length (f_binds b)), x_export_off x, int (length (x_stream x)))"
    by (rule build4_view[OF assms(1-4)])
  note fo3 = segment_views_fileoff[OF v3(2)]
  have fo4: "map segment_fileoff views' = map is_fileoff (p3_segments t)"
    using segment_views_fileoff[OF v4(2)] by (simp add: command_segments_fileoff)
  let ?plan = "map (\<lambda>(seg, off). (is_fileoff (p3_segments t ! nat seg) + off, \<lambda>v. mask64 (v + d))) (sort (t_rebases (f_state b)))"
  obtain prog where prog: "run_rebase 0 0 0 (f_rebases b) = Some prog"
    "\<forall>p \<in> set (rebase_patches d (views @ [lv]) prog). 0 \<le> fst p \<and> p3_reserve t \<le> fst p \<and> fst p + 8 \<le> image_end t"
    "rebase_patches d (views @ [lv]) prog = ?plan"
    by (rule rebase_program3[OF assms(1-3,5-8) fo3])
  obtain prog' where prog': "run_rebase 0 0 0 (f_rebases b) = Some prog'" "rebase_patches d (views' @ [lv']) prog' = ?plan"
    by (rule rebase_program3[OF assms(1-3,5-8) fo4])
  have pp: "rebase_patches d (views' @ [lv']) prog = rebase_patches d (views @ [lv]) prog"
    using prog(1,3) prog' by simp
  note f4 = build4_final[OF assms(1-4)]
  have l3: "int (length (t_image (f_state b))) = image_end t" by (rule build3_run[OF assms(1-3)])
  have len: "image_end t \<le> int (length (f_final b))" "image_end t \<le> int (length (x_final x))"
    using l3 build3_final(6)[OF assms(1-3)] f4(1,4,6,8-10) by linarith+
  have in3: "\<forall>p \<in> set (rebase_patches d (views @ [lv]) prog). 0 \<le> fst p \<and> fst p + 8 \<le> int (length (f_final b))"
    and in4: "\<forall>p \<in> set (rebase_patches d (views @ [lv]) prog). 0 \<le> fst p \<and> fst p + 8 \<le> int (length (x_final x))"
    using prog(2) len by fastforce+
  obtain img3 where img3: "u64.patches (f_final b) (rebase_patches d (views @ [lv]) prog) = Inr img3"
    using rebase_patches_defined[OF in3] by blast
  obtain img4 where img4: "u64.patches (x_final x) (rebase_patches d (views @ [lv]) prog) = Inr img4"
    using rebase_patches_defined[OF in4] by blast
  have r3: "dyld_rebase d (f_final b) = Some img3"
    using img3 by (simp add: dyld_rebase_def v3(1,3) prog(1) build3_final(3)[OF assms(1-3)])
  have r4: "dyld_rebase d (x_final x) = Some img4"
    using img4 by (simp add: dyld_rebase_def v4(1,3) prog(1) build4_ranges(1)[OF assms(1-4)] pp)
  have "x_final x ! k = f_final b ! k" if "p3_reserve t \<le> int k" "int k < image_end t" for k
    using f4(2)[OF that(1)] f4(6,8-10) that(2) by linarith
  then have "\<forall>k. p3_reserve t \<le> int k \<longrightarrow> int k < image_end t \<longrightarrow> x_final x ! k = f_final b ! k" by blast
  from patches_agree[OF img4 img3 _ this phase3_wf_end(2)[OF assms(1)] len(2,1)] prog(2)
  have "\<forall>k. p3_reserve t \<le> int k \<longrightarrow> int k < image_end t \<longrightarrow> img4 ! k = img3 ! k" by blast
  moreover have "length img3 = length (f_final b)" "length img4 = length (x_final x)"
    using u64.patches_msize[OF _ img3] u64.patches_msize[OF _ img4] prog(2) by auto
  ultimately show thesis using that[OF r3 r4] len by simp
qed

subsection \<open>Exports\<close>

interpretation exports: dict_fill exported "\<lambda>s. lit ''_'' @ sym_name s" "\<lambda>s. reserve + st_value s" "add_export reserve"
  for reserve
  by unfold_locales (simp add: add_export_def)

lemma exports_names:
  assumes "list_all symbol_ok syms"
  shows "\<forall>nm \<in> fst ` set (fold (add_export reserve) syms []). export_name_ok nm"
proof (rule exports.keys_satisfy, intro ballI impI)
  fix s assume "s \<in> set syms"
  then have s: "0 \<notin> set (sym_name s)" "\<forall>c \<in> set (sym_name s). is_scalar c"
    using assms by (simp_all add: symbol_ok_def list_all_iff)
  have "\<forall>c \<in> set (sym_name s). is_scalar c \<and> c \<noteq> 0"
  proof
    fix c assume "c \<in> set (sym_name s)"
    then show "is_scalar c \<and> c \<noteq> 0" using s by (cases "c = 0") simp_all
  qed
  then show "export_name_ok (lit ''_'' @ sym_name s)"
    by (simp add: export_name_ok_def list_all_iff lit_simps is_scalar_def is_surrogate_def)
qed

text \<open>The lookup of a symbol by dyld: the walk over the export trie the load commands name.\<close>

definition dyld_export :: "bytes \<Rightarrow> bytes \<Rightarrow> int option" where
  "dyld_export img symbol =
     (case image_dyld_info img of None \<Rightarrow> None
      | Some (_, _, _, _, eo, es) \<Rightarrow> trie_walk (image_range img eo es) 0 symbol)"

lemma dyld_export4:
  assumes "phase3_wf t" and "segments_in_file t" and "build3 t shim install prefix v = Inr b"
    and "build4 t (report3 t tmp shim b) (f_final b) shim' install' v' = Inr x"
    and "dynamic_symbols (p3_elf t) = Inr syms"
  shows "dyld_export (x_final x) symbol = Some a \<longleftrightarrow>
    (\<exists>name s. encode_utf8 (lit ''_'' @ name) = Inr symbol
       \<and> find (\<lambda>s. exported s \<and> sym_name s = name) (rev syms) = Some s \<and> a = p3_reserve t + st_value s)"
proof -
  have wf: "elf_wf (p3_elf t)" using assms(1) by (simp add: phase3_wf_def)
  have so: "list_all symbol_ok syms" using dynamic_symbols_total[OF wf] assms(5) by auto
  let ?ex = "fold (add_export (p3_reserve t)) syms []"
  have tr: "build_export_trie ?ex = Inr (x_stream x)"
    by (rule build4_run[OF assms(1-4)]) (use assms(5) in simp)
  have "image_dyld_info (x_final x) = Some (k_rebase_off (f_link b), int (length (f_rebases b)),
      k_bind_off (f_link b), int (length (f_binds b)), x_export_off x, int (length (x_stream x)))"
    by (rule build4_view[OF assms(1-4)])
  then have "dyld_export (x_final x) symbol = trie_walk (x_stream x) 0 symbol"
    using build4_final(3)[OF assms(1-4)] by (simp add: dyld_export_def)
  moreover have "\<forall>e \<in> set ?ex. export_name_ok (fst e)" using exports_names[OF so] by simp
  ultimately have walk: "dyld_export (x_final x) symbol = Some a \<longleftrightarrow>
      (\<exists>nm. encode_utf8 nm = Inr symbol \<and> map_of ?ex nm = Some a)"
    using build_export_trie_lookup[OF tr exports.distinct_keys] by simp
  have look: "map_of ?ex nm = Some a \<longleftrightarrow> (\<exists>name s. nm = lit ''_'' @ name
      \<and> find (\<lambda>s. exported s \<and> sym_name s = name) (rev syms) = Some s \<and> a = p3_reserve t + st_value s)" for nm
  proof -
    have name: "(\<lambda>s. exported s \<and> lit ''_'' @ sym_name s = lit ''_'' @ name) = (\<lambda>s. exported s \<and> sym_name s = name)" for name
      by (simp add: lit_simps)
    show ?thesis
    proof (cases "\<exists>name. nm = lit ''_'' @ name")
      case True
      then obtain name where "nm = lit ''_'' @ name" by blast
      then show ?thesis using exports.last_item[of "p3_reserve t" syms "[]" nm] name[of name] by (auto split: option.splits)
    next
      case False
      then have "find (\<lambda>s. exported s \<and> lit ''_'' @ sym_name s = nm) (rev syms) = None"
        by (auto simp: find_None_iff)
      then show ?thesis using False exports.last_item[of "p3_reserve t" syms "[]" nm] by auto
    qed
  qed
  show ?thesis unfolding walk look by blast
qed

subsection \<open>When the translation goes through\<close>

text \<open>
  The conditions beyond those of Phase 3: the load commands with the widened segments and the symbol table
  fit, and so does an export trie of \<open>n\<close> bytes.
\<close>

definition fits4 :: "phase3 \<Rightarrow> pystr \<Rightarrow> pystr \<Rightarrow> int \<times> int \<times> int \<Rightarrow> int \<Rightarrow> int \<Rightarrow> bool" where
  "fits4 t shim install v room n \<longleftrightarrow>
     fits3 t shim install v room
     \<and> list_all segment_fits (command_segments (align (image_end t) (p3_page t))
          (align (max_list (map (\<lambda>x. is_vmaddr x + is_vmsize x) (p3_segments t))) (p3_page t)) (p3_segments t))
     \<and> image_end t + 3 * p3_page t + room + n + 16 < 2 ^ 32
     \<and> (case (encode_utf8 shim, encode_utf8 install) of
          (Inr a, Inr b) \<Rightarrow> 232 * int (length (p3_segments t)) + 200 + dylib_size a + dylib_size b \<le> p3_reserve t
        | _ \<Rightarrow> False)"

lemma symtab_command_ok: "\<forall>x \<in> set [U32 off, U32 n]. item_ok x \<Longrightarrow> \<exists>c. symtab_command off n = Inr c"
proof -
  assume "\<forall>x \<in> set [U32 off, U32 n]. item_ok x"
  then have "\<forall>x \<in> set [U32 LC_SYMTAB, U32 24, U32 off, U32 0, U32 off, U32 n]. item_ok x"
    by (simp add: LC_SYMTAB_def)
  then show ?thesis using pack_ok unfolding symtab_command_def by blast
qed

lemma stream_room_pos: "0 \<le> stream_room n l"
  by (simp add: stream_room_def)

lemma build4_ok:
  assumes "phase3_wf t" and "segments_in_file t" and "build3 t shim install prefix v = Inr b"
    and "dynamic_symbols (p3_elf t) = Inr syms" and "iter_relocations (p3_elf t) = Inr rels"
    and "relocs_ready3 t syms rels" and "\<forall>s \<in> set syms. length prefix + length (sym_name s) \<le> l"
    and "build_export_trie (fold (add_export (p3_reserve t)) syms []) = Inr stream"
    and "fits4 t shim install v (stream_room (length rels) l) (int (length stream))"
  shows "\<exists>x. build4 t (report3 t tmp shim b) (f_final b) shim install v = Inr x"
proof -
  let ?room = "stream_room (length rels) l" and ?k = "f_link b"
  have wf: "elf_wf (p3_elf t)" "pow2 (p3_page t)" using assms(1) by (simp_all add: phase3_wf_def)
  have so: "list_all reloc_ok rels" using iter_relocations_total[OF wf(1)] assms(5) by auto
  have fit: "length (p3_segments t) \<le> 16" "list_all segment_fits (p3_segments t)"
    "item_ok (U64 (align (max_list (map (\<lambda>x. is_vmaddr x + is_vmsize x) (p3_segments t))) (p3_page t)))"
    "image_end t + 3 * p3_page t + ?room < 2 ^ 32" "p3_reserve t < 2 ^ 32" "item_ok (U32 (encode_version v))"
    using assms(9) by (simp_all add: fits4_def fits3_def)
  have fit': "image_end t + 3 * p3_page t + ?room + int (length stream) + 16 < 2 ^ 32"
    "list_all segment_fits (command_segments (align (image_end t) (p3_page t))
       (align (max_list (map (\<lambda>x. is_vmaddr x + is_vmsize x) (p3_segments t))) (p3_page t)) (p3_segments t))"
    using assms(9) by (simp_all add: fits4_def)
  obtain syms' rels' cs0 where s: "dynamic_symbols (p3_elf t) = Inr syms'" "iter_relocations (p3_elf t) = Inr rels'"
    and run: "run_effect3 t syms' prefix rels'
      \<lparr>t_image = copy_segments t, t_rebases = [], t_bindings = [], t_patched = no_patches\<rparr> (f_state b)"
    and rb: "rebase_stream (t_rebases (f_state b)) = Inr (f_rebases b)"
      "bind_stream (t_bindings (f_state b)) 1 = Inr (f_binds b)"
    and lk: "linkedit_ok ?k (int (length (t_image (f_state b)))) (int (length (f_rebases b))) (int (length (f_binds b)))"
    and k: "?k = mk_linkedit (p3_page t) (p3_segments t) (image_end t) (int (length (f_rebases b))) (int (length (f_binds b)))"
    and len: "int (length (t_image (f_state b))) = image_end t"
    by (rule build3_run[OF assms(1-3)])
  have ss: "syms' = syms" "rels' = rels" using s assms(4,5) by simp_all
  note room = stream_sizes[OF assms(1) fit(2) so assms(7) run[unfolded ss] rb]
  have ie: "0 \<le> image_end t" using len by linarith
  define eo where "eo = align (k_fileoff ?k + k_size ?k) 8"
  have st: "0 \<le> int (length stream)" "0 \<le> int (length (f_rebases b))" "0 \<le> int (length (f_binds b))" by simp_all
  note lk3 = mk_linkedit_fits[OF wf(2) ie st(2,3) room fit(4,3), folded k]
  have p: "0 < p3_page t" by (rule pow2_pos[OF wf(2)])
  have p8: "pow2 8" by simp
  have kf: "k_fileoff ?k = align (image_end t) (p3_page t)"
    and kv: "k_vmaddr ?k = align (max_list (map (\<lambda>x. is_vmaddr x + is_vmsize x) (p3_segments t))) (p3_page t)"
    unfolding k by (simp_all add: mk_linkedit_def Let_def)
  have f0: "image_end t \<le> k_fileoff ?k" "k_fileoff ?k < image_end t + p3_page t"
    using align_bounds[OF wf(2), of "image_end t"] by (simp_all add: kf)
  have e0: "k_fileoff ?k + k_size ?k \<le> eo" "eo < k_fileoff ?k + k_size ?k + 8"
    using align_bounds[OF p8, of "k_fileoff ?k + k_size ?k"] by (simp_all add: eo_def)
  have e1: "k_fileoff ?k + int (length (f_rebases b)) \<le> k_bind_off ?k" "k_bind_off ?k < k_fileoff ?k + int (length (f_rebases b)) + 8"
    "k_bind_off ?k + int (length (f_binds b)) = k_fileoff ?k + k_size ?k"
    using lk by (simp_all add: linkedit_ok_def)
  let ?sz = "eo + int (length stream) + 1 - k_fileoff ?k"
  have z: "0 \<le> ?sz" "?sz < ?room + int (length stream) + 9" "?sz \<le> align ?sz (p3_page t)" "align ?sz (p3_page t) < ?sz + p3_page t"
    using align_bounds[OF wf(2), of ?sz] e0 e1 st room by linarith+
  have u64: "\<forall>x \<in> set [U64 (k_vmaddr ?k), U64 (align ?sz (p3_page t)), U64 (k_fileoff ?k), U64 ?sz]. item_ok x"
    using lk3(1) z fit'(1) ie p by simp
  have u32: "\<forall>x \<in> set [U32 (k_rebase_off ?k), U32 (int (length (f_rebases b))), U32 (k_bind_off ?k), U32 (int (length (f_binds b))),
      U32 eo, U32 (int (length stream))]. item_ok x"
    using lk3(2) e0 e1 f0 fit'(1) ie p room st by simp
  have us: "\<forall>x \<in> set [U32 (eo + int (length stream)), U32 1]. item_ok x"
    using e0 e1 f0 fit'(1) ie p room st by simp
  obtain csym where csym: "symtab_command (eo + int (length stream)) 1 = Inr csym" using symtab_command_ok[OF us] by blast
  have cl: "length csym = 24" by (rule symtab_framed(2)[OF csym])
  obtain a b' where ab: "encode_utf8 shim = Inr a" "encode_utf8 install = Inr b'"
    and hr: "232 * int (length (p3_segments t)) + 200 + dylib_size a + dylib_size b' \<le> p3_reserve t"
    using assms(9) by (auto simp: fits4_def split: sum.splits)
  have sm: "dylib_size a < 2 ^ 32" "dylib_size b' < 2 ^ 32"
    using hr fit(5) dylib_size_bounds(1)[of a] dylib_size_bounds(1)[of b'] by linarith+
  from linked_commands_ok[OF fit'(2)[folded kf kv] ab sm fit(6) u64 u32]
  obtain cs where cs: "linked_commands (p3_page t) (command_segments (k_fileoff ?k) (k_vmaddr ?k) (p3_segments t))
      (k_vmaddr ?k) (k_fileoff ?k) ?sz shim install v (dyld_info_command (k_rebase_off ?k) (int (length (f_rebases b)))
        (k_bind_off ?k) (int (length (f_binds b))) eo (int (length stream))) = Inr cs"
    "32 + int (length (concat (cs @ [csym]))) \<le> p3_reserve t" "int (length (cs @ [csym])) < 2 ^ 32"
    using hr cl fit(1) by auto
  have fl: "0 \<le> MH_DYLDLINK OR MH_TWOLEVEL" "MH_DYLDLINK OR MH_TWOLEVEL < 2 ^ 32" by (simp_all add: macho_consts)
  obtain img where img: "header_page (Phase3Error Load_Commands_Too_Large) (MH_DYLDLINK OR MH_TWOLEVEL) (p3_reserve t) (cs @ [csym])
      (py_slice_assign (tail4 (f_final b) eo stream) 0 (p3_reserve t) (zeros (p3_reserve t))) = Inr img"
    using header_page_ok[OF cs(2) fit(5) cs(3) fl] by blast
  show ?thesis
    unfolding build4_unfold[OF assms(1-3)] Let_def eo_def[symmetric] assms(4,8) rbind.simps cs(1) csym img by blast
qed

end
