(* ===== verification/Demo3.thy ===== *)
theory Demo3
  imports Phase3_Slots Demo
begin

section \<open>The small shared object under Phase 3\<close>

text \<open>
  The layout, the conditions of success and the build of Phase 3 on the object of \<open>Demo\<close>, for the witnesses.
\<close>

definition demo_seg0 :: image_segment where
  "demo_seg0 = first_segment IMAGE_BASE HEADER_RESERVE IOS_PAGE demo_text"

definition demo_seg1 :: image_segment where
  "demo_seg1 = other_segment HEADER_RESERVE IOS_PAGE 0x14000 1 demo_data"

definition demo_t3 :: phase3 where
  "demo_t3 = \<lparr>p3_elf = demo_elf, p3_base = IMAGE_BASE, p3_reserve = HEADER_RESERVE, p3_page = IOS_PAGE,
     p3_slide = HEADER_RESERVE, p3_segments = [demo_seg0, demo_seg1]\<rparr>"

lemma demo_seg_fields:
  "is_elf_vaddr demo_seg0 = 0" "is_elf_filesz demo_seg0 = 64" "is_elf_offset demo_seg0 = 0"
  "is_data_fileoff demo_seg0 = 0x10000" "is_vmaddr demo_seg0 = 0" "is_vmsize demo_seg0 = 0x14000"
  "is_fileoff demo_seg0 = 0" "is_filesize demo_seg0 = 0x10040"
  "is_elf_vaddr demo_seg1 = 528" "is_elf_filesz demo_seg1 = 40" "is_elf_offset demo_seg1 = 176"
  "is_data_fileoff demo_seg1 = 0x14210" "is_vmaddr demo_seg1 = 0x10000" "is_vmsize demo_seg1 = 0x4000"
  "is_fileoff demo_seg1 = 0x14000" "is_filesize demo_seg1 = 568"
  by code_simp+

lemma demo_layout3: "layout_segments demo_elf IMAGE_BASE HEADER_RESERVE IOS_PAGE = Inr [demo_seg0, demo_seg1]"
  by code_simp

lemma demo_init3: "phase3_init demo_elf IMAGE_BASE HEADER_RESERVE IOS_PAGE = Inr demo_t3"
  by (simp add: phase3_init_def demo_layout3) (simp add: demo_t3_def demo_header_def elf_consts IMAGE_BASE_def)

lemma demo_t3_wf: "phase3_wf demo_t3"
  by (rule phase3_init_wf(1)[OF demo_init3 demo_wf pow2_IOS_PAGE]) (simp_all add: IMAGE_BASE_def HEADER_RESERVE_def)

lemma demo_t3_simps [simp]: "p3_elf demo_t3 = demo_elf" "p3_slide demo_t3 = HEADER_RESERVE" "p3_page demo_t3 = IOS_PAGE"
  "p3_segments demo_t3 = [demo_seg0, demo_seg1]" "p3_reserve demo_t3 = HEADER_RESERVE"
  by (simp_all add: demo_t3_def)

lemma demo_in_file3: "segments_in_file demo_t3"
  by (simp add: segments_in_file_def demo_seg_fields length_demo_file)

lemma demo_ready3: "relocs_ready3 demo_t3 demo_syms demo_rels"
  by (simp add: relocs_ready3_def p3.slot_inside_def demo_rels_def demo_reloc_def demo_seg_fields segment_covers_def
      known_reloc_def reloc_consts symbol_relocs_def demo_syms_def)

lemma demo_names3: "\<forall>s \<in> set demo_syms. length (lit ''_a2i_'') + length (sym_name s) \<le> 11"
  by (simp add: demo_syms_def demo_symbol_def)

lemma demo_apart: "sorted_wrt (\<lambda>r q. apart 8 (rel_offset r) (rel_offset q)) demo_rels"
  by (simp add: demo_rels_def demo_reloc_def apart_def)

lemma demo_prefix: "list_all is_scalar (lit ''_a2i_'')"
  by (simp add: lit_simps is_scalar_def is_surrogate_def)

lemma demo_fits3: "fits3 demo_t3 (lit ''y'') (lit ''x'') (12, 0, 0) (stream_room (length demo_rels) 11)"
proof -
  have "segment_fits demo_seg0" "segment_fits demo_seg1" by code_simp+
  moreover have "encode_utf8 (lit ''y'') = Inr [121]" "encode_utf8 (lit ''x'') = Inr [120]"
    by (simp_all add: lit_simps encode_utf8_Cons is_scalar_def is_surrogate_def utf8_char_def)
  moreover have "dylib_size [121] = 32" "dylib_size [120] = 32" "encode_version (12, 0, 0) = 0xC0000"
    "segments_end 0x4000 [demo_seg0, demo_seg1] = 0x18000" "align (max_list (map (\<lambda>x. is_vmaddr x + is_vmsize x) [demo_seg0, demo_seg1])) 0x4000 = 0x14000"
    by code_simp+
  ultimately show ?thesis
    by (simp add: fits3_def demo_t3_def stream_room_def demo_rels_def HEADER_RESERVE_def IOS_PAGE_def)
qed


definition demo_out3 :: p3_build where
  "demo_out3 = projr (build3 demo_t3 (lit ''y'') (lit ''x'') (lit ''_a2i_'') (12, 0, 0))"

lemma demo_build3: "build3 demo_t3 (lit ''y'') (lit ''x'') (lit ''_a2i_'') (12, 0, 0) = Inr demo_out3"
proof -
  obtain b where "build3 demo_t3 (lit ''y'') (lit ''x'') (lit ''_a2i_'') (12, 0, 0) = Inr b"
    using build3_ok[OF demo_t3_wf demo_in_file3 _ _ demo_ready3 demo_prefix demo_names3 demo_fits3]
      demo_symbols demo_relocs by auto
  then show ?thesis by (simp add: demo_out3_def)
qed

end
