(* ===== verification/Demo4.thy ===== *)
theory Demo4
  imports Phase4_Correct Demo3
begin

section \<open>The small shared object under Phase 4\<close>

text \<open>
  The export trie and the build of Phase 4 on the object of \<open>Demo\<close>, for the witnesses: its one export is
  \<open>_inside\<close>, a chain of eight nodes that the layout places in two rounds.
\<close>

definition demo_exports :: "(pystr \<times> int) list" where
  "demo_exports = [(lit ''_inside'', 0x10010)]"

lemma demo_exports4: "fold (add_export HEADER_RESERVE) demo_syms [] = demo_exports"
  by code_simp

fun demo_chain :: "(nat \<times> int) list \<Rightarrow> int \<Rightarrow> trie" where
  "demo_chain [] off = TrieNode [0, 0x90, 0x80, 4] [] off"
| "demo_chain ((c, o') # cs) off = TrieNode [] [(c, demo_chain cs o')] off"

definition demo_trie0 :: trie where
  "demo_trie0 = demo_chain [(95, 0), (105, 0), (110, 0), (115, 0), (105, 0), (100, 0), (101, 0)] 0"

definition demo_trie :: trie where
  "demo_trie = demo_chain [(95, 5), (105, 10), (110, 15), (115, 20), (105, 25), (100, 30), (101, 35)] 0"

definition demo_stream :: bytes where
  "demo_stream = [0, 1, 95, 0, 5, 0, 1, 105, 0, 10, 0, 1, 110, 0, 15, 0, 1, 115, 0, 20, 0, 1, 105, 0, 25,
     0, 1, 100, 0, 30, 0, 1, 101, 0, 35, 4, 0, 0x90, 0x80, 4, 0]"

lemma encode_edge_ascii:
  "c < 128 \<Longrightarrow> 0 \<le> tn_offset n \<Longrightarrow> encode_edge (c, n) = Inr (word_of_nat c # 0 # uleb_bytes (tn_offset n))"
  by (simp add: encode_edge_def encode_utf8_Cons is_scalar_def is_surrogate_def utf8_char_def uleb128_4_def)

lemma demo_ulebs:
  "uleb_bytes 0 = [0]" "uleb_bytes 4 = [4]" "uleb_bytes 5 = [5]" "uleb_bytes 10 = [10]" "uleb_bytes 15 = [15]"
  "uleb_bytes 20 = [20]" "uleb_bytes 25 = [25]" "uleb_bytes 30 = [30]" "uleb_bytes 35 = [35]"
  "uleb_bytes 0x10010 = [0x90, 0x80, 4]"
  by code_simp+

lemmas demo_encoding = encode_node_def encode_edge_ascii demo_ulebs uleb128_4_def

lemma demo_inserted: "foldM_r insert_export empty_node (sort demo_exports) = Inr demo_trie0"
  by (simp add: demo_exports_def insert_export_def export_payload_def uleb128_4_def demo_ulebs demo_trie0_def
      empty_node_def lit_simps)

lemma demo_rounds: "relayout 0 demo_trie0 = Inr (demo_trie, 41, True)" "relayout 0 demo_trie = Inr (demo_trie, 41, False)"
  by (simp_all add: demo_trie0_def demo_trie_def demo_encoding)

lemma demo_built_trie: "build_export_trie demo_exports = Inr demo_stream"
  by (simp add: build_export_trie_def demo_inserted demo_rounds eval_nat_numeral emit_trie_def)
    (simp add: demo_trie_def demo_stream_def demo_encoding)

lemma demo_fits4: "fits4 demo_t3 (lit ''y'') (lit ''x'') (12, 0, 0) (stream_room (length demo_rels) 11) (int (length demo_stream))"
proof -
  have "command_segments 0x18000 0x14000 [demo_seg0, demo_seg1]
      = [demo_seg0\<lparr>is_filesize := 0x14000, is_vmsize := 0x10000\<rparr>, demo_seg1\<lparr>is_filesize := 0x4000, is_vmsize := 0x4000\<rparr>]"
    by (simp add: demo_seg_fields)
  moreover have "segment_fits (demo_seg0\<lparr>is_filesize := 0x14000, is_vmsize := 0x10000\<rparr>)"
    "segment_fits (demo_seg1\<lparr>is_filesize := 0x4000, is_vmsize := 0x4000\<rparr>)" by code_simp+
  moreover have "encode_utf8 (lit ''y'') = Inr [121]" "encode_utf8 (lit ''x'') = Inr [120]"
    by (simp_all add: lit_simps encode_utf8_Cons is_scalar_def is_surrogate_def utf8_char_def)
  moreover have "dylib_size [121] = 32" "dylib_size [120] = 32" "segments_end 0x4000 [demo_seg0, demo_seg1] = 0x18000"
    "align (max_list (map (\<lambda>x. is_vmaddr x + is_vmsize x) [demo_seg0, demo_seg1])) 0x4000 = 0x14000"
    "align 0x18000 0x4000 = 0x18000"
    by code_simp+
  ultimately show ?thesis
    using demo_fits3
    by (simp add: fits4_def stream_room_def demo_rels_def HEADER_RESERVE_def IOS_PAGE_def demo_stream_def)
qed

lemma demo_tables: "dynamic_symbols (p3_elf demo_t3) = Inr demo_syms" "iter_relocations (p3_elf demo_t3) = Inr demo_rels"
  by (simp_all add: demo_symbols demo_relocs)

lemma demo_trie3: "build_export_trie (fold (add_export (p3_reserve demo_t3)) demo_syms []) = Inr demo_stream"
  by (simp add: demo_exports4 demo_built_trie)

definition demo_out4 :: p4_build where
  "demo_out4 = projr (build4 demo_t3 (report3 demo_t3 (lit ''tmp'') (lit ''y'') demo_out3) (f_final demo_out3)
     (lit ''y'') (lit ''x'') (12, 0, 0))"

lemma demo_build4:
  "build4 demo_t3 (report3 demo_t3 (lit ''tmp'') (lit ''y'') demo_out3) (f_final demo_out3) (lit ''y'') (lit ''x'') (12, 0, 0)
   = Inr demo_out4"
proof -
  obtain x where "build4 demo_t3 (report3 demo_t3 (lit ''tmp'') (lit ''y'') demo_out3) (f_final demo_out3)
      (lit ''y'') (lit ''x'') (12, 0, 0) = Inr x"
    using build4_ok[OF demo_t3_wf demo_in_file3 demo_build3 demo_tables demo_ready3 demo_names3 demo_trie3 demo_fits4] by blast
  then show ?thesis by (simp add: demo_out4_def)
qed

end
