(* ===== verification/Phase2_Props.thy ===== *)
theory Phase2_Props
  imports Phase2_Correct Load_Commands Demo
begin

section \<open>The properties of Phase 2\<close>

text \<open>
  The theorems about \<open>translate.py\<close>: layout, segment bytes, relocated slots, header page, report,
  success, failure; each with a witness on the shared object of \<open>Demo\<close>.
\<close>

subsection \<open>Lemmas\<close>

lemma place2_find:
  "find (load_covers v) loads = Some l \<Longrightarrow> place2 loads v = ml_fileoff l + ml_delta l + (v - ml_elf_vaddr l)"
  by (simp add: place2_def vaddr_to_output_offset_def)

text \<open>The image above the header page is what the relocation loop left.\<close>

lemma read_u64_drop_eq:
  assumes "length a = length b" and "0 \<le> p" and "\<And>k. p \<le> int k \<Longrightarrow> k < length b \<Longrightarrow> a ! k = b ! k"
  shows "read_u64 a p = read_u64 b p"
  by (rule read_u64_cong) (use assms in auto)

lemma build2_above:
  assumes "phase2_wf t" and "loads_in_file t" and "build2 t nm v = Inr (img, st)"
  shows "length img = length (s_image st)" "int (length img) = loads_end (p2_page t) (p2_loads t)"
    and "p2_page t \<le> int k \<Longrightarrow> k < length img \<Longrightarrow> img ! k = s_image st ! k"
proof -
  obtain syms rels where run: "run_effect (p2_loads t) (p2_slide t) syms rels
      \<lparr>s_image = copy_loads t, s_patched = no_patches, s_unresolved = []\<rparr> st"
    and hd: "emit_header2 t nm v (s_image st) = Inr img"
    by (rule build2_run[OF assms(1,3)])
  have page: "0 \<le> p2_page t" using phase2_wf_page[OF assms(1)] by simp
  have len: "length (s_image st) = length (copy_loads t)"
    by (rule run_effect_length[OF run phase2_wf_placed[OF assms(1)] page])
  have le: "p2_page t \<le> int (length (s_image st))"
    using len length_copy_loads[OF assms(1,2)] phase2_wf_page_le[OF assms(1)] by simp
  show "length img = length (s_image st)" by (rule emit_header2_above(1)[OF hd le])
  then show "int (length img) = loads_end (p2_page t) (p2_loads t)"
    using len length_copy_loads[OF assms(1,2)] by simp
  show "p2_page t \<le> int k \<Longrightarrow> k < length img \<Longrightarrow> img ! k = s_image st ! k"
    using emit_header2_above[OF hd le] by simp
qed

text \<open>The bytes of a slot inside a segment before the loop are the file's.\<close>

lemma read_copy_loads:
  assumes "phase2_wf t" and "loads_in_file t" and "l \<in> set (p2_loads t)" and "0 \<le> k" and "k + 8 \<le> ml_elf_filesz l"
  shows "read_u64 (copy_loads t) (ml_fileoff l + ml_delta l + k)
    = read_u64 (edata (p2_elf t)) (ml_elf_offset l + k)"
proof -
  let ?p = "ml_fileoff l + ml_delta l + k" and ?q = "ml_elf_offset l + k"
  have pb: "p2_page t \<le> ml_fileoff l + ml_delta l"
    "ml_fileoff l + ml_delta l + ml_elf_filesz l \<le> int (length (copy_loads t))"
    using p2.placed_bounds[OF phase2_wf_placed[OF assms(1)] assms(3)] length_copy_loads[OF assms(1,2)] by auto
  have p0: "0 \<le> ?p" "?p + 8 \<le> int (length (copy_loads t))"
    using pb assms(4,5) phase2_wf_page[OF assms(1)] by linarith+
  have q0: "0 \<le> ?q" "?q + 8 \<le> int (length (edata (p2_elf t)))"
    using assms(2-5) phase2_wf_load(1)[OF assms(1,3)] by (fastforce simp: loads_in_file_def)+
  have "copy_loads t ! nat (?p + i) = edata (p2_elf t) ! nat (?q + i)" if "0 \<le> i" "i < 8" for i
    using nth_copy_loads[OF assms(1-3), of "k + i"] assms(4,5) that by (simp add: add.assoc)
  then show ?thesis by (rule read_u64_transfer[OF p0 q0])
qed

subsection \<open>The shared object of the witnesses\<close>

definition demo_t :: phase2 where
  "demo_t =
     \<lparr>p2_elf = demo_elf, p2_header_vm = HEADER_VM, p2_slide = ELF_SLIDE, p2_page = IOS_PAGE,
      p2_loads = map_loads_loop ELF_SLIDE IOS_PAGE IOS_PAGE 0 [demo_text, demo_data]\<rparr>"

definition demo_load0 :: mapped_load where
  "demo_load0 = map_load ELF_SLIDE IOS_PAGE 0x4000 0 demo_text"

definition demo_load1 :: mapped_load where
  "demo_load1 = map_load ELF_SLIDE IOS_PAGE 0x8000 1 demo_data"

lemma demo_init: "phase2_init demo_elf HEADER_VM ELF_SLIDE IOS_PAGE = Inr demo_t"
  by (simp add: phase2_init_def demo_t_def map_loads_def demo_header_def elf_consts Let_def demo_text_def
      PT_LOAD_def)

lemma demo_t_wf: "phase2_wf demo_t"
  by (rule phase2_init_wf(1)[OF demo_init demo_wf pow2_IOS_PAGE])

lemma demo_t_simps [simp]: "p2_elf demo_t = demo_elf" "p2_slide demo_t = ELF_SLIDE" "p2_page demo_t = IOS_PAGE"
  by (simp_all add: demo_t_def)

lemma demo_loads: "p2_loads demo_t = [demo_load0, demo_load1]"
  by code_simp

lemma demo_load_fields:
  "ml_elf_vaddr demo_load0 = 0" "ml_elf_filesz demo_load0 = 64" "ml_elf_offset demo_load0 = 0"
  "ml_fileoff demo_load0 = 0x4000" "ml_delta demo_load0 = 0"
  "ml_elf_vaddr demo_load1 = 528" "ml_elf_filesz demo_load1 = 40" "ml_elf_offset demo_load1 = 176"
  "ml_fileoff demo_load1 = 0x8000" "ml_delta demo_load1 = 528"
  by code_simp+

lemma demo_in_file: "loads_in_file demo_t"
  by (simp add: loads_in_file_def demo_loads demo_load_fields length_demo_file)

lemma demo_name: "encode_utf8 (lit ''@rpath/x'') = Inr [64, 114, 112, 97, 116, 104, 47, 120]"
  by (simp add: lit_simps encode_utf8_Cons is_scalar_def is_surrogate_def utf8_char_def)

lemma demo_segments_pack:
  "segment_packs (header_segment demo_t)" "segment_packs demo_load0" "segment_packs demo_load1"
  by code_simp+

lemma demo_header_fits: "header_fits demo_t (lit ''@rpath/x'') (15, 0, 0)"
proof -
  have "dylib_size [64, 114, 112, 97, 116, 104, 47, 120] = 40" "encode_version (15, 0, 0) = 983040"
    by code_simp+
  then show ?thesis
    using demo_segments_pack by (simp add: header_fits_def demo_name demo_loads IOS_PAGE_def)
qed

lemma demo_ready: "relocs_ready (p2_loads demo_t) demo_syms demo_rels"
  by (simp add: relocs_ready_def demo_loads p2.slot_inside_def vaddr_to_output_offset_def demo_rels_def
      demo_reloc_def demo_load_fields load_covers_def known_reloc_def reloc_consts symbol_relocs_def demo_syms_def)

definition demo_out :: "bytes \<times> p2_state" where
  "demo_out = (case build2 demo_t (lit ''@rpath/x'') (15, 0, 0) of Inr r \<Rightarrow> r | Inl _ \<Rightarrow> ([], \<lparr>s_image = [], s_patched = no_patches, s_unresolved = []\<rparr>))"

lemma demo_build: "build2 demo_t (lit ''@rpath/x'') (15, 0, 0) = Inr (fst demo_out, snd demo_out)"
proof -
  obtain img st where "build2 demo_t (lit ''@rpath/x'') (15, 0, 0) = Inr (img, st)"
    using build2_ok[OF demo_t_wf demo_in_file demo_header_fits _ _ demo_ready] demo_symbols demo_relocs by auto
  then show ?thesis by (simp add: demo_out_def)
qed


subsection \<open>Layout\<close>

text \<open>
  C16. The layout of \<open>_map_loads\<close>: one segment for each \<open>PT_LOAD\<close> header, in order, page-aligned in memory
  and in the file, every virtual address of the ELF file moved by the same slide; the file ranges of
  the segments follow each other without overlap, behind the header page and inside the image.
\<close>

theorem phase2_layout:
  assumes "phase2_init e header_vm slide page = Inr t" and "elf_wf e" and "pow2 page"
  shows "list_all2 (load_placed slide page) (pt_loads e) (p2_loads t)
    \<and> regions_ordered page (map file_region (p2_loads t)) (loads_end page (p2_loads t))"
proof -
  note t = phase2_init_wf[OF assms]
  have "map_loads e slide page = Inr (p2_loads t)" using t(1) by (simp add: phase2_wf_def t(2-4))
  then show ?thesis using map_loads_placed[OF assms(3)] map_loads_ordered[OF assms(3,2)] by blast
qed

lemma phase2_layout_witness:
  "list_all2 (load_placed ELF_SLIDE IOS_PAGE) (pt_loads demo_elf) (p2_loads demo_t)
    \<and> regions_ordered IOS_PAGE (map file_region (p2_loads demo_t)) (loads_end IOS_PAGE (p2_loads demo_t))"
  by (rule phase2_layout[OF demo_init demo_wf pow2_IOS_PAGE])

text \<open>
  The address lookup \<open>_vaddr_to_output_offset\<close>: an address gives an error exactly when no segment
  holds it in its file-backed part; otherwise the offset lies behind the header page, inside the
  image, and at the same distance from its segment's start as the address.
\<close>

theorem phase2_lookup:
  assumes "phase2_wf t"
  shows "case vaddr_to_output_offset (p2_loads t) v of
      Inl e \<Rightarrow> e = TranslateError (Target_Not_File_Backed v)
        \<and> \<not> (\<exists>l \<in> set (p2_loads t). ml_elf_vaddr l \<le> v \<and> v < ml_elf_vaddr l + ml_elf_filesz l)
    | Inr p \<Rightarrow> p2_page t \<le> p \<and> p < loads_end (p2_page t) (p2_loads t)
        \<and> (\<exists>l \<in> set (p2_loads t). ml_elf_vaddr l \<le> v \<and> v < ml_elf_vaddr l + ml_elf_filesz l
             \<and> ml_vmaddr l + (p - ml_fileoff l) = p2_slide t + v)"
proof (cases "vaddr_to_output_offset (p2_loads t) v")
  case (Inl e)
  then have "e = TranslateError (Target_Not_File_Backed v)"
    by (auto simp: vaddr_to_output_offset_def split: option.splits)
  then show ?thesis using Inl p2.locate_Inl_iff[of "p2_loads t" v] by auto
next
  case (Inr p)
  obtain l where l: "l \<in> set (p2_loads t)" "ml_elf_vaddr l \<le> v" "v < ml_elf_vaddr l + ml_elf_filesz l"
    "p = ml_fileoff l + ml_delta l + (v - ml_elf_vaddr l)"
    using p2.locate_Inr[OF Inr] by blast
  obtain ph where "load_placed (p2_slide t) (p2_page t) ph l"
    using phase2_wf_load(6)[OF assms l(1)] by blast
  then have "ml_vmaddr l + (p - ml_fileoff l) = p2_slide t + v"
    unfolding l(4) by (rule load_placed_slide)
  then show ?thesis using Inr l p2.locate_bounds[OF phase2_wf_placed[OF assms] Inr] by auto
qed

lemma phase2_lookup_witness:
  "case vaddr_to_output_offset (p2_loads demo_t) 530 of
      Inl e \<Rightarrow> e = TranslateError (Target_Not_File_Backed 530)
        \<and> \<not> (\<exists>l \<in> set (p2_loads demo_t). ml_elf_vaddr l \<le> 530 \<and> 530 < ml_elf_vaddr l + ml_elf_filesz l)
    | Inr p \<Rightarrow> p2_page demo_t \<le> p \<and> p < loads_end (p2_page demo_t) (p2_loads demo_t)
        \<and> (\<exists>l \<in> set (p2_loads demo_t). ml_elf_vaddr l \<le> 530 \<and> 530 < ml_elf_vaddr l + ml_elf_filesz l
             \<and> ml_vmaddr l + (p - ml_fileoff l) = p2_slide demo_t + 530)"
  by (rule phase2_lookup[OF demo_t_wf])

subsection \<open>The image\<close>

text \<open>The value of a relocated slot.\<close>

lemma slot2_value:
  assumes "phase2_wf t" and "loads_in_file t" and "build2 t nm v = Inr (img, st)"
    and "dynamic_symbols (p2_elf t) = Inr syms" and "iter_relocations (p2_elf t) = Inr rels"
    and "relocs_ready (p2_loads t) syms rels"
    and "sorted_wrt (\<lambda>r q. apart 8 (rel_offset r) (rel_offset q)) rels"
    and "r \<in> set rels" and "reloc_patch (p2_slide t) syms r = Some f"
    and "find (load_covers (rel_offset r)) (p2_loads t) = Some l"
    and "read_u64 (edata (p2_elf t)) (ml_elf_offset l + (rel_offset r - ml_elf_vaddr l)) = Inr old"
  shows "read_u64 img (ml_fileoff l + ml_delta l + (rel_offset r - ml_elf_vaddr l)) = Inr (f old)"
proof -
  let ?p = "ml_fileoff l + ml_delta l + (rel_offset r - ml_elf_vaddr l)"
  have l: "l \<in> set (p2_loads t)" "load_covers (rel_offset r) l" using assms(10) by (auto simp: find_Some_iff)
  obtain syms' rels' where run: "dynamic_symbols (p2_elf t) = Inr syms'" "iter_relocations (p2_elf t) = Inr rels'"
    "run_effect (p2_loads t) (p2_slide t) syms' rels'
      \<lparr>s_image = copy_loads t, s_patched = no_patches, s_unresolved = []\<rparr> st"
    by (rule build2_run[OF assms(1,3)])
  then have eff: "run_effect (p2_loads t) (p2_slide t) syms rels
      \<lparr>s_image = copy_loads t, s_patched = no_patches, s_unresolved = []\<rparr> st" using assms(4,5) by simp
  have page: "0 \<le> p2_page t" using phase2_wf_page[OF assms(1)] by simp
  note pl = phase2_wf_placed[OF assms(1)]
  have inside: "rel_offset r + 8 \<le> ml_elf_vaddr l + ml_elf_filesz l" "ml_elf_vaddr l \<le> rel_offset r"
    using assms(6,8) l by (auto simp: relocs_ready_def p2.slot_inside_def load_covers_def)
  have ap: "slots_apart 8 (map fst (reloc_patches (place2 (p2_loads t)) (p2_slide t) syms rels))"
    using p2.locates_apart[OF pl _ assms(7)] assms(6) run_effect_patches(3)[OF eff]
    by (intro reloc_patches_apart) (auto simp: relocs_ready_def)
  have nn: "\<forall>p \<in> set (reloc_patches (place2 (p2_loads t)) (p2_slide t) syms rels). p2_page t \<le> fst p \<and> 0 \<le> fst p"
    by (rule patches_nonneg[OF pl page run_effect_patches(3)[OF eff]])
  have mem: "(?p, f) \<in> set (reloc_patches (place2 (p2_loads t)) (p2_slide t) syms rels)"
    using assms(8,9) place2_find[OF assms(10)] by (auto simp: set_reloc_patches intro!: exI[of _ r])
  have "read_u64 (copy_loads t) ?p = Inr old"
    using read_copy_loads[OF assms(1,2) l(1), of "rel_offset r - ml_elf_vaddr l"] inside assms(11) by simp
  from u64.patches_effect[OF run_effect_patches(1)[OF eff] ap _ mem this]
  have st: "read_u64 (s_image st) ?p = Inr (f old)" using nn by blast
  have "p2_page t \<le> ?p" using nn mem by fastforce
  then have "read_u64 img ?p = read_u64 (s_image st) ?p"
    using build2_above[OF assms(1-3)] page by (intro read_u64_drop_eq) auto
  then show ?thesis using st by simp
qed

text \<open>
  C4. Every relocated slot of the image holds the value of the AArch64 relocation rules: the slide plus
  the addend for \<open>RELATIVE\<close>, the symbol's address plus the addend for \<open>GLOB_DAT\<close> and \<open>JUMP_SLOT\<close>, and
  for \<open>ABS64\<close> plus what the file holds in the slot. Slots of different entries must not overlap;
  the order of the entries does not matter.
\<close>

theorem phase2_slots:
  assumes "phase2_wf t" and "loads_in_file t" and "build2 t nm v = Inr (img, st)"
    and "dynamic_symbols (p2_elf t) = Inr syms" and "iter_relocations (p2_elf t) = Inr rels"
    and "relocs_ready (p2_loads t) syms rels"
    and "sorted_wrt (\<lambda>r q. apart 8 (rel_offset r) (rel_offset q)) rels"
    and "r \<in> set rels" and "reloc_patch (p2_slide t) syms r = Some f"
    and "find (load_covers (rel_offset r)) (p2_loads t) = Some l"
    and "read_u64 (edata (p2_elf t)) (ml_elf_offset l + (rel_offset r - ml_elf_vaddr l)) = Inr old"
  shows "read_u64 img (ml_fileoff l + ml_delta l + (rel_offset r - ml_elf_vaddr l)) = Inr (f old)"
  by (rule slot2_value[OF assms])

lemma phase2_slots_witness:
  "read_u64 (fst demo_out) (0x8000 + 528 + (552 - 528)) = Inr (ELF_SLIDE + 16 + 3 + 5)"
proof -
  define r where "r = demo_reloc 552 257 1 3"
  have r: "r \<in> set demo_rels" "rel_offset r = 552" "rel_type r = 257" "rel_sym r = 1" "rel_addend r = 3"
    by (simp_all add: r_def demo_rels_def demo_reloc_def)
  have f: "reloc_patch (p2_slide demo_t) demo_syms r = Some (\<lambda>old. mask64 (ELF_SLIDE + 16 + 3 + old))"
    by (simp add: reloc_patch_def r demo_syms_def demo_symbol_def reloc_consts symbol_relocs_def SHN_UNDEF_def)
  have l: "find (load_covers (rel_offset r)) (p2_loads demo_t) = Some demo_load1"
    by (simp add: demo_loads load_covers_def r demo_load_fields)
  have ap: "sorted_wrt (\<lambda>r q. apart 8 (rel_offset r) (rel_offset q)) demo_rels"
    by (simp add: demo_rels_def demo_reloc_def apart_def)
  have old: "read_u64 demo_file 200 = Inr 5" by code_simp
  have "read_u64 (fst demo_out) (ml_fileoff demo_load1 + ml_delta demo_load1 + (rel_offset r - ml_elf_vaddr demo_load1))
    = Inr (mask64 (ELF_SLIDE + 16 + 3 + 5))"
    by (rule phase2_slots[OF demo_t_wf demo_in_file demo_build _ _ demo_ready ap r(1) f l])
      (simp_all add: demo_symbols demo_relocs demo_load_fields r old)
  then show ?thesis by (simp add: demo_load_fields r mask64_mod ELF_SLIDE_def)
qed


text \<open>
  C12. Every byte of a segment that lies in no patched slot is the byte of the ELF file: the relocation loop
  and the header page change nothing else.
\<close>

theorem phase2_bytes:
  assumes "phase2_wf t" and "loads_in_file t" and "build2 t nm v = Inr (img, st)"
    and "dynamic_symbols (p2_elf t) = Inr syms" and "iter_relocations (p2_elf t) = Inr rels"
    and "l \<in> set (p2_loads t)" and "0 \<le> k" and "k < ml_elf_filesz l"
    and "\<forall>r \<in> set rels. \<not> is_import syms r \<longrightarrow>
      ml_fileoff l + ml_delta l + k < place2 (p2_loads t) (rel_offset r)
      \<or> place2 (p2_loads t) (rel_offset r) + 8 \<le> ml_fileoff l + ml_delta l + k"
  shows "img ! nat (ml_fileoff l + ml_delta l + k) = edata (p2_elf t) ! nat (ml_elf_offset l + k)"
proof -
  let ?p = "ml_fileoff l + ml_delta l + k"
  obtain syms' rels' where run: "dynamic_symbols (p2_elf t) = Inr syms'" "iter_relocations (p2_elf t) = Inr rels'"
    "run_effect (p2_loads t) (p2_slide t) syms' rels'
      \<lparr>s_image = copy_loads t, s_patched = no_patches, s_unresolved = []\<rparr> st"
    by (rule build2_run[OF assms(1,3)])
  then have eff: "run_effect (p2_loads t) (p2_slide t) syms rels
      \<lparr>s_image = copy_loads t, s_patched = no_patches, s_unresolved = []\<rparr> st" using assms(4,5) by simp
  have page: "0 \<le> p2_page t" using phase2_wf_page[OF assms(1)] by simp
  note pl = phase2_wf_placed[OF assms(1)]
  have p: "p2_page t \<le> ?p" "?p < int (length (copy_loads t))"
    using p2.placed_bounds[OF pl assms(6)] length_copy_loads[OF assms(1,2)] assms(7,8) by auto
  have nn: "\<forall>p \<in> set (reloc_patches (place2 (p2_loads t)) (p2_slide t) syms rels). p2_page t \<le> fst p \<and> 0 \<le> fst p"
    by (rule patches_nonneg[OF pl page run_effect_patches(3)[OF eff]])
  have "\<forall>q \<in> set (reloc_patches (place2 (p2_loads t)) (p2_slide t) syms rels). 0 \<le> fst q \<and> (?p < fst q \<or> fst q + 8 \<le> ?p)"
  proof
    fix q assume q: "q \<in> set (reloc_patches (place2 (p2_loads t)) (p2_slide t) syms rels)"
    then obtain r where r: "r \<in> set rels" "fst q = place2 (p2_loads t) (rel_offset r)"
      "reloc_patch (p2_slide t) syms r \<noteq> None" by (auto simp: set_reloc_patches)
    then have "\<not> is_import syms r"
      using reloc_patch_None_iff[OF run_effect_patches(2)[OF eff r(1)]] by simp
    then show "0 \<le> fst q \<and> (?p < fst q \<or> fst q + 8 \<le> ?p)" using assms(9) r nn q by auto
  qed
  from u64.patches_byte[OF run_effect_patches(1)[OF eff] this] p page
  have "s_image st ! nat ?p = copy_loads t ! nat ?p" by simp
  moreover have "img ! nat ?p = s_image st ! nat ?p"
    using build2_above(1,2)[OF assms(1-3)] build2_above(3)[OF assms(1-3), of "nat ?p"] p page length_copy_loads[OF assms(1,2)] by simp
  ultimately show ?thesis using nth_copy_loads[OF assms(1,2,6-8)] by simp
qed

lemma phase2_bytes_witness: "fst demo_out ! 0x4001 = 0x45"
proof -
  have "\<forall>r \<in> set demo_rels. \<not> is_import demo_syms r \<longrightarrow>
      ml_fileoff demo_load0 + ml_delta demo_load0 + 1 < place2 (p2_loads demo_t) (rel_offset r)
      \<or> place2 (p2_loads demo_t) (rel_offset r) + 8 \<le> ml_fileoff demo_load0 + ml_delta demo_load0 + 1"
    by (simp add: demo_rels_def demo_reloc_def place2_def vaddr_to_output_offset_def demo_loads load_covers_def
        demo_load_fields)
  from phase2_bytes[OF demo_t_wf demo_in_file demo_build _ _ _ _ _ this]
  have "fst demo_out ! nat (0x4000 + 1) = demo_file ! nat (0 + 1)"
    by (simp add: demo_symbols demo_relocs demo_loads demo_load_fields)
  moreover have "demo_file ! 1 = 0x45" by (simp add: demo_file_def)
  ultimately show ?thesis by simp
qed

definition load_view :: "mapped_load \<Rightarrow> segment_view option" where
  "load_view seg = (case name16 (ml_name seg) of Inl _ \<Rightarrow> None
     | Inr nm \<Rightarrow> Some (nm, ml_vmaddr seg, ml_vmsize seg, ml_fileoff seg, ml_filesize seg, ml_maxprot seg, ml_initprot seg))"

lemma segment_command_view:
  assumes "segment_command seg = Inr c"
  shows "framed LC_SEGMENT_64 c" "view_segment c = load_view seg"
proof -
  obtain nm where nm: "name16 (ml_name seg) = Inr nm"
    and p: "pack (segment_items 72 nm (ml_vmaddr seg) (ml_vmsize seg) (ml_fileoff seg) (ml_filesize seg)
               (ml_maxprot seg) (ml_initprot seg) 0) = Inr c"
    using assms by (auto simp: segment_command_def result_iff)
  show "framed LC_SEGMENT_64 c"
    using segment_framed[OF p, of "[]"] pack_length[OF p] by simp
  show "view_segment c = load_view seg"
    using view_segment_packed[OF p name16_length[OF nm], of "[]"] nm by (simp add: load_view_def)
qed

lemma commands2_view:
  assumes "commands2 t nm v = Inr cs"
  shows "list_all (\<lambda>c. \<exists>cmd. framed cmd c) cs"
    and "map command_id cs = replicate (length (p2_loads t) + 1) LC_SEGMENT_64 @ [LC_ID_DYLIB, LC_BUILD_VERSION]"
    and "map view_segment (filter (\<lambda>c. command_id c = LC_SEGMENT_64) cs) = map load_view (header_segment t # p2_loads t)"
proof -
  from assms obtain c0 ss cid cv where c0: "segment_command (header_segment t) = Inr c0"
    and ss: "list_all2 (\<lambda>x y. segment_command x = Inr y) (p2_loads t) ss"
    and cid: "id_dylib_command nm = Inr cid" and cv: "build_version_command v = Inr cv"
    and cs: "cs = [c0] @ ss @ [cid] @ [cv]"
    by (auto simp: commands2_def result_iff mapM_r_Inr_iff)
  have f: "framed LC_ID_DYLIB cid" "framed LC_BUILD_VERSION cv"
    using dylib_framed build_version_framed cid cv by (auto simp: id_dylib_command_eq)
  have s: "list_all (framed LC_SEGMENT_64) ss \<and> map view_segment ss = map load_view (p2_loads t)
      \<and> length ss = length (p2_loads t)"
    using ss by (induction rule: list_all2_induct) (auto dest: segment_command_view)
  have "list_all (framed LC_SEGMENT_64) ss \<Longrightarrow> map command_id ss = replicate (length ss) LC_SEGMENT_64"
    by (induction ss) (auto simp: framed_def)
  then have i: "map command_id ss = replicate (length (p2_loads t)) LC_SEGMENT_64" using s by simp
  show "list_all (\<lambda>c. \<exists>cmd. framed cmd c) cs"
    using segment_command_view(1)[OF c0] f s by (auto simp: cs list_all_iff)
  show "map command_id cs = replicate (length (p2_loads t) + 1) LC_SEGMENT_64 @ [LC_ID_DYLIB, LC_BUILD_VERSION]"
    using segment_command_view(1)[OF c0] f i by (simp add: cs framed_def)
  have "filter (\<lambda>c. command_id c = LC_SEGMENT_64) ss = ss"
    using s by (auto simp: list_all_iff framed_def intro: filter_True)
  then show "map view_segment (filter (\<lambda>c. command_id c = LC_SEGMENT_64) cs) = map load_view (header_segment t # p2_loads t)"
    using segment_command_view[OF c0] f s by (simp add: cs framed_def macho_consts)
qed

text \<open>
  C17. The header page as a loader reads it: a dylib whose load commands, walked by their declared sizes, are
  the \<open>__HEADER\<close> segment, one segment for each entry of the layout with its address, sizes, file
  range and protections, \<open>LC_ID_DYLIB\<close> and \<open>LC_BUILD_VERSION\<close>, and nothing else.
\<close>

theorem phase2_header:
  assumes "phase2_wf t" and "loads_in_file t" and "build2 t nm v = Inr (img, st)"
  shows "\<exists>cs. read_macho img = Some (MH_DYLIB, 0, cs)
    \<and> map command_id cs = replicate (length (p2_loads t) + 1) LC_SEGMENT_64 @ [LC_ID_DYLIB, LC_BUILD_VERSION]
    \<and> map view_segment (filter (\<lambda>c. command_id c = LC_SEGMENT_64) cs) = map load_view (header_segment t # p2_loads t)"
proof -
  obtain syms rels where run: "run_effect (p2_loads t) (p2_slide t) syms rels
      \<lparr>s_image = copy_loads t, s_patched = no_patches, s_unresolved = []\<rparr> st"
    and hd: "emit_header2 t nm v (s_image st) = Inr img"
    by (rule build2_run[OF assms(1,3)])
  have "p2_page t \<le> int (length (s_image st))"
    using build2_above[OF assms] phase2_wf_page_le[OF assms(1)] by simp
  moreover obtain cs where cs: "commands2 t nm v = Inr cs"
    and hp: "header_page (TranslateError Load_Commands_Too_Large) 0 (p2_page t) cs (s_image st) = Inr img"
    using hd by (auto simp: emit_header2_def result_iff)
  ultimately obtain h where h: "mach_header MH_DYLIB (int (length cs)) (int (length (concat cs))) 0 = Inr h"
    "img = h @ concat cs @ drop (32 + length (concat cs)) (s_image st)"
    using header_page_Inr[OF hp] by metis
  show ?thesis
    using read_macho_commands[OF h(1) commands2_view(1)[OF cs] h(2)] commands2_view(2,3)[OF cs] by blast
qed

lemma phase2_header_witness:
  "\<exists>cs. read_macho (fst demo_out) = Some (MH_DYLIB, 0, cs)
    \<and> map command_id cs = replicate (length (p2_loads demo_t) + 1) LC_SEGMENT_64 @ [LC_ID_DYLIB, LC_BUILD_VERSION]
    \<and> map view_segment (filter (\<lambda>c. command_id c = LC_SEGMENT_64) cs)
      = map load_view (header_segment demo_t # p2_loads demo_t)"
  by (rule phase2_header[OF demo_t_wf demo_in_file demo_build])

text \<open>
  C18. The translation goes through, whatever the contents: for an untruncated file whose relocations are of the
  four known kinds with slots inside their segments, and a header that fits the page, \<open>translate\<close>
  produces an image.
\<close>

theorem phase2_succeeds:
  assumes "phase2_wf t" and "loads_in_file t" and "header_fits t nm v"
    and "dynamic_symbols (p2_elf t) = Inr syms" and "iter_relocations (p2_elf t) = Inr rels"
    and "relocs_ready (p2_loads t) syms rels"
  shows "\<exists>img st. translate2 t fs output nm v = (fs(output \<mapsto> img), Inr (report2 t output img st))"
proof -
  obtain img st where "build2 t nm v = Inr (img, st)" using build2_ok[OF assms] by blast
  then have "translate2 t fs output nm v = (fs(output \<mapsto> img), Inr (report2 t output img st))"
    by (simp add: translate2_def write_bytes_def)
  then show ?thesis by blast
qed

lemma phase2_succeeds_witness:
  "\<exists>img st. translate2 demo_t Map.empty (lit ''out'') (lit ''@rpath/x'') (15, 0, 0)
    = ([lit ''out'' \<mapsto> img], Inr (report2 demo_t (lit ''out'') img st))"
  by (rule phase2_succeeds[OF demo_t_wf demo_in_file demo_header_fits _ _ demo_ready])
    (simp_all add: demo_symbols demo_relocs)

text \<open>
  The report accounts for every relocation of the file: each is counted once, under its kind when it was
  applied and as unresolved when it names a symbol the file does not define, and the unresolved
  names are the distinct non-empty names of those symbols, sorted.
\<close>

theorem phase2_report:
  assumes "phase2_wf t" and "build2 t nm v = Inr (img, st)"
    and "dynamic_symbols (p2_elf t) = Inr syms" and "iter_relocations (p2_elf t) = Inr rels"
  shows "r2_patched_total (report2 t output img st) + r2_unresolved_relocations (report2 t output img st)
      = int (length rels)
    \<and> n_relative (r2_patched (report2 t output img st)) = count_kind syms R_AARCH64_RELATIVE rels
    \<and> n_abs64 (r2_patched (report2 t output img st)) = count_kind syms R_AARCH64_ABS64 rels
    \<and> n_glob_dat (r2_patched (report2 t output img st)) = count_kind syms R_AARCH64_GLOB_DAT rels
    \<and> n_jump_slot (r2_patched (report2 t output img st)) = count_kind syms R_AARCH64_JUMP_SLOT rels
    \<and> set (r2_unresolved_symbols (report2 t output img st))
      = {sym_name (syms ! nat (rel_sym r)) | r. r \<in> set rels \<and> is_import syms r} - {[]}
    \<and> sorted (r2_unresolved_symbols (report2 t output img st))
    \<and> distinct (r2_unresolved_symbols (report2 t output img st))"
proof -
  obtain syms' rels' where run: "dynamic_symbols (p2_elf t) = Inr syms'" "iter_relocations (p2_elf t) = Inr rels'"
    "run_effect (p2_loads t) (p2_slide t) syms' rels'
      \<lparr>s_image = copy_loads t, s_patched = no_patches, s_unresolved = []\<rparr> st"
    by (rule build2_run[OF assms(1,2)])
  then have eff: "run_effect (p2_loads t) (p2_slide t) syms rels
      \<lparr>s_image = copy_loads t, s_patched = no_patches, s_unresolved = []\<rparr> st" using assms(3,4) by simp
  have un: "s_unresolved st = map (unresolved_of syms) (filter (is_import syms) rels)"
    using eff by (simp add: run_effect_def)
  have "set (map un_symbol (s_unresolved st)) = {sym_name (syms ! nat (rel_sym r)) | r. r \<in> set rels \<and> is_import syms r}"
    by (force simp: un unresolved_of_def)
  then show ?thesis
    using eff count_kinds_total[of rels syms] run_effect_patches(2)[OF eff]
    by (auto simp: report2_def Let_def patched_total_def run_effect_def no_patches_def un)
qed

lemma phase2_report_witness:
  "r2_unresolved_symbols (report2 demo_t [] (fst demo_out) (snd demo_out)) = [lit ''malloc'']
   \<and> r2_patched_total (report2 demo_t [] (fst demo_out) (snd demo_out)) = 3"
proof -
  have imp: "filter (is_import demo_syms) demo_rels = [demo_reloc 544 1026 2 0]"
    by (simp add: demo_rels_def demo_reloc_def is_import_def demo_syms_def demo_symbol_def
        symbol_relocs_def reloc_consts SHN_UNDEF_def)
  have "{sym_name (demo_syms ! nat (rel_sym r)) | r. r \<in> set demo_rels \<and> is_import demo_syms r}
    = (\<lambda>r. sym_name (demo_syms ! nat (rel_sym r))) ` set (filter (is_import demo_syms) demo_rels)" by auto
  then have names: "{sym_name (demo_syms ! nat (rel_sym r)) | r. r \<in> set demo_rels \<and> is_import demo_syms r} = {lit ''malloc''}"
    by (simp add: imp) (simp add: demo_reloc_def demo_syms_def demo_symbol_def)
  have kinds: "count_kind demo_syms R_AARCH64_RELATIVE demo_rels = 1" "count_kind demo_syms R_AARCH64_ABS64 demo_rels = 1"
    "count_kind demo_syms R_AARCH64_GLOB_DAT demo_rels = 1" "count_kind demo_syms R_AARCH64_JUMP_SLOT demo_rels = 0"
    by (simp_all add: demo_rels_def demo_reloc_def is_import_def demo_syms_def demo_symbol_def
        symbol_relocs_def reloc_consts SHN_UNDEF_def)
  note rep = phase2_report[OF demo_t_wf demo_build, of demo_syms demo_rels "[]"]
  have set: "set (r2_unresolved_symbols (report2 demo_t [] (fst demo_out) (snd demo_out))) = {lit ''malloc''}"
    using rep names by (simp add: demo_symbols demo_relocs) (simp add: lit_def)
  have "distinct (r2_unresolved_symbols (report2 demo_t [] (fst demo_out) (snd demo_out)))"
    using rep by (simp add: demo_symbols demo_relocs)
  then have "r2_unresolved_symbols (report2 demo_t [] (fst demo_out) (snd demo_out)) = [lit ''malloc'']"
    using set by (cases "r2_unresolved_symbols (report2 demo_t [] (fst demo_out) (snd demo_out))" rule: remdups_adj.cases) auto
  moreover have "r2_patched_total (report2 demo_t [] (fst demo_out) (snd demo_out)) = 3"
    using rep kinds by (simp add: demo_symbols demo_relocs report2_def Let_def patched_total_def)
  ultimately show ?thesis by simp
qed

subsection \<open>Errors\<close>

text \<open>
  The loop stops at the first relocation it cannot process, with the error of the code: the address of
  a slot no segment backs, the type of an unsupported relocation, or the index of a symbol the
  symbol table does not have.
\<close>

theorem phase2_rejects:
  assumes "phase2_wf t" and "loads_in_file t"
    and "dynamic_symbols (p2_elf t) = Inr syms" and "iter_relocations (p2_elf t) = Inr (rels @ r # rest)"
    and "relocs_ready (p2_loads t) syms rels"
    and "\<not> known_reloc syms r \<or> (\<exists>x. vaddr_to_output_offset (p2_loads t) (rel_offset r) = Inl x)"
  shows "translate2 t fs output nm v = (fs, Inl (TranslateError
    (if \<exists>x. vaddr_to_output_offset (p2_loads t) (rel_offset r) = Inl x then Target_Not_File_Backed (rel_offset r)
     else if rel_type r \<notin> set symbol_relocs then Unsupported_Relocation (rel_type r) (rel_offset r)
     else Bad_Symbol_Index (rel_sym r))))" (is "_ = (fs, Inl ?e)")
proof -
  have "0 \<le> p2_page t" using phase2_wf_page[OF assms(1)] by simp
  from relocs_progress[OF phase2_wf_placed[OF assms(1)] this, of
      "\<lparr>s_image = copy_loads t, s_patched = no_patches, s_unresolved = []\<rparr>" syms rels "p2_slide t"]
  obtain st where st: "foldM_r (reloc_step2 (p2_loads t) (p2_slide t) syms)
      \<lparr>s_image = copy_loads t, s_patched = no_patches, s_unresolved = []\<rparr> rels = Inr st"
    using length_copy_loads[OF assms(1,2)] assms(5) by auto
  have "reloc_step2 (p2_loads t) (p2_slide t) syms st r = Inl ?e"
    using assms(6)
    by (auto simp: reloc_step2_def known_reloc_def vaddr_to_output_offset_def split: option.splits)
  then show ?thesis
    using st assms(3,4) by (simp add: translate2_def build2_def relocate2_def foldM_r_append)
qed

definition demo_bad :: elf64 where
  "demo_bad = demo_elf\<lparr>sections := [demo_section 11 216 72 1 24, demo_section 3 288 16 0 0, demo_section 4 176 24 0 24]\<rparr>"

definition demo_bad_t :: phase2 where
  "demo_bad_t = demo_t\<lparr>p2_elf := demo_bad\<rparr>"

lemma demo_bad_relocs: "iter_relocations demo_bad = Inr ([] @ demo_reloc 0 0 0 0 # [])"
  "dynamic_symbols demo_bad = Inr demo_syms"
  by code_simp+

lemma demo_bad_wf: "phase2_wf demo_bad_t" "loads_in_file demo_bad_t"
proof -
  have "elf_wf demo_bad"
    using demo_wf by (simp add: elf_wf_def demo_bad_def shdr_ok_def demo_section_def)
  moreover have "map_loads demo_bad ELF_SLIDE IOS_PAGE = Inr (p2_loads demo_t)"
    using demo_t_wf by (simp add: phase2_wf_def map_loads_def demo_bad_def demo_elf_def)
  ultimately show "phase2_wf demo_bad_t"
    by (simp add: phase2_wf_def demo_bad_t_def)
  show "loads_in_file demo_bad_t"
    using demo_in_file by (simp add: loads_in_file_def demo_bad_t_def demo_bad_def)
qed

lemma phase2_rejects_witness:
  "translate2 demo_bad_t Map.empty [] [] (15, 0, 0) = (Map.empty, Inl (TranslateError (Unsupported_Relocation 0 0)))"
proof -
  have "relocs_ready (p2_loads demo_bad_t) demo_syms []" by (simp add: relocs_ready_def)
  moreover have "\<not> known_reloc demo_syms (demo_reloc 0 0 0 0)"
    by (simp add: known_reloc_def demo_reloc_def reloc_consts symbol_relocs_def)
  moreover have "vaddr_to_output_offset (p2_loads demo_bad_t) 0 = Inr 0x4000"
    by (simp add: demo_bad_t_def vaddr_to_output_offset_def demo_loads load_covers_def demo_load_fields)
  ultimately show ?thesis
    using phase2_rejects[of demo_bad_t demo_syms "[]" "demo_reloc 0 0 0 0" "[]" Map.empty "[]" "[]" "(15, 0, 0)"]
      demo_bad_wf demo_bad_relocs
    by (simp add: demo_bad_t_def demo_reloc_def symbol_relocs_def reloc_consts)
qed

text \<open>
  A failed translation leaves the file system as it was, and a successful one changes the output path
  only; the input must exist, be an AArch64 shared object and have a loadable segment.
\<close>

theorem phase2_files:
  shows "case translate_phase2 fs input output nm v of
      (fs', Inl e) \<Rightarrow> fs' = fs
    | (fs', Inr rep) \<Rightarrow> (\<exists>d e t img st. fs input = Some d \<and> parse_elf d input = Inr e
        \<and> e_machine (ehdr e) = EM_AARCH64 \<and> e_type (ehdr e) = ET_DYN \<and> pt_loads e \<noteq> []
        \<and> phase2_init e HEADER_VM ELF_SLIDE IOS_PAGE = Inr t
        \<and> build2 t nm v = Inr (img, st) \<and> fs' = fs(output \<mapsto> img) \<and> rep = report2 t output img st)"
proof (cases "rbind (read_bytes fs input) (\<lambda>d. rbind (parse_elf d input)
    (\<lambda>e. phase2_init e HEADER_VM ELF_SLIDE IOS_PAGE))")
  case (Inl x)
  then show ?thesis by (simp add: translate_phase2_def)
next
  case (Inr t)
  obtain d e where d: "read_bytes fs input = Inr d" "parse_elf d input = Inr e"
    "phase2_init e HEADER_VM ELF_SLIDE IOS_PAGE = Inr t"
    using Inr by (auto simp: result_iff)
  have tr: "translate_phase2 fs input output nm v = translate2 t fs output nm v"
    using Inr by (simp add: translate_phase2_def)
  have "fs input = Some d" using d(1) by (auto simp: read_bytes_def split: option.splits)
  moreover have "pt_loads e \<noteq> []"
  proof -
    have "map_loads e ELF_SLIDE IOS_PAGE = Inr (p2_loads t)"
      using phase2_init_wf(1-4)[OF d(3) parse_elf_wf(1)[OF d(2)] pow2_IOS_PAGE] by (simp add: phase2_wf_def)
    then show ?thesis using map_loads_empty_iff[of e ELF_SLIDE IOS_PAGE "TranslateError No_Pt_Load"] by auto
  qed
  moreover note phase2_init_wf(6,7)[OF d(3) parse_elf_wf(1)[OF d(2)] pow2_IOS_PAGE] d(2,3)
  ultimately have ok: "fs input = Some d \<and> parse_elf d input = Inr e \<and> e_machine (ehdr e) = EM_AARCH64
      \<and> e_type (ehdr e) = ET_DYN \<and> pt_loads e \<noteq> [] \<and> phase2_init e HEADER_VM ELF_SLIDE IOS_PAGE = Inr t"
    by blast
  show ?thesis
  proof (cases "build2 t nm v")
    case (Inl x)
    then show ?thesis by (simp add: tr translate2_def)
  next
    case (Inr r)
    then have "build2 t nm v = Inr (fst r, snd r)" by simp
    then have "translate2 t fs output nm v = (fs(output \<mapsto> fst r), Inr (report2 t output (fst r) (snd r)))"
      by (simp add: translate2_def write_bytes_def split: prod.split)
    then show ?thesis
      unfolding tr using ok Inr by (simp only: prod.case sum.case) (metis prod.collapse)
  qed
qed

subsection \<open>What the code does not check\<close>

text \<open>
  A segment whose bytes run past the end of the file is not rejected: the slice assignment copies fewer
  bytes than the destination slice has, and the image becomes shorter by the missing bytes, so that
  everything behind the segment moves down.
\<close>

theorem phase2_truncated_segment:
  assumes "0 \<le> dst" and "dst + n \<le> int (length img)" and "0 \<le> src" and "src \<le> int (length d)"
    and "int (length d) < src + n"
  shows "int (length (copy_region d (dst, src, n) img)) = int (length img) - (src + n - int (length d))
    \<and> (\<forall>k \<ge> nat (dst + n). k < length img \<longrightarrow>
        copy_region d (dst, src, n) img ! (k - nat (src + n - int (length d))) = img ! k)"
proof -
  let ?c = "drop (nat src) d"
  have sl: "py_slice d src (src + n) = ?c"
    using assms by (simp add: py_slice_nonneg)
  have c: "copy_region d (dst, src, n) img = take (nat dst) img @ ?c @ drop (nat (dst + n)) img"
    using assms unfolding copy_region_def prod.case sl
    by (simp add: py_slice_assign_def Let_def slice_bound_def)
  have len: "length ?c = nat (int (length d) - src)" using assms(3,4) by simp
  have pre: "length (take (nat dst) img @ ?c) = nat dst + length ?c"
    using assms(1,2,3,4,5) by simp
  show ?thesis
  proof (intro conjI allI impI)
    show "int (length (copy_region d (dst, src, n) img)) = int (length img) - (src + n - int (length d))"
      using assms unfolding c by simp
    fix k assume k: "nat (dst + n) \<le> k" "k < length img"
    have "nat (src + n - int (length d)) + (nat dst + length ?c) = nat (dst + n)"
      using assms unfolding len by linarith
    then have "\<not> k - nat (src + n - int (length d)) < nat dst + length ?c"
      "k - nat (src + n - int (length d)) - (nat dst + length ?c) = k - nat (dst + n)"
      using k by linarith+
    then show "copy_region d (dst, src, n) img ! (k - nat (src + n - int (length d))) = img ! k"
      using k assms(1,2) unfolding c append_assoc[symmetric]
      by (subst nth_append_right) (simp_all only: pre, simp_all)
  qed
qed

lemma phase2_truncated_segment_witness:
  "copy_region [7, 7, 7] (2, 1, 4) (zeros 6 @ [9, 9]) ! 4 = 9 \<and> length (copy_region [7, 7, 7] (2, 1, 4) (zeros 6 @ [9, 9])) = 6"
proof -
  have h: "length (copy_region [7, 7, 7] (2, 1, 4) (zeros 6 @ [9, 9])) = 6
    \<and> (\<forall>k \<ge> 6. k < 8 \<longrightarrow> copy_region [7, 7, 7] (2, 1, 4) (zeros 6 @ [9, 9]) ! (k - 2) = (zeros 6 @ [9, 9]) ! k)"
    using phase2_truncated_segment[of 2 4 "zeros 6 @ [9, 9]" 1 "[7, 7, 7]"] by simp
  from conjunct2[OF h, rule_format, of 6] show ?thesis using conjunct1[OF h] by (simp add: nth_append)
qed

end
