(* ===== verification/Phase3_Props.thy ===== *)
theory Phase3_Props
  imports Demo3 Phase2_Props
begin

section \<open>The properties of Phase 3\<close>

text \<open>
  The theorems about \<open>phase3.py\<close>: the encodings, the opcode streams, the layout, the image before and
  after dyld has moved it, the bindings, the load commands, the report, success and failure.
\<close>

subsection \<open>The encodings\<close>

text \<open>
  C39. The LEB128 encodings are read back, whatever follows: every non-negative integer from \<open>_uleb128\<close>,
  every integer from \<open>_sleb128\<close>; a negative argument of \<open>_uleb128\<close> is refused, and a value below
  \<open>2 ^ (7 * k)\<close> takes at most \<open>k\<close> bytes.
\<close>

theorem leb128_roundtrip:
  shows "(case uleb128 v of Inl e \<Rightarrow> v < 0 \<and> e = Phase3Error Negative_Uleb128
      | Inr bs \<Rightarrow> 0 \<le> v \<and> read_uleb (bs @ rest) = Some (v, rest) \<and> (length bs \<le> Suc k) = (v < 2 ^ (7 * Suc k)))
    \<and> read_sleb (sleb_bytes w @ rest) = Some (w, rest)"
  using length_uleb_bytes[of v "Suc k"] by (auto simp: uleb128_def read_uleb_enc read_sleb_enc)

subsection \<open>The bind program\<close>

text \<open>
  C32. When dyld runs the bind program of \<open>_bind_stream\<close>, every entry is bound at its segment and offset to its
  shim symbol; the addends are the intended ones exactly when no entry without an addend follows, in
  address order, an entry with one: \<open>_bind_stream\<close> never resets the addend register.
\<close>

theorem bind_stream_addends:
  assumes "bind_stream items ord = Inr s"
    and "\<forall>item \<in> set items. 0 \<le> b_segment_index item \<and> 0 \<notin> set (b_shim_symbol item)"
  shows "\<exists>bound. run_bind bind_start (s @ rest) = Some bound
    \<and> map (\<lambda>(o', nm, ty, a, seg, off). (o', nm, ty, seg, off)) bound
      = map (\<lambda>item. (ord, shim_bytes item, BIND_TYPE_POINTER, b_segment_index item, b_segment_offset item))
          (sort_key bind_key items)
    \<and> (bound = map (intended ord) (sort_key bind_key items)) =
      (\<forall>item \<in> set (dropWhile (\<lambda>item. b_addend item = 0) (sort_key bind_key items)). b_addend item \<noteq> 0)"
  using bind_stream_run[OF assms, of rest] bound_as_places[of ord 0 "sort_key bind_key items"]
    bound_as_zero[of ord "sort_key bind_key items"] by simp

definition sticky_bindings :: "binding list" where
  "sticky_bindings =
     [\<lparr>b_offset = 0, b_type = 257, b_symbol = [97], b_shim_symbol = [97], b_symbol_type = 2, b_segment_index = 1,
       b_segment_offset = 0, b_addend = 8\<rparr>,
      \<lparr>b_offset = 8, b_type = 1025, b_symbol = [98], b_shim_symbol = [98], b_symbol_type = 2, b_segment_index = 1,
       b_segment_offset = 8, b_addend = 0\<rparr>]"

lemma bind_stream_addends_witness:
  "\<exists>s bound. bind_stream sticky_bindings 1 = Inr s \<and> run_bind bind_start (s @ []) = Some bound
    \<and> bound \<noteq> map (intended 1) (sort_key bind_key sticky_bindings)"
proof -
  have "\<exists>s. bind_stream sticky_bindings 1 = Inr s"
    by (simp add: bind_stream_ok) (simp add: sticky_bindings_def is_scalar_def is_surrogate_def)
  then obtain s where s: "bind_stream sticky_bindings 1 = Inr s" by blast
  have ok: "\<forall>item \<in> set sticky_bindings. 0 \<le> b_segment_index item \<and> 0 \<notin> set (b_shim_symbol item)"
    by (simp add: sticky_bindings_def)
  have sorted: "sort_key bind_key sticky_bindings = sticky_bindings"
    by (simp add: sticky_bindings_def bind_key_def)
  have "\<not> (\<forall>item \<in> set (dropWhile (\<lambda>item. b_addend item = 0) sticky_bindings). b_addend item \<noteq> 0)"
    by (simp add: sticky_bindings_def)
  then show ?thesis
    using bind_stream_addends[OF s ok, of "[]"] s unfolding sorted by blast
qed

subsection \<open>Layout\<close>

text \<open>
  C11. The layout of \<open>_layout_segments\<close>: one segment for each \<open>PT_LOAD\<close> header, page-aligned, at the constant
  slide \<open>image_base + header_reserve\<close>; the file ranges are in order and disjoint, and the reserved header
  lies before the bytes of the first segment.
\<close>

theorem phase3_layout:
  assumes "phase3_init e base reserve page = Inr t" and "elf_wf e" and "pow2 page" and "page dvd base" and "0 \<le> reserve"
  shows "list_all2 (segment_placed (base + reserve) page) (pt_loads e) (p3_segments t)
    \<and> regions_ordered 0 (map segment_file_region (p3_segments t)) (segments_end page (p3_segments t))
    \<and> regions_ordered reserve (map (\<lambda>s. (is_data_fileoff s, is_elf_filesz s)) (p3_segments t))
        (segments_end page (p3_segments t))
    \<and> is_vmaddr (hd (p3_segments t)) = base \<and> is_data_fileoff (hd (p3_segments t)) = reserve"
proof -
  have l: "layout_segments e base reserve page = Inr (p3_segments t)"
    using phase3_init_wf[OF assms] by (simp add: phase3_wf_def)
  then show ?thesis
    using layout_segments_placed[OF assms(3-5) l] layout_segments_ordered[OF assms(3,5,2) l]
      layout_segments_p3_placed[OF assms(3-5,2) l, unfolded p3.placed_def]
    by (auto elim!: layout_segments_Inr simp: first_segment_def)
qed

lemma phase3_layout_witness:
  "list_all2 (segment_placed (IMAGE_BASE + HEADER_RESERVE) IOS_PAGE) (pt_loads demo_elf) (p3_segments demo_t3)
    \<and> regions_ordered 0 (map segment_file_region (p3_segments demo_t3)) (segments_end IOS_PAGE (p3_segments demo_t3))
    \<and> regions_ordered HEADER_RESERVE (map (\<lambda>s. (is_data_fileoff s, is_elf_filesz s)) (p3_segments demo_t3))
        (segments_end IOS_PAGE (p3_segments demo_t3))
    \<and> is_vmaddr (hd (p3_segments demo_t3)) = IMAGE_BASE \<and> is_data_fileoff (hd (p3_segments demo_t3)) = HEADER_RESERVE"
  by (rule phase3_layout[OF demo_init3 demo_wf pow2_IOS_PAGE]) (simp_all add: IMAGE_BASE_def HEADER_RESERVE_def)

subsection \<open>The image\<close>

text \<open>
  C1. What dyld makes of the image at any load address: it finds the rebase program through the load
  commands, and after it has moved the image by \<open>d\<close> every relocated slot holds the value the AArch64
  relocation rules give at the slide moved by \<open>d\<close>, and no byte outside those slots has changed. The image
  with its rebase program thus implements the relocation rules for every slide.
\<close>

theorem phase3_loaded:
  assumes "phase3_wf t" and "segments_in_file t" and "build3 t shim install prefix v = Inr b"
    and "dynamic_symbols (p3_elf t) = Inr syms" and "iter_relocations (p3_elf t) = Inr rels"
    and "relocs_ready3 t syms rels" and "sorted_wrt (\<lambda>r q. apart 8 (rel_offset r) (rel_offset q)) rels"
    and "r \<in> set rels" and "reloc_patch (p3_slide t + d) syms r = Some f"
    and "find (segment_covers (rel_offset r)) (p3_segments t) = Some s"
    and "read_u64 (edata (p3_elf t)) (is_elf_offset s + (rel_offset r - is_elf_vaddr s)) = Inr old"
  shows "\<exists>img. dyld_rebase d (f_final b) = Some img
    \<and> read_u64 img (is_data_fileoff s + (rel_offset r - is_elf_vaddr s)) = Inr (f old)
    \<and> (\<forall>k. 0 \<le> k \<and> k < int (length (f_final b))
        \<and> (\<forall>q \<in> set rels. \<not> is_import syms q \<longrightarrow> k < place3 (p3_segments t) (rel_offset q)
            \<or> place3 (p3_segments t) (rel_offset q) + 8 \<le> k) \<longrightarrow> img ! nat k = f_final b ! nat k)"
proof -
  obtain ps img where img: "dyld_rebase d (f_final b) = Some img" "u64.patches (f_final b) ps = Inr img"
    "\<forall>p \<in> set ps. 0 \<le> fst p"
    and ps: "set ps = {(place3 (p3_segments t) (rel_offset r), \<lambda>v. mask64 (v + d)) | r. r \<in> set rels \<and> \<not> is_import syms r}"
    by (rule dyld_rebase3[OF assms(1-7)])
  note slot = slot3_loaded[OF assms img(1)]
  have "img ! nat k = f_final b ! nat k" if k: "0 \<le> k" "k < int (length (f_final b))"
    "\<forall>q \<in> set rels. \<not> is_import syms q \<longrightarrow> k < place3 (p3_segments t) (rel_offset q)
      \<or> place3 (p3_segments t) (rel_offset q) + 8 \<le> k" for k
    by (rule u64.patches_byte[OF img(2)]) (use k img(3) in \<open>auto simp: ps\<close>)
  then show ?thesis using img(1) slot by blast
qed

lemma phase3_loaded_witness:
  "\<exists>img. dyld_rebase 0x100000000 (f_final demo_out3) = Some img
    \<and> read_u64 img 0x14228 = Inr (0x100010000 + 16 + 3 + 5)"
proof -
  define r where "r = demo_reloc 552 257 1 3"
  have r: "r \<in> set demo_rels" "rel_offset r = 552" "rel_type r = 257" "rel_sym r = 1" "rel_addend r = 3"
    by (simp_all add: r_def demo_rels_def demo_reloc_def)
  have f: "reloc_patch (p3_slide demo_t3 + 0x100000000) demo_syms r = Some (\<lambda>old. mask64 (HEADER_RESERVE + 0x100000000 + 16 + 3 + old))"
    by (simp add: reloc_patch_def r demo_syms_def demo_symbol_def reloc_consts symbol_relocs_def SHN_UNDEF_def)
  have s: "find (segment_covers (rel_offset r)) (p3_segments demo_t3) = Some demo_seg1"
    by (simp add: segment_covers_def r demo_seg_fields)
  have old: "read_u64 demo_file 200 = Inr 5" by code_simp
  have "\<exists>img. dyld_rebase 0x100000000 (f_final demo_out3) = Some img
    \<and> read_u64 img (is_data_fileoff demo_seg1 + (rel_offset r - is_elf_vaddr demo_seg1))
        = Inr (mask64 (HEADER_RESERVE + 0x100000000 + 16 + 3 + 5))"
    using phase3_loaded[OF demo_t3_wf demo_in_file3 demo_build3 _ _ demo_ready3 demo_apart r(1) f s]
    by (simp add: demo_symbols demo_relocs demo_seg_fields r old) blast
  then show ?thesis by (simp add: demo_seg_fields r mask64_mod HEADER_RESERVE_def)
qed

text \<open>
  C9. Every byte of a segment that lies in no patched slot is the byte of the ELF file: the relocation loop, the
  link-edit segment and the header page change nothing else, and the slot of an import keeps its contents.
\<close>

theorem phase3_bytes:
  assumes "phase3_wf t" and "segments_in_file t" and "build3 t shim install prefix v = Inr b"
    and "dynamic_symbols (p3_elf t) = Inr syms" and "iter_relocations (p3_elf t) = Inr rels"
    and "s \<in> set (p3_segments t)" and "0 \<le> k" and "k < is_elf_filesz s"
    and "\<forall>r \<in> set rels. \<not> is_import syms r \<longrightarrow>
      is_data_fileoff s + k < place3 (p3_segments t) (rel_offset r)
      \<or> place3 (p3_segments t) (rel_offset r) + 8 \<le> is_data_fileoff s + k"
  shows "f_final b ! nat (is_data_fileoff s + k) = edata (p3_elf t) ! nat (is_elf_offset s + k)"
proof -
  let ?p = "is_data_fileoff s + k"
  let ?ps = "reloc_patches (place3 (p3_segments t)) (p3_slide t) syms rels"
  have run: "u64.patches (copy_segments t) ?ps = Inr (t_image (f_state b))"
    using build3_effect(2)[OF assms(1-5)] by (simp add: run_effect3_def)
  have p: "p3_reserve t \<le> ?p" "?p < int (length (copy_segments t))" "0 \<le> ?p"
    using p3.placed_bounds[OF phase3_wf_placed[OF assms(1)] assms(6)] length_copy_segments[OF assms(1,2)]
      phase3_wf_end(2)[OF assms(1)] assms(7,8) by auto
  have q: "0 \<le> fst q \<and> (?p < fst q \<or> fst q + 8 \<le> ?p)" if mem: "q \<in> set ?ps" for q
  proof -
    obtain r where r: "r \<in> set rels" "fst q = place3 (p3_segments t) (rel_offset r)"
      "reloc_patch (p3_slide t) syms r \<noteq> None" using mem by (auto simp: set_reloc_patches)
    then have "\<not> is_import syms r"
      using reloc_patch_None_iff[OF build3_places(3)[OF assms(1-5) r(1)]] by simp
    then show ?thesis using assms(9) r build3_places(2)[OF assms(1-5) r(1)] by auto
  qed
  then have "\<forall>q \<in> set ?ps. 0 \<le> fst q \<and> (?p < fst q \<or> fst q + 8 \<le> ?p)" by blast
  from u64.patches_byte[OF run this p(3,2)]
  have "t_image (f_state b) ! nat ?p = copy_segments t ! nat ?p" .
  moreover have "int (length (t_image (f_state b))) = int (length (copy_segments t))"
    using q by (intro u64.patches_msize[OF _ run]) blast
  then have "f_final b ! nat ?p = t_image (f_state b) ! nat ?p"
    using build3_final(2)[OF assms(1-3), of "nat ?p"] p by simp
  ultimately show ?thesis using nth_copy_segments[OF assms(1,2,6-8)] by simp
qed

lemma phase3_bytes_witness: "f_final demo_out3 ! 0x10001 = 0x45"
proof -
  have "f_final demo_out3 ! nat (is_data_fileoff demo_seg0 + 1) = edata (p3_elf demo_t3) ! nat (is_elf_offset demo_seg0 + 1)"
  proof (rule phase3_bytes[OF demo_t3_wf demo_in_file3 demo_build3])
    show "\<forall>r \<in> set demo_rels. \<not> is_import demo_syms r \<longrightarrow>
        is_data_fileoff demo_seg0 + 1 < place3 (p3_segments demo_t3) (rel_offset r)
        \<or> place3 (p3_segments demo_t3) (rel_offset r) + 8 \<le> is_data_fileoff demo_seg0 + 1"
      using place3_find(2)[of _ "[demo_seg0, demo_seg1]" demo_seg1]
      by (simp add: demo_rels_def demo_reloc_def segment_covers_def demo_seg_fields)
  qed (simp_all add: demo_symbols demo_relocs demo_seg_fields)
  then show ?thesis by (simp add: demo_seg_fields) (simp add: demo_file_def)
qed

text \<open>
  C7. The bind program dyld finds in the image binds one pointer for every relocation against an undefined
  symbol, at its place and to the shim symbol made of the prefix and its name; the addend is that of the
  entry (for \<open>ABS64\<close> plus what the file holds in the slot), except that an entry with addend zero behind an
  entry with another addend is bound with that other addend.
\<close>

theorem phase3_binds:
  assumes "phase3_wf t" and "segments_in_file t" and "build3 t shim install prefix v = Inr b"
    and "dynamic_symbols (p3_elf t) = Inr syms" and "iter_relocations (p3_elf t) = Inr rels"
    and "relocs_ready3 t syms rels" and "sorted_wrt (\<lambda>r q. apart 8 (rel_offset r) (rel_offset q)) rels"
    and "0 \<notin> set prefix"
    and "bs = sort_key bind_key (map (import_binding t syms prefix (copy_segments t)) (filter (is_import syms) rels))"
  shows "dyld_binds (f_final b) = Some (bound_as 1 0 bs)
    \<and> (dyld_binds (f_final b) = Some (map (intended 1) bs)) =
      (\<forall>item \<in> set (dropWhile (\<lambda>item. b_addend item = 0) bs). b_addend item \<noteq> 0)
    \<and> (\<lambda>item. (b_shim_symbol item, b_addend item, b_segment_index item, b_segment_offset item)) ` set bs =
      (\<lambda>r. (prefix @ sym_name (syms ! nat (rel_sym r)),
            rel_addend r + (if rel_type r = R_AARCH64_ABS64
              then (case read_u64 (copy_segments t) (place3 (p3_segments t) (rel_offset r)) of Inr held \<Rightarrow> held | Inl _ \<Rightarrow> 0) else 0),
            spot3 t (rel_offset r))) ` {r \<in> set rels. is_import syms r}"
proof -
  have wf: "elf_wf (p3_elf t)" using assms(1) by (simp add: phase3_wf_def)
  have so: "list_all symbol_ok syms" "list_all reloc_ok rels"
    using dynamic_symbols_total[OF wf] iter_relocations_total[OF wf] assms(4,5) by auto
  have bnd: "t_bindings (f_state b) = map (import_binding t syms prefix (copy_segments t)) (filter (is_import syms) rels)"
    using relocate3_bindings[OF build3_effect(1)[OF assms(1-5)] phase3_wf_placed[OF assms(1)] phase3_wf_end(2)[OF assms(1)]
      places3_apart[OF assms(1-7)]] by simp
  have "0 \<le> b_segment_index item \<and> 0 \<notin> set (b_shim_symbol item)" if item: "item \<in> set (t_bindings (f_state b))" for item
  proof -
    obtain r where r: "r \<in> set rels" "is_import syms r" "item = import_binding t syms prefix (copy_segments t) r"
      using item unfolding bnd by auto
    have "symbol_ok (syms ! nat (rel_sym r))"
      using so r(1) import_symbol_in[OF r(2)] by (auto simp: list_all_iff reloc_ok_def)
    then show ?thesis
      using spot3_bounds(1)[OF assms(1) build3_places(4)[OF assms(1-5) r(1)]] assms(8)
      by (simp add: r(3) import_binding_def mk_binding_def symbol_ok_def)
  qed
  moreover have "bind_stream (t_bindings (f_state b)) 1 = Inr (f_binds b)" by (rule build3_run[OF assms(1-3)])
  ultimately have "run_bind bind_start (f_binds b @ []) = Some (bound_as 1 0 bs)"
    using bind_stream_run unfolding assms(9) bnd[symmetric] by blast
  moreover obtain cs views lv where "image_dyld_info (f_final b) = Some (k_rebase_off (f_link b), int (length (f_rebases b)),
      k_bind_off (f_link b), int (length (f_binds b)), 0, 0)"
    by (rule build3_view[OF assms(1-3)])
  ultimately have "dyld_binds (f_final b) = Some (bound_as 1 0 bs)"
    using build3_final(4)[OF assms(1-3)] by (simp add: dyld_binds_def)
  moreover have "(\<lambda>item. (b_shim_symbol item, b_addend item, b_segment_index item, b_segment_offset item)) ` set bs =
      (\<lambda>r. (prefix @ sym_name (syms ! nat (rel_sym r)),
            rel_addend r + (if rel_type r = R_AARCH64_ABS64
              then (case read_u64 (copy_segments t) (place3 (p3_segments t) (rel_offset r)) of Inr held \<Rightarrow> held | Inl _ \<Rightarrow> 0) else 0),
            spot3 t (rel_offset r))) ` {r \<in> set rels. is_import syms r}"
    unfolding assms(9) set_sort set_map set_filter image_image by (intro image_cong) (simp_all add: import_binding_def mk_binding_def)
  ultimately show ?thesis using bound_as_zero[of 1 bs] by simp
qed

lemma phase3_binds_witness:
  "map (\<lambda>(o', nm, ty, a, seg, off). (o', a, seg, off)) (the (dyld_binds (f_final demo_out3))) = [(1, 0, 1, 544)]"
proof -
  have imp: "filter (is_import demo_syms) demo_rels = [demo_reloc 544 1026 2 0]"
    by (simp add: demo_rels_def demo_reloc_def is_import_def demo_syms_def demo_symbol_def
        symbol_relocs_def reloc_consts SHN_UNDEF_def)
  let ?item = "import_binding demo_t3 demo_syms (lit ''_a2i_'') (copy_segments demo_t3) (demo_reloc 544 1026 2 0)"
  have item: "b_addend ?item = 0" "b_segment_index ?item = 1" "b_segment_offset ?item = 544"
    by (simp_all add: import_binding_def mk_binding_def spot3_def demo_reloc_def reloc_consts segment_covers_def
        demo_seg_fields HEADER_RESERVE_def)
  have "0 \<notin> set (lit ''_a2i_'')" by (simp add: lit_simps)
  from phase3_binds[OF demo_t3_wf demo_in_file3 demo_build3 _ _ demo_ready3 demo_apart this refl]
  have "dyld_binds (f_final demo_out3) = Some (bound_as 1 0 [?item])"
    by (simp add: demo_symbols demo_relocs imp)
  then show ?thesis using item by simp
qed

text \<open>
  C10. A loader that walks the load commands of the image finds the laid-out segments with their addresses, file
  ranges and protections, then \<open>__LINKEDIT\<close>, the shim and the library's own identity, the version and
  the dyld information, whose two ranges hold exactly the rebase and the bind program.
\<close>

theorem phase3_header:
  assumes "phase3_wf t" and "segments_in_file t" and "build3 t shim install prefix v = Inr b"
  shows "\<exists>cs views lv ro bo. read_macho (f_final b) = Some (MH_DYLIB, MH_DYLDLINK OR MH_TWOLEVEL, cs)
    \<and> map command_id cs = replicate (length (p3_segments t) + 1) LC_SEGMENT_64
        @ [LC_LOAD_DYLIB, LC_ID_DYLIB, LC_BUILD_VERSION, LC_DYLD_INFO_ONLY]
    \<and> image_segments (f_final b) = Some (views @ [lv])
    \<and> map segment_view_of (p3_segments t) = map Some views
    \<and> linkedit_view (p3_page t) (k_vmaddr (f_link b)) (k_fileoff (f_link b)) (k_size (f_link b)) = Some lv
    \<and> image_dyld_info (f_final b) = Some (ro, int (length (f_rebases b)), bo, int (length (f_binds b)), 0, 0)
    \<and> image_range (f_final b) ro (int (length (f_rebases b))) = f_rebases b
    \<and> image_range (f_final b) bo (int (length (f_binds b))) = f_binds b \<and> 8 dvd bo"
proof -
  have "linkedit_ok (f_link b) (int (length (t_image (f_state b)))) (int (length (f_rebases b))) (int (length (f_binds b)))"
    by (rule build3_run[OF assms])
  then have "8 dvd k_bind_off (f_link b)" by (simp add: linkedit_ok_def)
  then show ?thesis
    using build3_final(3,4)[OF assms] by - (rule build3_view[OF assms], intro exI conjI, assumption+)
qed

lemma phase3_header_witness:
  "\<exists>cs views lv ro bo. read_macho (f_final demo_out3) = Some (MH_DYLIB, MH_DYLDLINK OR MH_TWOLEVEL, cs)
    \<and> map command_id cs = replicate (length (p3_segments demo_t3) + 1) LC_SEGMENT_64
        @ [LC_LOAD_DYLIB, LC_ID_DYLIB, LC_BUILD_VERSION, LC_DYLD_INFO_ONLY]
    \<and> image_segments (f_final demo_out3) = Some (views @ [lv])
    \<and> map segment_view_of (p3_segments demo_t3) = map Some views
    \<and> linkedit_view (p3_page demo_t3) (k_vmaddr (f_link demo_out3)) (k_fileoff (f_link demo_out3)) (k_size (f_link demo_out3)) = Some lv
    \<and> image_dyld_info (f_final demo_out3) = Some (ro, int (length (f_rebases demo_out3)), bo, int (length (f_binds demo_out3)), 0, 0)
    \<and> image_range (f_final demo_out3) ro (int (length (f_rebases demo_out3))) = f_rebases demo_out3
    \<and> image_range (f_final demo_out3) bo (int (length (f_binds demo_out3))) = f_binds demo_out3 \<and> 8 dvd bo"
  by (rule phase3_header[OF demo_t3_wf demo_in_file3 demo_build3])

subsection \<open>Success\<close>

text \<open>
  C15. The translation goes through: for an untruncated file of at most sixteen segments, when every relocation is of one
  of the four known kinds (with the index of a dynamic symbol, unless it is \<open>RELATIVE\<close>) and its slot of eight bytes
  begins in the file-backed part of a segment and lies inside it, when the prefix and the install names have an
  encoding, the version and every field of the load commands fit their width, the load commands fit into the reserved
  header, and the image with its streams stays below 4 GiB, \<open>translate\<close> writes the output.
\<close>

theorem phase3_succeeds:
  assumes "phase3_wf t" and "segments_in_file t"
    and "dynamic_symbols (p3_elf t) = Inr syms" and "iter_relocations (p3_elf t) = Inr rels"
    and "relocs_ready3 t syms rels" and "list_all is_scalar prefix"
    and "\<forall>s \<in> set syms. length prefix + length (sym_name s) \<le> l"
    and "fits3 t shim install v (stream_room (length rels) l)"
  shows "\<exists>b. translate3 t fs output shim install prefix v
    = (fs(output \<mapsto> f_final b), Inr (report3 t output shim b))"
proof -
  obtain b where "build3 t shim install prefix v = Inr b" using build3_ok[OF assms] by blast
  then have "translate3 t fs output shim install prefix v = (fs(output \<mapsto> f_final b), Inr (report3 t output shim b))"
    by (simp add: translate3_def write_bytes_def)
  then show ?thesis by blast
qed

lemma phase3_succeeds_witness:
  "\<exists>b. translate3 demo_t3 Map.empty (lit ''out'') (lit ''y'') (lit ''x'') (lit ''_a2i_'') (12, 0, 0)
    = ([lit ''out'' \<mapsto> f_final b], Inr (report3 demo_t3 (lit ''out'') (lit ''y'') b))"
  by (rule phase3_succeeds[OF demo_t3_wf demo_in_file3 _ _ demo_ready3 demo_prefix demo_names3 demo_fits3])
    (simp_all add: demo_symbols demo_relocs)

subsection \<open>The report\<close>

text \<open>The counting of imports is that of a counter over the symbol names.\<close>

lemma add_import_bump:
  "map (\<lambda>e. (si_symbol e, si_relocation_count e)) (add_import item es)
    = bump (b_symbol item) (map (\<lambda>e. (si_symbol e, si_relocation_count e)) es)"
  by (induction es) auto

lemma shim_imports_count:
  "mset (map (\<lambda>e. (si_symbol e, si_relocation_count e)) (shim_imports bs)) = mset (count_all (map b_symbol bs))"
proof -
  have "map (\<lambda>e. (si_symbol e, si_relocation_count e)) (fold add_import bs es)
    = fold bump (map b_symbol bs) (map (\<lambda>e. (si_symbol e, si_relocation_count e)) es)" for es
    by (induction bs arbitrary: es) (simp_all add: add_import_bump)
  from arg_cong[OF this[of "[]"], of mset] show ?thesis by (simp add: shim_imports_def count_all_def)
qed

lemma shim_imports_exact:
  "sorted (map si_symbol (shim_imports bs)) \<and> distinct (map si_symbol (shim_imports bs))
    \<and> (\<lambda>e. (si_symbol e, si_relocation_count e)) ` set (shim_imports bs)
      = {(nm, int (count_list (map b_symbol bs) nm)) | nm. nm \<in> b_symbol ` set bs}"
proof -
  let ?p = "\<lambda>e. (si_symbol e, si_relocation_count e)"
  have "set (map ?p (shim_imports bs)) = set (count_all (map b_symbol bs))"
    by (rule mset_eq_setD[OF shim_imports_count])
  moreover have "set (count_all (map b_symbol bs)) = {(nm, int (count_list (map b_symbol bs) nm)) | nm. nm \<in> b_symbol ` set bs}"
    by (auto simp: count_all_pairs)
  moreover have "mset (map si_symbol (shim_imports bs)) = mset (map fst (count_all (map b_symbol bs)))"
    using arg_cong[OF shim_imports_count[of bs], of "image_mset fst"] by (simp add: multiset.map_comp comp_def)
  then have "distinct (map si_symbol (shim_imports bs))"
    using distinct_count_all[of "map b_symbol bs"] mset_eq_imp_distinct_iff by blast
  ultimately show ?thesis by (simp add: shim_imports_def)
qed

text \<open>
  The report accounts for every relocation: each is counted once, as a rebase under its kind or as a
  binding; the shim symbols are the distinct prefixed names of the imports, sorted, and the shim imports
  list every imported name once, sorted, with the number of relocations against it.
\<close>

theorem phase3_report:
  assumes "phase3_wf t" and "segments_in_file t" and "build3 t shim install prefix v = Inr b"
    and "dynamic_symbols (p3_elf t) = Inr syms" and "iter_relocations (p3_elf t) = Inr rels"
    and "names = map (\<lambda>r. sym_name (syms ! nat (rel_sym r))) (filter (is_import syms) rels)"
    and "rep = report3 t output shim b"
  shows "r3_rebase_count rep = patched_total (r3_patched rep)
    \<and> r3_rebase_count rep + r3_bind_count rep = int (length rels)
    \<and> n_relative (r3_patched rep) = count_kind syms R_AARCH64_RELATIVE rels
    \<and> n_abs64 (r3_patched rep) = count_kind syms R_AARCH64_ABS64 rels
    \<and> n_glob_dat (r3_patched rep) = count_kind syms R_AARCH64_GLOB_DAT rels
    \<and> n_jump_slot (r3_patched rep) = count_kind syms R_AARCH64_JUMP_SLOT rels
    \<and> r3_bind_count rep = int (length names)
    \<and> r3_shim_symbols rep = sorted_set (map ((@) prefix) names)
    \<and> r3_shim_symbol_count rep = int (card (set names))
    \<and> sorted (map si_symbol (r3_shim_imports rep)) \<and> distinct (map si_symbol (r3_shim_imports rep))
    \<and> (\<lambda>e. (si_symbol e, si_relocation_count e)) ` set (r3_shim_imports rep)
      = {(nm, int (count_list names nm)) | nm. nm \<in> set names}"
proof -
  note eff = build3_effect(2)[OF assms(1-5)]
  define bds where bds: "bds = t_bindings (f_state b)"
  have nm: "map b_symbol bds = names \<and> map b_shim_symbol bds = map ((@) prefix) names"
    using build3_shim_names[OF assms(1-5)] by (simp add: bds assms(6) comp_def)
  have kinds: "count_kind syms R_AARCH64_RELATIVE rels + count_kind syms R_AARCH64_ABS64 rels
     + count_kind syms R_AARCH64_GLOB_DAT rels + count_kind syms R_AARCH64_JUMP_SLOT rels
     + int (length (filter (is_import syms) rels)) = int (length rels)"
    by (rule count_kinds_total) (use eff in \<open>simp add: run_effect3_def\<close>)
  have split: "length (filter (\<lambda>r. \<not> is_import syms r) rels) + length (filter (is_import syms) rels) = length rels"
    using sum_length_filter_compl[of "is_import syms" rels] by simp
  have len: "length bds = length names" "length names = length (filter (is_import syms) rels)"
    using nm by (metis length_map) (simp add: assms(6))
  have "card (set (map ((@) prefix) names)) = card (set names)"
    by (simp add: card_image inj_on_def)
  moreover have "b_shim_symbol ` set bds = (@) prefix ` set names" using nm by (metis list.set_map)
  moreover have "{(nm, int (count_list names nm)) | nm. nm \<in> b_symbol ` set bds} = {(nm, int (count_list names nm)) | nm. nm \<in> set names}"
    using nm by (metis list.set_map)
  ultimately show ?thesis
    unfolding assms(7)
    using eff kinds split len nm shim_imports_exact[of bds]
    by (simp add: report3_def Let_def run_effect3_def no_patches_def patched_total_def flip: bds) (simp add: length_sorted_set)
qed

lemma phase3_report_witness:
  "r3_shim_symbols (report3 demo_t3 [] (lit ''y'') demo_out3) = [lit ''_a2i_malloc'']
   \<and> r3_rebase_count (report3 demo_t3 [] (lit ''y'') demo_out3) = 3"
proof -
  let ?rep = "report3 demo_t3 [] (lit ''y'') demo_out3"
  have imp: "filter (is_import demo_syms) demo_rels = [demo_reloc 544 1026 2 0]"
    by (simp add: demo_rels_def demo_reloc_def is_import_def demo_syms_def demo_symbol_def
        symbol_relocs_def reloc_consts SHN_UNDEF_def)
  have names: "map (\<lambda>r. sym_name (demo_syms ! nat (rel_sym r))) (filter (is_import demo_syms) demo_rels) = [lit ''malloc'']"
    by (simp add: imp) (simp add: demo_reloc_def demo_syms_def demo_symbol_def)
  have ss: "dynamic_symbols (p3_elf demo_t3) = Inr demo_syms" "iter_relocations (p3_elf demo_t3) = Inr demo_rels"
    by (simp_all add: demo_symbols demo_relocs)
  note rep = phase3_report[OF demo_t3_wf demo_in_file3 demo_build3 ss refl refl, of "[]", unfolded names]
  have "r3_shim_symbols ?rep = sorted_set (map ((@) (lit ''_a2i_'')) [lit ''malloc''])" "r3_bind_count ?rep = 1"
    "r3_rebase_count ?rep + r3_bind_count ?rep = int (length demo_rels)"
    using rep by simp_all
  moreover have "lit ''_a2i_'' @ lit ''malloc'' = lit ''_a2i_malloc''" by (simp flip: lit_append)
  ultimately show ?thesis by (simp add: sorted_set_def demo_rels_def)
qed

subsection \<open>Errors\<close>

text \<open>
  The constructor refuses, in this order, a file for another machine, a file that is not a shared object, one
  without a loadable segment, and one whose first loadable segment is not executable at address 0; it
  accepts every other file.
\<close>

theorem phase3_init_checks:
  shows "case phase3_init e base reserve page of
      Inl x \<Rightarrow> x = Phase3Error (if e_machine (ehdr e) \<noteq> EM_AARCH64 then Needs_AArch64
        else if e_type (ehdr e) \<noteq> ET_DYN then Needs_Et_Dyn
        else if pt_loads e = [] then No_Pt_Load else First_Load_Not_Rx_At_Zero)
      \<and> \<not> (e_machine (ehdr e) = EM_AARCH64 \<and> e_type (ehdr e) = ET_DYN \<and> pt_loads e \<noteq> []
            \<and> p_vaddr (hd (pt_loads e)) = 0 \<and> p_flags (hd (pt_loads e)) AND 1 \<noteq> 0)
    | Inr t \<Rightarrow> e_machine (ehdr e) = EM_AARCH64 \<and> e_type (ehdr e) = ET_DYN \<and> pt_loads e \<noteq> []
        \<and> p_vaddr (hd (pt_loads e)) = 0 \<and> p_flags (hd (pt_loads e)) AND 1 \<noteq> 0
        \<and> length (p3_segments t) = length (pt_loads e)"
proof -
  have len: "length (other_segments s p c i phs) = length phs" for s p c i phs
    by (induction phs arbitrary: c i) (simp_all add: Let_def)
  show ?thesis
    by (auto simp: phase3_init_def layout_segments_def Let_def len simp flip: pt_loads_def split: list.split)
qed

text \<open>
  The relocation loop stops at the first relocation it cannot process, with the error of the code: the
  address of a slot no segment backs, the type of an unsupported relocation, or the index of a symbol the
  symbol table does not have; no file is written.
\<close>

theorem phase3_rejects:
  assumes "phase3_wf t" and "segments_in_file t"
    and "dynamic_symbols (p3_elf t) = Inr syms" and "iter_relocations (p3_elf t) = Inr (rels @ r # rest)"
    and "relocs_ready3 t syms rels"
    and "\<not> known_reloc syms r \<or> \<not> (\<exists>s \<in> set (p3_segments t). segment_covers (rel_offset r) s)"
  shows "translate3 t fs output shim install prefix v = (fs, Inl (Phase3Error
    (if \<not> (\<exists>s \<in> set (p3_segments t). segment_covers (rel_offset r) s) then Target_Not_File_Backed (rel_offset r)
     else if rel_type r \<notin> set symbol_relocs then Unsupported_Relocation (rel_type r) (rel_offset r)
     else Bad_Symbol_Index (rel_sym r))))" (is "_ = (fs, Inl ?e)")
proof -
  let ?st0 = "\<lparr>t_image = copy_segments t, t_rebases = [], t_bindings = [], t_patched = no_patches\<rparr>"
  obtain st where st: "foldM_r (reloc_step3 t syms prefix) ?st0 rels = Inr st"
    using relocs_progress3[OF phase3_wf_placed[OF assms(1)] phase3_wf_end(2)[OF assms(1)], of ?st0 syms rels prefix]
      length_copy_segments[OF assms(1,2)] assms(5) by auto
  have "reloc_step3 t syms prefix st r = Inl ?e"
  proof (cases "\<exists>s \<in> set (p3_segments t). segment_covers (rel_offset r) s")
    case True
    then obtain s where "s \<in> set (p3_segments t)" "segment_covers (rel_offset r) s" by blast
    then have "located3 t r" by (rule covered_located)
    then show ?thesis
      using True assms(6) by (auto simp: reloc_step3_def located3_def known_reloc_def Let_def)
  next
    case False
    then have "location (p3_slide t) 0 (p3_segments t) (rel_offset r) = Inl (Phase3Error (Target_Not_File_Backed (rel_offset r)))"
      by (simp add: location_Inl)
    then show ?thesis using False by (simp add: reloc_step3_def)
  qed
  then show ?thesis
    using st assms(3,4) by (simp add: translate3_def build3_def relocate3_def foldM_r_append)
qed

definition demo_bad_t3 :: phase3 where
  "demo_bad_t3 = demo_t3\<lparr>p3_elf := demo_bad\<rparr>"

lemma demo_bad_wf3: "phase3_wf demo_bad_t3" "segments_in_file demo_bad_t3"
proof -
  have "elf_wf demo_bad" using demo_bad_wf(1) by (simp add: phase2_wf_def demo_bad_t_def)
  moreover have "layout_segments demo_bad IMAGE_BASE HEADER_RESERVE IOS_PAGE = Inr [demo_seg0, demo_seg1]"
    using demo_layout3 by (simp add: layout_segments_def demo_bad_def demo_elf_def)
  ultimately show "phase3_wf demo_bad_t3"
    by (simp add: phase3_wf_def demo_bad_t3_def demo_t3_def IMAGE_BASE_def HEADER_RESERVE_def)
  show "segments_in_file demo_bad_t3"
    using demo_in_file3 by (simp add: segments_in_file_def demo_bad_t3_def demo_bad_def)
qed

lemma phase3_rejects_witness:
  "translate3 demo_bad_t3 Map.empty [] [] [] [] (12, 0, 0) = (Map.empty, Inl (Phase3Error (Unsupported_Relocation 0 0)))"
proof -
  have "relocs_ready3 demo_bad_t3 demo_syms []" by (simp add: relocs_ready3_def)
  moreover have "\<not> known_reloc demo_syms (demo_reloc 0 0 0 0)"
    by (simp add: known_reloc_def demo_reloc_def reloc_consts symbol_relocs_def)
  moreover have "\<exists>s \<in> set (p3_segments demo_bad_t3). segment_covers 0 s"
    by (simp add: demo_bad_t3_def segment_covers_def demo_seg_fields)
  ultimately show ?thesis
    using phase3_rejects[of demo_bad_t3 demo_syms "[]" "demo_reloc 0 0 0 0" "[]" Map.empty "[]" "[]" "[]" "[]" "(12, 0, 0)"]
      demo_bad_wf3 demo_bad_relocs
    by (simp add: demo_bad_t3_def demo_reloc_def symbol_relocs_def reloc_consts)
qed

text \<open>
  A failed translation leaves the file system as it was, and a successful one changes the output path only
  and returns the report of what it wrote.
\<close>

theorem phase3_files:
  shows "case translate_phase3 fs input output shim install prefix v of
      (fs', Inl e) \<Rightarrow> fs' = fs
    | (fs', Inr rep) \<Rightarrow> (\<exists>d e t b. fs input = Some d \<and> parse_elf d input = Inr e
        \<and> phase3_init e IMAGE_BASE HEADER_RESERVE IOS_PAGE = Inr t \<and> phase3_wf t
        \<and> build3 t shim install prefix v = Inr b \<and> fs' = fs(output \<mapsto> f_final b)
        \<and> rep = report3 t output shim b)"
proof (cases "rbind (read_bytes fs input) (\<lambda>d. rbind (parse_elf d input)
    (\<lambda>e. phase3_init e IMAGE_BASE HEADER_RESERVE IOS_PAGE))")
  case (Inl x)
  then show ?thesis by (simp add: translate_phase3_def)
next
  case (Inr t)
  obtain d e where d: "read_bytes fs input = Inr d" "parse_elf d input = Inr e"
    "phase3_init e IMAGE_BASE HEADER_RESERVE IOS_PAGE = Inr t"
    using Inr by (auto simp: result_iff)
  have tr: "translate_phase3 fs input output shim install prefix v = translate3 t fs output shim install prefix v"
    using Inr by (simp add: translate_phase3_def)
  have "fs input = Some d" using d(1) by (auto simp: read_bytes_def split: option.splits)
  moreover have "phase3_wf t"
    by (rule phase3_init_wf(1)[OF d(3) parse_elf_wf(1)[OF d(2)] pow2_IOS_PAGE])
      (simp_all add: IMAGE_BASE_def HEADER_RESERVE_def)
  ultimately show ?thesis
    using d(2,3) unfolding tr translate3_def
    by (cases "build3 t shim install prefix v") (auto simp: write_bytes_def)
qed

subsection \<open>Phase 2 and Phase 3 agree\<close>

text \<open>The two layouts find the same segment of the file for an address.\<close>

lemma layouts_same_segment:
  assumes "list_all2 (load_placed sl2 page2) phs loads" and "list_all2 (segment_placed sl3 page3) phs segs"
    and "find (load_covers v) loads = Some l"
  shows "\<exists>s. find (segment_covers v) segs = Some s \<and> is_elf_offset s = ml_elf_offset l \<and> is_elf_vaddr s = ml_elf_vaddr l"
  using assms
proof (induction phs arbitrary: loads segs)
  case (Cons ph phs)
  then obtain l0 loads' s0 segs' where e: "loads = l0 # loads'" "segs = s0 # segs'"
    by (auto simp: list_all2_Cons1)
  then have same: "ml_elf_vaddr l0 = p_vaddr ph" "ml_elf_filesz l0 = p_filesz ph" "ml_elf_offset l0 = p_offset ph"
    "is_elf_vaddr s0 = p_vaddr ph" "is_elf_filesz s0 = p_filesz ph" "is_elf_offset s0 = p_offset ph"
    using Cons.prems(1,2) by (auto simp: load_placed_def segment_placed_def)
  then have "segment_covers v s0 = load_covers v l0" by (simp add: segment_covers_def load_covers_def)
  then show ?case using Cons e same by auto
qed auto

text \<open>
  C6. The image of Phase 3, moved by dyld to the slide of Phase 2, and the image of Phase 2 hold the same value in
  every relocated slot that is not an import.
\<close>

theorem phases_agree:
  assumes "phase2_wf t2" and "loads_in_file t2" and "build2 t2 nm v2 = Inr (img2, st2)"
    and "phase3_wf t3" and "segments_in_file t3" and "build3 t3 shim install prefix v3 = Inr b"
    and "p3_elf t3 = p2_elf t2"
    and "dynamic_symbols (p2_elf t2) = Inr syms" and "iter_relocations (p2_elf t2) = Inr rels"
    and "relocs_ready (p2_loads t2) syms rels" and "relocs_ready3 t3 syms rels"
    and "sorted_wrt (\<lambda>r q. apart 8 (rel_offset r) (rel_offset q)) rels"
    and "r \<in> set rels" and "\<not> is_import syms r"
  shows "\<exists>img3 value. dyld_rebase (p2_slide t2 - p3_slide t3) (f_final b) = Some img3
    \<and> read_u64 img2 (place2 (p2_loads t2) (rel_offset r)) = Inr value
    \<and> read_u64 img3 (place3 (p3_segments t3) (rel_offset r)) = Inr value"
proof -
  have known: "known_reloc syms r" and cov: "\<exists>p. vaddr_to_output_offset (p2_loads t2) (rel_offset r) = Inr p"
    and ins: "p2.slot_inside 8 (p2_loads t2) (rel_offset r)"
    using assms(10,13) by (auto simp: relocs_ready_def)
  obtain l where l: "find (load_covers (rel_offset r)) (p2_loads t2) = Some l"
    using cov by (auto simp: vaddr_to_output_offset_def split: option.splits)
  have pl2: "list_all2 (load_placed (p2_slide t2) (p2_page t2)) (pt_loads (p2_elf t2)) (p2_loads t2)"
    using assms(1) by (auto simp: phase2_wf_def intro: map_loads_placed)
  have pl3: "list_all2 (segment_placed (p3_slide t3) (p3_page t3)) (pt_loads (p2_elf t2)) (p3_segments t3)"
    using layout_segments_placed[of "p3_page t3" "p3_base t3" "p3_reserve t3" "p3_elf t3" "p3_segments t3"] assms(4,7)
    by (simp add: phase3_wf_def)
  obtain s where s: "find (segment_covers (rel_offset r)) (p3_segments t3) = Some s"
    "is_elf_offset s = ml_elf_offset l" "is_elf_vaddr s = ml_elf_vaddr l"
    using layouts_same_segment[OF pl2 pl3 l] by blast
  obtain f where f: "reloc_patch (p2_slide t2) syms r = Some f"
    using reloc_patch_None_iff[OF known, of "p2_slide t2"] assms(14) by auto
  have lm: "l \<in> set (p2_loads t2)" "load_covers (rel_offset r) l" using l by (auto simp: find_Some_iff)
  have lb: "ml_elf_offset l + ml_elf_filesz l \<le> int (length (edata (p2_elf t2)))" "0 \<le> ml_elf_offset l"
    using assms(2) lm(1) phase2_wf_load(1)[OF assms(1) lm(1)] by (auto simp: loads_in_file_def)
  have "rel_offset r + 8 \<le> ml_elf_vaddr l + ml_elf_filesz l" "ml_elf_vaddr l \<le> rel_offset r"
    using ins lm by (auto simp: p2.slot_inside_def load_covers_def)
  then obtain old where old: "read_u64 (edata (p2_elf t2)) (ml_elf_offset l + (rel_offset r - ml_elf_vaddr l)) = Inr old"
    using lb by (auto simp: read_u64_eq)
  have two: "read_u64 img2 (place2 (p2_loads t2) (rel_offset r)) = Inr (f old)"
    unfolding place2_find[OF l] by (rule slot2_value[OF assms(1-3,8-10,12,13) f l old])
  have e3: "dynamic_symbols (p3_elf t3) = Inr syms" "iter_relocations (p3_elf t3) = Inr rels"
    using assms(7-9) by simp_all
  obtain ps img3 where img: "dyld_rebase (p2_slide t2 - p3_slide t3) (f_final b) = Some img3"
    by (rule dyld_rebase3[OF assms(4-6) e3 assms(11,12)])
  have sl: "p3_slide t3 + (p2_slide t2 - p3_slide t3) = p2_slide t2" by simp
  have "read_u64 img3 (is_data_fileoff s + (rel_offset r - is_elf_vaddr s)) = Inr (f old)"
    by (rule slot3_loaded[OF assms(4-6) e3 assms(11-13) _ s(1) _ img]) (use f sl assms(7) s(2,3) old in simp_all)
  then have "read_u64 img3 (place3 (p3_segments t3) (rel_offset r)) = Inr (f old)"
    by (simp add: place3_find(2)[OF s(1)])
  then show ?thesis using img two by blast
qed

lemma phases_agree_witness:
  "\<exists>img3 value. dyld_rebase (ELF_SLIDE - HEADER_RESERVE) (f_final demo_out3) = Some img3
    \<and> read_u64 (fst demo_out) (place2 (p2_loads demo_t) 552) = Inr value
    \<and> read_u64 img3 (place3 (p3_segments demo_t3) 552) = Inr value"
proof -
  define r where "r = demo_reloc 552 257 1 3"
  have r: "r \<in> set demo_rels" "rel_offset r = 552" "\<not> is_import demo_syms r"
    by (simp_all add: r_def demo_rels_def demo_reloc_def is_import_def demo_syms_def demo_symbol_def SHN_UNDEF_def)
  show ?thesis
    using phases_agree[OF demo_t_wf demo_in_file demo_build demo_t3_wf demo_in_file3 demo_build3 _ _ _ demo_ready demo_ready3
      demo_apart r(1,3)]
    by (simp add: demo_symbols demo_relocs r(2))
qed

subsection \<open>What the code does not check\<close>

text \<open>
  Segments that share a page: when the second loadable segment begins, after the slide, in the page where the
  first one ends, the layout gives the two Mach-O segments overlapping address ranges and no error, as for
  ELF files linked for pages smaller than 16 KiB.
\<close>

theorem phase3_page_sharing:
  assumes "phase3_init e base reserve page = Inr t" and "pow2 page" and "page dvd base"
    and "pt_loads e = first # second # rest"
    and "floor_to (base + reserve + p_vaddr second) page < base + reserve + p_memsz first"
  shows "is_vmaddr (p3_segments t ! 1) < is_vmaddr (p3_segments t ! 0) + is_vmsize (p3_segments t ! 0)"
proof -
  have "layout_segments e base reserve page = Inr (p3_segments t)"
    using assms(1) by (auto simp: phase3_init_def result_iff split: if_splits)
  then have "p3_segments t ! 0 = first_segment base reserve page first"
    "is_vmaddr (p3_segments t ! 1) = floor_to (base + reserve + p_vaddr second) page"
    using assms(4) by (auto elim!: layout_segments_Inr simp: other_segment_def Let_def)
  moreover have "reserve + p_memsz first \<le> align (reserve + p_memsz first) page"
    by (rule align_bounds(1)[OF assms(2)])
  ultimately show ?thesis using assms(5) by (simp add: first_segment_def)
qed

lemma phase3_page_sharing_witness:
  "is_vmaddr (p3_segments demo_t3 ! 1) < is_vmaddr (p3_segments demo_t3 ! 0) + is_vmsize (p3_segments demo_t3 ! 0)"
proof (rule phase3_page_sharing[OF demo_init3 pow2_IOS_PAGE])
  show "IOS_PAGE dvd IMAGE_BASE" by (simp add: IMAGE_BASE_def)
  show "pt_loads demo_elf = [demo_text, demo_data]"
    by (simp add: pt_loads_def demo_text_def demo_data_def PT_LOAD_def)
  show "floor_to (IMAGE_BASE + HEADER_RESERVE + p_vaddr demo_data) IOS_PAGE < IMAGE_BASE + HEADER_RESERVE + p_memsz demo_text"
    by code_simp
qed

end
