(* ===== verification/Phase4_Props.thy ===== *)
theory Phase4_Props
  imports Demo4 Phase3_Props
begin

section \<open>The properties of Phase 4\<close>

text \<open>
  The theorems about \<open>phase4.py\<close>: the export trie, the exports of the image, its segments, what dyld makes
  of it, success, files and report.
\<close>

subsection \<open>The export trie\<close>

text \<open>
  C2. The bytes of \<open>_build_export_trie\<close> implement the dictionary of exports: the walk by which dyld looks a symbol up
  ends at an address exactly when the symbol is the UTF-8 form of an exported name with that address.
\<close>

theorem export_trie_lookup:
  assumes "build_export_trie exports = Inr out" and "distinct (map fst exports)"
    and "\<forall>e \<in> set exports. export_name_ok (fst e)"
  shows "trie_walk out 0 symbol = Some a \<longleftrightarrow> (\<exists>name. encode_utf8 name = Inr symbol \<and> map_of exports name = Some a)"
  by (rule build_export_trie_lookup[OF assms])

lemma demo_export_name: "encode_utf8 (lit ''_inside'') = Inr [95, 105, 110, 115, 105, 100, 101]"
  by (simp add: lit_simps encode_utf8_Cons is_scalar_def is_surrogate_def utf8_char_def)

lemma demo_name_ok: "export_name_ok (lit ''_inside'')"
  by (simp add: export_name_ok_def lit_simps is_scalar_def is_surrogate_def)

lemma export_trie_lookup_witness:
  "trie_walk demo_stream 0 [95, 105, 110, 115, 105, 100, 101] = Some 0x10010 \<and> trie_walk demo_stream 0 [95] = None"
proof -
  note look = export_trie_lookup[OF demo_built_trie, unfolded demo_exports_def]
  have "trie_walk demo_stream 0 [95, 105, 110, 115, 105, 100, 101] = Some 0x10010"
    using look demo_export_name demo_name_ok by auto
  moreover have "trie_walk demo_stream 0 [95] \<noteq> Some a" for a
    using look[of "[95]" a] demo_export_name demo_name_ok by (auto split: if_splits)
  ultimately show ?thesis by auto
qed

text \<open>
  C3. What a symbol lookup finds in the image of Phase 4: the symbols dyld can resolve are the defined global and weak
  functions and objects of the dynamic symbol table under a leading underscore, the last one where a name
  occurs twice, and each resolves to the address its ELF value is loaded at.
\<close>

theorem phase4_exports:
  assumes "phase3_wf t" and "segments_in_file t" and "build3 t shim install prefix v = Inr b"
    and "build4 t (report3 t tmp shim b) (f_final b) shim install v = Inr x"
    and "dynamic_symbols (p3_elf t) = Inr syms"
  shows "dyld_export (x_final x) symbol = Some a \<longleftrightarrow>
    (\<exists>name s. encode_utf8 (lit ''_'' @ name) = Inr symbol
       \<and> find (\<lambda>s. sym_name s = name \<and> name \<noteq> [] \<and> st_shndx s \<noteq> SHN_UNDEF \<and> st_info s div 16 \<in> {1, 2}
              \<and> st_info s mod 16 \<in> {1, 2}) (rev syms) = Some s
       \<and> p3_base t + a = p3_slide t + st_value s)"
proof -
  have "exported s \<and> sym_name s = name \<longleftrightarrow> sym_name s = name \<and> name \<noteq> [] \<and> st_shndx s \<noteq> SHN_UNDEF
      \<and> st_info s div 16 \<in> {1, 2} \<and> st_info s mod 16 \<in> {1, 2}" for s name
  proof -
    have "st_info s AND 0x0F = st_info s mod 16"
      using take_bit_eq_mask[of 4 "st_info s"] by (simp add: take_bit_eq_mod mask_eq_exp_minus_1)
    then show ?thesis by (auto simp: exported_def symbol_consts drop_bit_eq_div)
  qed
  then have same: "find (\<lambda>s. exported s \<and> sym_name s = name) (rev syms) =
      find (\<lambda>s. sym_name s = name \<and> name \<noteq> [] \<and> st_shndx s \<noteq> SHN_UNDEF \<and> st_info s div 16 \<in> {1, 2}
              \<and> st_info s mod 16 \<in> {1, 2}) (rev syms)" for name by simp
  have "p3_base t + a = p3_slide t + st_value s \<longleftrightarrow> a = p3_reserve t + st_value s" for s :: elf_symbol
    using assms(1) by (auto simp: phase3_wf_def)
  then show ?thesis by (simp only: dyld_export4[OF assms] same)
qed

lemma phase4_exports_witness:
  "dyld_export (x_final demo_out4) [95, 105, 110, 115, 105, 100, 101] = Some (HEADER_RESERVE + 16)"
proof -
  let ?s = "demo_symbol (lit ''inside'') 18 1 16 4"
  have nm: "encode_utf8 (lit ''_'' @ lit ''inside'') = Inr [95, 105, 110, 115, 105, 100, 101]"
    using demo_export_name by (simp flip: lit_append)
  have "lit ''inside'' \<noteq> []" by (simp add: lit_simps)
  then have "find (\<lambda>s. sym_name s = lit ''inside'' \<and> lit ''inside'' \<noteq> [] \<and> st_shndx s \<noteq> SHN_UNDEF \<and> st_info s div 16 \<in> {1, 2}
              \<and> st_info s mod 16 \<in> {1, 2}) (rev demo_syms) = Some ?s"
    by (simp add: demo_syms_def demo_symbol_def SHN_UNDEF_def)
  moreover have "p3_base demo_t3 + (HEADER_RESERVE + 16) = p3_slide demo_t3 + st_value ?s"
    by (simp add: demo_t3_def demo_symbol_def IMAGE_BASE_def)
  ultimately show ?thesis
    using phase4_exports[OF demo_t3_wf demo_in_file3 demo_build3 demo_build4 demo_tables(1)] nm by blast
qed

subsection \<open>Segments\<close>

lemma command_segments_nth:
  "i < length segs \<Longrightarrow> command_segments fo vm segs ! i =
    (segs ! i)\<lparr>is_filesize := (if Suc i < length segs then is_fileoff (segs ! Suc i) else fo) - is_fileoff (segs ! i),
       is_vmsize := (if Suc i < length segs then is_vmaddr (segs ! Suc i) else vm) - is_vmaddr (segs ! i)\<rparr>"
proof (induction segs arbitrary: i)
  case (Cons s segs)
  then show ?case by (cases i; cases segs) (auto simp: Let_def)
qed simp

lemma regions_ordered_step:
  "regions_ordered a rs b \<Longrightarrow> i < length rs \<Longrightarrow>
    fst (rs ! i) + snd (rs ! i) \<le> (if Suc i < length rs then fst (rs ! Suc i) else b)"
proof (induction a rs b arbitrary: i rule: regions_ordered.induct)
  case (2 a s n rs b)
  then show ?case
  proof (cases i)
    case 0
    then show ?thesis using 2(2) by (cases rs) auto
  next
    case (Suc j)
    then show ?thesis using 2(1)[of j] 2(2,3) by (auto split: if_splits)
  qed
qed simp

text \<open>In ascending order of addresses, neighbours that do not overlap make a list in which no two do.\<close>

lemma ascending_apart:
  assumes "sorted (map is_vmaddr segs)"
  shows "sorted_wrt (\<lambda>s s'. is_vmaddr s + is_vmsize s \<le> is_vmaddr s') segs =
    (\<forall>i. Suc i < length segs \<longrightarrow> is_vmaddr (segs ! i) + is_vmsize (segs ! i) \<le> is_vmaddr (segs ! Suc i))"
    (is "?pairs = ?steps")
proof
  assume steps: ?steps
  show ?pairs
    unfolding sorted_wrt_iff_nth_less
  proof (intro allI impI)
    fix i j assume ij: "i < j" "j < length segs"
    then have "is_vmaddr (segs ! Suc i) \<le> is_vmaddr (segs ! j)"
      using sorted_nth_mono[OF assms, of "Suc i" j] by simp
    moreover have "is_vmaddr (segs ! i) + is_vmsize (segs ! i) \<le> is_vmaddr (segs ! Suc i)" using steps ij by simp
    ultimately show "is_vmaddr (segs ! i) + is_vmsize (segs ! i) \<le> is_vmaddr (segs ! j)" by linarith
  qed
qed (simp add: sorted_wrt_iff_nth_less)

text \<open>
  C13. The segments of the load commands are the laid-out segments, each extended in the file up to the next one and the
  last up to \<open>__LINKEDIT\<close>. In memory they keep at least their size exactly when each laid-out segment ends at or before
  the start of the one that follows it in the list. When the segments are in ascending order of their addresses (as ELF
  asks of its \<open>PT_LOAD\<close> entries) this says that no two of them overlap: where two share a page, the first is cut short.
  Out of that order a segment shrinks, even below zero, although none overlaps.
\<close>

theorem phase4_segments:
  assumes "phase3_wf t" and "segments_in_file t" and "build3 t shim install prefix v = Inr b"
    and "cs = command_segments (k_fileoff (f_link b)) (k_vmaddr (f_link b)) (p3_segments t)"
  shows "length cs = length (p3_segments t) \<and> contiguous (k_fileoff (f_link b)) (k_vmaddr (f_link b)) cs
    \<and> (\<forall>i < length cs. is_fileoff (cs ! i) = is_fileoff (p3_segments t ! i) \<and> is_vmaddr (cs ! i) = is_vmaddr (p3_segments t ! i)
         \<and> is_filesize (p3_segments t ! i) \<le> is_filesize (cs ! i))
    \<and> (\<forall>i < length cs. is_vmsize (p3_segments t ! i) \<le> is_vmsize (cs ! i)) =
      (\<forall>i. Suc i < length cs \<longrightarrow> is_vmaddr (p3_segments t ! i) + is_vmsize (p3_segments t ! i) \<le> is_vmaddr (p3_segments t ! Suc i))
    \<and> (sorted (map is_vmaddr (p3_segments t)) \<longrightarrow>
        (\<forall>i < length cs. is_vmsize (p3_segments t ! i) \<le> is_vmsize (cs ! i)) =
          sorted_wrt (\<lambda>s s'. is_vmaddr s + is_vmsize s \<le> is_vmaddr s') (p3_segments t))
    \<and> (\<forall>i. Suc i < length cs \<longrightarrow> is_vmsize (cs ! i) = is_vmaddr (p3_segments t ! Suc i) - is_vmaddr (p3_segments t ! i))"
proof -
  let ?segs = "p3_segments t" and ?k = "f_link b"
  obtain cs0 where k: "?k = mk_linkedit (p3_page t) ?segs (image_end t) (int (length (f_rebases b))) (int (length (f_binds b)))"
    and lk: "linkedit_ok ?k (int (length (t_image (f_state b)))) (int (length (f_rebases b))) (int (length (f_binds b)))"
    and len: "int (length (t_image (f_state b))) = image_end t"
    by (rule build3_run[OF assms(1-3)])
  have wf: "pow2 (p3_page t)" "0 \<le> p3_reserve t" "elf_wf (p3_elf t)"
    "layout_segments (p3_elf t) (p3_base t) (p3_reserve t) (p3_page t) = Inr ?segs"
    using assms(1) by (simp_all add: phase3_wf_def)
  have ord: "regions_ordered 0 (map segment_file_region ?segs) (k_fileoff ?k)"
    using layout_segments_ordered[OF wf] lk len by (auto intro: regions_ordered_mono simp: linkedit_ok_def)
  have fwd: "is_fileoff (?segs ! i) + is_filesize (?segs ! i) \<le> (if Suc i < length ?segs then is_fileoff (?segs ! Suc i) else k_fileoff ?k)"
    if "i < length ?segs" for i
    using regions_ordered_step[OF ord, of i] that by (auto split: if_splits)
  have top: "is_vmaddr s + is_vmsize s \<le> k_vmaddr ?k" if "s \<in> set ?segs" for s
  proof -
    have "is_vmaddr s + is_vmsize s \<le> max_list (map (\<lambda>x. is_vmaddr x + is_vmsize x) ?segs)"
      by (rule max_list_ge) (use that in simp)
    then show ?thesis using align_bounds(1)[OF wf(1)] unfolding k by (force simp: mk_linkedit_def Let_def intro: order_trans)
  qed
  have mem: "(\<forall>i < length ?segs. is_vmsize (?segs ! i) \<le> is_vmsize (cs ! i)) =
      (\<forall>i. Suc i < length ?segs \<longrightarrow> is_vmaddr (?segs ! i) + is_vmsize (?segs ! i) \<le> is_vmaddr (?segs ! Suc i))"
  proof -
    have "is_vmsize (?segs ! i) \<le> is_vmsize (cs ! i) \<longleftrightarrow>
        (Suc i < length ?segs \<longrightarrow> is_vmaddr (?segs ! i) + is_vmsize (?segs ! i) \<le> is_vmaddr (?segs ! Suc i))"
      if "i < length ?segs" for i
      using that top[of "?segs ! i"] by (auto simp: assms(4) command_segments_nth)
    then show ?thesis by (metis Suc_lessD)
  qed
  have "is_fileoff (cs ! i) = is_fileoff (?segs ! i) \<and> is_vmaddr (cs ! i) = is_vmaddr (?segs ! i)
      \<and> is_filesize (?segs ! i) \<le> is_filesize (cs ! i)" if "i < length ?segs" for i
    using fwd[OF that] that by (simp add: assms(4) command_segments_nth)
  moreover have "is_vmsize (cs ! i) = is_vmaddr (?segs ! Suc i) - is_vmaddr (?segs ! i)" if "Suc i < length ?segs" for i
    using that by (simp add: assms(4) command_segments_nth)
  ultimately show ?thesis using mem by (simp add: ascending_apart) (simp add: assms(4) command_segments_contiguous)
qed

lemma phase4_segments_witness:
  "\<not> (\<forall>i < length (p3_segments demo_t3). is_vmsize (p3_segments demo_t3 ! i)
     \<le> is_vmsize (command_segments (k_fileoff (f_link demo_out3)) (k_vmaddr (f_link demo_out3)) (p3_segments demo_t3) ! i))"
proof -
  have "\<not> (\<forall>i. Suc i < length (p3_segments demo_t3) \<longrightarrow>
      is_vmaddr (p3_segments demo_t3 ! i) + is_vmsize (p3_segments demo_t3 ! i) \<le> is_vmaddr (p3_segments demo_t3 ! Suc i))"
    by (auto simp: demo_seg_fields)
  then show ?thesis using phase4_segments[OF demo_t3_wf demo_in_file3 demo_build3 refl] by simp
qed

text \<open>Segments, as a loader sees them, that follow each other without a gap up to the end of the file.\<close>

fun views_contiguous :: "int \<Rightarrow> segment_view list \<Rightarrow> bool" where
  "views_contiguous eof [] = False"
| "views_contiguous eof [(_, va, vs, fo, fsz, _)] = (fo + fsz = eof)"
| "views_contiguous eof ((_, va, vs, fo, fsz, _) # (nm', va', vs', fo', rest') # ws) =
     (fo + fsz = fo' \<and> va + vs = va' \<and> views_contiguous eof ((nm', va', vs', fo', rest') # ws))"

lemma views_contiguous_append:
  assumes "contiguous fo vm segs" and "map segment_view_of segs = map Some views"
    and "linkedit_view page vm fo (eof - fo) = Some lv"
  shows "views_contiguous eof (views @ [lv])"
  using assms
proof (induction fo vm segs arbitrary: views rule: contiguous.induct)
  case (1 fo vm)
  then show ?case by (auto simp: linkedit_view_def split: sum.splits)
next
  case (2 fo vm s)
  then show ?case by (auto simp: linkedit_view_def segment_view_of_def split: sum.splits)
next
  case (3 fo vm s s' ss)
  then obtain w w' ws where v: "views = w # w' # ws" "segment_view_of s = Some w" "segment_view_of s' = Some w'"
    "map segment_view_of (s' # ss) = map Some (w' # ws)" by (auto simp: map_eq_Cons_conv Cons_eq_map_conv)
  have "contiguous fo vm (s' # ss)" using 3(2) by simp
  from 3(1)[OF this v(4) 3(4)] have ih: "views_contiguous eof (w' # ws @ [lv])" by simp
  obtain nm nm' where "w = (nm, is_vmaddr s, is_vmsize s, is_fileoff s, is_filesize s, is_protection s, is_protection s)"
    "w' = (nm', is_vmaddr s', is_vmsize s', is_fileoff s', is_filesize s', is_protection s', is_protection s')"
    using v(2,3) by (auto simp: segment_view_of_def split: sum.splits)
  then show ?case using 3(2) ih v(1) by simp
qed

text \<open>
  C8. The load commands of the image: the segments a loader reads follow each other without a gap in the file and in
  memory, \<open>__LINKEDIT\<close> last and ending with the file, as code signing requires; the dyld information names
  the rebase, bind and export programs. The symbol table command has no symbols, and its string table is the one byte
  behind the export trie: it is NUL, the empty string, and the last byte of the file.
\<close>

theorem phase4_header:
  assumes "phase3_wf t" and "segments_in_file t" and "build3 t shim install prefix v = Inr b"
    and "build4 t (report3 t tmp shim b) (f_final b) shim install v = Inr x"
  shows "\<exists>cs views ro bo eo. read_macho (x_final x) = Some (MH_DYLIB, MH_DYLDLINK OR MH_TWOLEVEL, cs)
    \<and> map command_id cs = replicate (length (p3_segments t) + 1) LC_SEGMENT_64
        @ [LC_LOAD_DYLIB, LC_ID_DYLIB, LC_BUILD_VERSION, LC_DYLD_INFO_ONLY, LC_SYMTAB]
    \<and> image_segments (x_final x) = Some views \<and> views_contiguous (int (length (x_final x))) views
    \<and> map segment_fileoff views = map is_fileoff (p3_segments t) @ [ro]
    \<and> image_dyld_info (x_final x) = Some (ro, int (length (f_rebases b)), bo, int (length (f_binds b)),
        eo, int (length (x_stream x)))
    \<and> image_range (x_final x) ro (int (length (f_rebases b))) = f_rebases b
    \<and> image_range (x_final x) bo (int (length (f_binds b))) = f_binds b
    \<and> image_range (x_final x) eo (int (length (x_stream x))) = x_stream x
    \<and> int (length (x_final x)) = eo + int (length (x_stream x)) + 1
    \<and> image_symtab (x_final x) = Some (eo + int (length (x_stream x)), 0, eo + int (length (x_stream x)), 1)
    \<and> image_range (x_final x) (eo + int (length (x_stream x))) 1 = [0]"
proof -
  obtain cs views lv where vw: "read_macho (x_final x) = Some (MH_DYLIB, MH_DYLDLINK OR MH_TWOLEVEL, cs)"
    "map command_id cs = replicate (length (p3_segments t) + 1) LC_SEGMENT_64
      @ [LC_LOAD_DYLIB, LC_ID_DYLIB, LC_BUILD_VERSION, LC_DYLD_INFO_ONLY, LC_SYMTAB]"
    "image_segments (x_final x) = Some (views @ [lv])"
    "map segment_view_of (command_segments (k_fileoff (f_link b)) (k_vmaddr (f_link b)) (p3_segments t)) = map Some views"
    "linkedit_view (p3_page t) (k_vmaddr (f_link b)) (k_fileoff (f_link b))
      (int (length (x_final x)) - k_fileoff (f_link b)) = Some lv"
    "image_dyld_info (x_final x) = Some (k_rebase_off (f_link b), int (length (f_rebases b)),
      k_bind_off (f_link b), int (length (f_binds b)), x_export_off x, int (length (x_stream x)))"
    "image_symtab (x_final x) = Some (x_export_off x + int (length (x_stream x)), 0, x_export_off x + int (length (x_stream x)), 1)"
    by (rule build4_view[OF assms])
  have "views_contiguous (int (length (x_final x))) (views @ [lv])"
    by (rule views_contiguous_append[OF command_segments_contiguous vw(4,5)])
  moreover have "segment_fileoff lv = k_rebase_off (f_link b)"
    using vw(5) build4_final(9)[OF assms] by (auto simp: linkedit_view_def segment_fileoff_def split: sum.splits)
  then have "map segment_fileoff (views @ [lv]) = map is_fileoff (p3_segments t) @ [k_rebase_off (f_link b)]"
    using segment_views_fileoff[OF vw(4)] by (simp add: command_segments_fileoff)
  ultimately show ?thesis
    using vw(1-3,6,7) build4_final(1,3,11)[OF assms] build4_ranges[OF assms] by blast
qed

lemma phase4_header_witness:
  "\<exists>views. image_segments (x_final demo_out4) = Some views \<and> views_contiguous (int (length (x_final demo_out4))) views
    \<and> length views = 3"
proof -
  obtain views ro where "image_segments (x_final demo_out4) = Some views"
    "views_contiguous (int (length (x_final demo_out4))) views"
    "map segment_fileoff views = map is_fileoff (p3_segments demo_t3) @ [ro]"
    using phase4_header[OF demo_t3_wf demo_in_file3 demo_build3 demo_build4] by blast
  moreover from this(3) have "length views = 3" using length_map[of segment_fileoff views] by simp
  ultimately show ?thesis by blast
qed

subsection \<open>After dyld has moved it\<close>

text \<open>
  C5. The image of Phase 4 still implements the relocation rules at every load address: after dyld has moved it by
  \<open>d\<close> along its rebase program, every relocated slot holds the value of the rules at the slide moved by \<open>d\<close>,
  the segment bytes are those of the Phase 3 image moved the same way, and the same imports are bound.
\<close>

theorem phase4_loaded:
  assumes "phase3_wf t" and "segments_in_file t" and "build3 t shim install prefix v = Inr b"
    and "build4 t (report3 t tmp shim b) (f_final b) shim install v = Inr x"
    and "dynamic_symbols (p3_elf t) = Inr syms" and "iter_relocations (p3_elf t) = Inr rels"
    and "relocs_ready3 t syms rels" and "sorted_wrt (\<lambda>r q. apart 8 (rel_offset r) (rel_offset q)) rels"
    and "r \<in> set rels" and "reloc_patch (p3_slide t + d) syms r = Some f"
    and "find (segment_covers (rel_offset r)) (p3_segments t) = Some s"
    and "read_u64 (edata (p3_elf t)) (is_elf_offset s + (rel_offset r - is_elf_vaddr s)) = Inr old"
  shows "\<exists>img3 img4. dyld_rebase d (f_final b) = Some img3 \<and> dyld_rebase d (x_final x) = Some img4
    \<and> read_u64 img4 (is_data_fileoff s + (rel_offset r - is_elf_vaddr s)) = Inr (f old)
    \<and> (\<forall>k. p3_reserve t \<le> int k \<longrightarrow> int k < image_end t \<longrightarrow> img4 ! k = img3 ! k)
    \<and> dyld_binds (x_final x) = dyld_binds (f_final b)"
proof -
  let ?p = "is_data_fileoff s + (rel_offset r - is_elf_vaddr s)"
  obtain img3 img4 where img: "dyld_rebase d (f_final b) = Some img3" "dyld_rebase d (x_final x) = Some img4"
    and same: "\<forall>k. p3_reserve t \<le> int k \<longrightarrow> int k < image_end t \<longrightarrow> img4 ! k = img3 ! k"
    and len: "image_end t \<le> int (length img3)" "image_end t \<le> int (length img4)"
    by (rule dyld_rebase4[OF assms(1-8)])
  have s: "s \<in> set (p3_segments t)" "segment_covers (rel_offset r) s" using assms(11) by (auto simp: find_Some_iff)
  then have "rel_offset r + 8 \<le> is_elf_vaddr s + is_elf_filesz s" "is_elf_vaddr s \<le> rel_offset r"
    using assms(7,9) by (auto simp: relocs_ready3_def p3.slot_inside_def segment_covers_def)
  then have p: "p3_reserve t \<le> ?p" "?p + 8 \<le> image_end t" "0 \<le> ?p"
    using p3.placed_bounds[OF phase3_wf_placed[OF assms(1)] s(1)] phase3_wf_end(2)[OF assms(1)] by auto
  have "read_u64 img4 ?p = read_u64 img3 ?p"
    by (rule read_u64_transfer) (use p len same in auto)
  then have slot: "read_u64 img4 ?p = Inr (f old)" using slot3_loaded[OF assms(1-3,5-12) img(1)] by simp
  have di: "image_dyld_info (f_final b) = Some (k_rebase_off (f_link b), int (length (f_rebases b)),
      k_bind_off (f_link b), int (length (f_binds b)), 0, 0)"
    by (rule build3_view[OF assms(1-3)])
  have di': "image_dyld_info (x_final x) = Some (k_rebase_off (f_link b), int (length (f_rebases b)),
      k_bind_off (f_link b), int (length (f_binds b)), x_export_off x, int (length (x_stream x)))"
    by (rule build4_view[OF assms(1-4)])
  have "dyld_binds (x_final x) = dyld_binds (f_final b)"
    using build3_final(4)[OF assms(1-3)] build4_ranges(2)[OF assms(1-4)] by (simp add: dyld_binds_def di di')
  then show ?thesis using img same slot by (intro exI[of _ img3] exI[of _ img4]) simp
qed

lemma phase4_loaded_witness:
  "\<exists>img. dyld_rebase 0x100000000 (x_final demo_out4) = Some img
    \<and> read_u64 img 0x14228 = Inr (0x100010000 + 16 + 3 + 5) \<and> dyld_binds (x_final demo_out4) = dyld_binds (f_final demo_out3)"
proof -
  define r where "r = demo_reloc 552 257 1 3"
  have r: "r \<in> set demo_rels" "rel_offset r = 552" "rel_type r = 257" "rel_sym r = 1" "rel_addend r = 3"
    by (simp_all add: r_def demo_rels_def demo_reloc_def)
  have f: "reloc_patch (p3_slide demo_t3 + 0x100000000) demo_syms r = Some (\<lambda>old. mask64 (HEADER_RESERVE + 0x100000000 + 16 + 3 + old))"
    by (simp add: reloc_patch_def r demo_syms_def demo_symbol_def reloc_consts symbol_relocs_def SHN_UNDEF_def)
  have s: "find (segment_covers (rel_offset r)) (p3_segments demo_t3) = Some demo_seg1"
    by (simp add: segment_covers_def r demo_seg_fields)
  have old: "read_u64 (edata (p3_elf demo_t3)) (is_elf_offset demo_seg1 + (rel_offset r - is_elf_vaddr demo_seg1)) = Inr 5"
  proof -
    have "read_u64 demo_file 200 = Inr 5" by code_simp
    then show ?thesis by (simp add: demo_seg_fields r)
  qed
  have "is_data_fileoff demo_seg1 + (rel_offset r - is_elf_vaddr demo_seg1) = 0x14228"
    "mask64 (HEADER_RESERVE + 0x100000000 + 16 + 3 + 5) = 0x100010000 + 16 + 3 + 5"
    by (simp_all add: demo_seg_fields r mask64_mod HEADER_RESERVE_def)
  then show ?thesis
    using phase4_loaded[OF demo_t3_wf demo_in_file3 demo_build3 demo_build4 demo_tables demo_ready3 demo_apart r(1) f s old]
    by metis
qed

subsection \<open>Success, files and report\<close>

text \<open>
  C14. The translation goes through: under the conditions of Phase 3, when the export trie can be built and the load
  commands with the extended segments still fit, \<open>translate\<close> writes the output, removes the temporary file
  and returns the report.
\<close>

theorem phase4_succeeds:
  assumes "phase3_wf t" and "segments_in_file t"
    and "dynamic_symbols (p3_elf t) = Inr syms" and "iter_relocations (p3_elf t) = Inr rels"
    and "relocs_ready3 t syms rels" and "list_all is_scalar prefix"
    and "\<forall>s \<in> set syms. length prefix + length (sym_name s) \<le> l"
    and "build_export_trie (fold (add_export (p3_reserve t)) syms []) = Inr stream"
    and "fits4 t shim install v (stream_room (length rels) l) (int (length stream))"
    and "fs tmp = None"
  shows "\<exists>b x. build3 t shim install prefix v = Inr b \<and> x_stream x = stream
    \<and> translate4 t fs tmp output shim install prefix v
      = (fs(output \<mapsto> x_final x), Inr (report4 t (report3 t tmp shim b) output x))"
proof -
  have "fits3 t shim install v (stream_room (length rels) l)" using assms(9) by (simp add: fits4_def)
  then obtain b where b: "build3 t shim install prefix v = Inr b" using build3_ok[OF assms(1-7)] by blast
  obtain x where x: "build4 t (report3 t tmp shim b) (f_final b) shim install v = Inr x"
    using build4_ok[OF assms(1,2) b assms(3-5,7-9)] by blast
  have "build_export_trie (fold (add_export (p3_reserve t)) syms []) = Inr (x_stream x)"
    by (rule build4_run[OF assms(1,2) b x]) (use assms(3) in simp)
  then have "x_stream x = stream" using assms(8) by simp
  then show ?thesis
    using b x assms(10) by (auto simp: translate4_def translate3_def unlink_write unlink_absent) (auto simp: write_bytes_def)
qed

lemma phase4_succeeds_witness:
  "\<exists>b x. build3 demo_t3 (lit ''y'') (lit ''x'') (lit ''_a2i_'') (12, 0, 0) = Inr b \<and> x_stream x = demo_stream
    \<and> translate4 demo_t3 Map.empty (lit ''tmp'') (lit ''out'') (lit ''y'') (lit ''x'') (lit ''_a2i_'') (12, 0, 0)
      = ([lit ''out'' \<mapsto> x_final x], Inr (report4 demo_t3 (report3 demo_t3 (lit ''tmp'') (lit ''y'') b) (lit ''out'') x))"
  by (rule phase4_succeeds[OF demo_t3_wf demo_in_file3 demo_tables demo_ready3 demo_prefix demo_names3 demo_trie3 demo_fits4])
    simp

text \<open>
  C33. \<open>translate_phase4\<close> leaves the file system as it was when anything fails, also between the two phases, and
  otherwise changes the output path only: the temporary file is gone in every case.
\<close>

theorem phase4_files:
  assumes "fs tmp = None"
  shows "case translate_phase4 fs tmp input out shim install prefix v of
      (fs', Inl e) \<Rightarrow> fs' = fs
    | (fs', Inr rep) \<Rightarrow> (\<exists>d e t b x. fs input = Some d \<and> parse_elf d input = Inr e
        \<and> phase3_init e IMAGE_BASE HEADER_RESERVE IOS_PAGE = Inr t \<and> phase3_wf t
        \<and> build3 t shim install prefix v = Inr b
        \<and> build4 t (report3 t tmp shim b) (f_final b) shim install v = Inr x
        \<and> fs' = fs(out \<mapsto> x_final x) \<and> rep = report4 t (report3 t tmp shim b) out x)"
proof (cases "rbind (read_bytes fs input) (\<lambda>d. rbind (parse_elf d input)
    (\<lambda>e. phase3_init e IMAGE_BASE HEADER_RESERVE IOS_PAGE))")
  case (Inl x)
  then show ?thesis by (simp add: translate_phase4_def)
next
  case (Inr t)
  obtain d e where d: "read_bytes fs input = Inr d" "parse_elf d input = Inr e"
    "phase3_init e IMAGE_BASE HEADER_RESERVE IOS_PAGE = Inr t"
    using Inr by (auto simp: result_iff)
  have tr: "translate_phase4 fs tmp input out shim install prefix v = translate4 t fs tmp out shim install prefix v"
    using Inr by (simp add: translate_phase4_def)
  have "fs input = Some d" using d(1) by (auto simp: read_bytes_def split: option.splits)
  moreover have "phase3_wf t"
    by (rule phase3_init_wf(1)[OF d(3) parse_elf_wf(1)[OF d(2)] pow2_IOS_PAGE])
      (simp_all add: IMAGE_BASE_def HEADER_RESERVE_def)
  moreover note d(2,3)
  ultimately show ?thesis
  proof (cases "build3 t shim install prefix v")
    case (Inl x)
    then show ?thesis by (simp add: tr translate4_def translate3_def unlink_write unlink_absent assms)
  next
    case b: (Inr b)
    show ?thesis
    proof (cases "build4 t (report3 t tmp shim b) (f_final b) shim install v")
      case (Inl x)
      then show ?thesis using b by (simp add: tr translate4_def translate3_def unlink_write unlink_absent assms)
    next
      case (Inr x)
      then have "translate4 t fs tmp out shim install prefix v
          = (fs(out \<mapsto> x_final x), Inr (report4 t (report3 t tmp shim b) out x))"
        using b by (simp add: translate4_def translate3_def unlink_write unlink_absent assms)
          (simp add: write_bytes_def)
      then show ?thesis
        unfolding tr using \<open>fs input = Some d\<close> \<open>phase3_wf t\<close> d(2,3) b Inr by auto
    qed
  qed
qed

lemma phase4_files_witness:
  "case translate_phase4 [[] \<mapsto> demo_file] (lit ''tmp'') [] (lit ''out'') (lit ''y'') (lit ''x'') (lit ''_a2i_'') (12, 0, 0) of
     (fs', Inl e) \<Rightarrow> False
   | (fs', Inr rep) \<Rightarrow> fs' (lit ''tmp'') = None \<and> fs' (lit ''out'') \<noteq> None \<and> fs' [] = Some demo_file"
proof -
  let ?r = "translate_phase4 [[] \<mapsto> demo_file] (lit ''tmp'') [] (lit ''out'') (lit ''y'') (lit ''x'') (lit ''_a2i_'') (12, 0, 0)"
  have paths: "lit ''tmp'' \<noteq> []" "lit ''out'' \<noteq> []" "lit ''tmp'' \<noteq> lit ''out''" by (simp_all add: lit_simps)
  have "?r = translate4 demo_t3 [[] \<mapsto> demo_file] (lit ''tmp'') (lit ''out'') (lit ''y'') (lit ''x'') (lit ''_a2i_'') (12, 0, 0)"
    by (simp add: translate_phase4_def read_bytes_def demo_parsed demo_init3)
  then have "\<exists>rep. snd ?r = Inr rep" by (simp add: translate4_def translate3_def demo_build3 demo_build4)
  moreover have "([[] \<mapsto> demo_file]) (lit ''tmp'') = None" using paths by simp
  ultimately show ?thesis
    using phase4_files[where fs = "[[] \<mapsto> demo_file]" and tmp = "lit ''tmp''" and input = "[]" and out = "lit ''out''"
        and shim = "lit ''y''" and install = "lit ''x''" and prefix = "lit ''_a2i_''" and v = "(12, 0, 0)"] paths
    by (auto split: prod.splits sum.splits)
qed

definition segment_filesize :: "segment_view \<Rightarrow> int" where
  "segment_filesize s = (case s of (_, _, _, _, fsz, _) \<Rightarrow> fsz)"

text \<open>
  C36. The report of Phase 4 gives the file as it was written: its size, the number of distinct exported names, where
  the export trie is, and whether \<open>il2cpp_init\<close> is exported; but the size of \<open>__LINKEDIT\<close> in it is still the one a
  loader reads from the Phase 3 image, smaller than the one it reads from the file.
\<close>

theorem phase4_report:
  assumes "phase3_wf t" and "segments_in_file t" and "build3 t shim install prefix v = Inr b"
    and "build4 t (report3 t tmp shim b) (f_final b) shim install v = Inr x"
    and "dynamic_symbols (p3_elf t) = Inr syms" and "rep = report4 t (report3 t tmp shim b) out x"
  shows "r3_output rep = out \<and> r3_output_size rep = int (length (x_final x))
    \<and> r4_export_count rep = int (card (sym_name ` {s \<in> set syms. exported s}))
    \<and> r4_export_stream_size rep = int (length (x_stream x))
    \<and> (\<exists>eo. int16 (r4_export_offset rep) = Inr eo \<and> image_range (x_final x) eo (r4_export_stream_size rep) = x_stream x)
    \<and> r4_has_il2cpp_init rep = (\<exists>s \<in> set syms. exported s \<and> sym_name s = lit ''il2cpp_init'')
    \<and> int16 (r3_linkedit_fileoff rep) = Inr (k_fileoff (f_link b))
    \<and> r3_linkedit_size rep < int (length (x_final x)) - k_fileoff (f_link b)
    \<and> (\<exists>views3 views4. image_segments (f_final b) = Some views3 \<and> image_segments (x_final x) = Some views4
         \<and> r3_linkedit_size rep = segment_filesize (last views3)
         \<and> int (length (x_final x)) - k_fileoff (f_link b) = segment_filesize (last views4))"
proof -
  have ex: "x_exports x = fold (add_export (p3_reserve t)) syms []"
    by (rule build4_run[OF assms(1-4)]) (use assms(5) in simp)
  have keys: "fst ` set (x_exports x) = (\<lambda>s. lit ''_'' @ sym_name s) ` {s \<in> set syms. exported s}"
    unfolding ex by (simp add: exports.keys)
  have "distinct (map fst (x_exports x))" unfolding ex by (rule exports.distinct_keys) simp
  then have "length (x_exports x) = card (fst ` set (x_exports x))" using distinct_card[of "map fst (x_exports x)"] by simp
  also have "\<dots> = card ((@) (lit ''_'') ` (sym_name ` {s \<in> set syms. exported s}))" by (simp add: keys image_image)
  also have "\<dots> = card (sym_name ` {s \<in> set syms. exported s})" by (rule card_image) (simp add: inj_on_def)
  finally have n: "length (x_exports x) = card (sym_name ` {s \<in> set syms. exported s})" .
  have split: "lit ''_il2cpp_init'' = lit ''_'' @ lit ''il2cpp_init''" by (simp flip: lit_append)
  have init: "lit ''_il2cpp_init'' \<in> fst ` set (x_exports x) \<longleftrightarrow> (\<exists>s \<in> set syms. exported s \<and> sym_name s = lit ''il2cpp_init'')"
    unfolding keys split image_iff same_append_eq by (auto intro: sym)
  note f = build4_final[OF assms(1-4)]
  obtain v3 l3 where v3: "image_segments (f_final b) = Some (v3 @ [l3])"
    "linkedit_view (p3_page t) (k_vmaddr (f_link b)) (k_fileoff (f_link b)) (k_size (f_link b)) = Some l3"
    using build3_view[OF assms(1-3)] by metis
  obtain v4 l4 where v4: "image_segments (x_final x) = Some (v4 @ [l4])"
    "linkedit_view (p3_page t) (k_vmaddr (f_link b)) (k_fileoff (f_link b)) (int (length (x_final x)) - k_fileoff (f_link b)) = Some l4"
    using build4_view[OF assms(1-4)] by metis
  have sizes: "segment_filesize (last (v3 @ [l3])) = k_size (f_link b)"
    "segment_filesize (last (v4 @ [l4])) = int (length (x_final x)) - k_fileoff (f_link b)"
    using v3(2) v4(2) by (auto simp: linkedit_view_def segment_filesize_def split: sum.splits)
  have views: "\<exists>views3 views4. image_segments (f_final b) = Some views3 \<and> image_segments (x_final x) = Some views4
      \<and> k_size (f_link b) = segment_filesize (last views3)
      \<and> int (length (x_final x)) - k_fileoff (f_link b) = segment_filesize (last views4)"
    using v3(1) v4(1) sizes by metis
  show ?thesis
    unfolding assms(6) using n init f(1,3,4) views
    by (simp add: report4_def p4_report.defs p3_report.defs report3_def Let_def int16_hex)
qed

lemma phase4_report_witness:
  "r4_export_count (report4 demo_t3 (report3 demo_t3 (lit ''tmp'') (lit ''y'') demo_out3) [] demo_out4) = 1"
proof -
  have "{s \<in> set demo_syms. exported s} = {demo_symbol (lit ''inside'') 18 1 16 4}"
  proof -
    have "exported (demo_symbol (lit ''inside'') 18 1 16 4)" "\<not> exported (demo_symbol [] 0 0 0 0)"
      "\<not> exported (demo_symbol (lit ''malloc'') 18 0 0 0)" by code_simp+
    then show ?thesis by (auto simp: demo_syms_def)
  qed
  then show ?thesis
    using phase4_report[OF demo_t3_wf demo_in_file3 demo_build3 demo_build4 demo_tables(1) refl, of "[]"] by simp
qed

end
