(* ===== verification/Shim_Texts.thy ===== *)
theory Shim_Texts
  imports Py_Text
begin

section \<open>The tables and texts of \<open>shimgen.py\<close>\<close>

text \<open>
  The symbol tables, in the order of the source, and the constant texts the generator writes, line by line. A
  backslash of a text is written as a tilde, which no text contains, and a line is broken in two where it has
  a parenthesis before a star.
\<close>

subsection \<open>Symbol tables\<close>

definition DIRECT_SYMBOLS :: "pystr list" where
  "DIRECT_SYMBOLS = map lit [
    ''__cxa_atexit'', ''__cxa_finalize'', ''abort'', ''access'', ''acos'', ''acosf'', ''atan2'', ''atan2f'',
    ''atoi'', ''atol'', ''bsearch'', ''calloc'', ''close'', ''cos'', ''cosf'', ''difftime'', ''exit'',
    ''exp2f'', ''fmod'', ''fmodf'', ''free'', ''getcwd'', ''getenv'', ''gethostname'', ''getpid'',
    ''gettimeofday'', ''isalpha'', ''isspace'', ''log'', ''lseek'', ''malloc'', ''memchr'', ''memcmp'',
    ''memcpy'', ''memmove'', ''memset'', ''modf'', ''nanosleep'', ''pipe'', ''pow'', ''powf'', ''read'',
    ''readlink'', ''realloc'', ''sched_yield'', ''setenv'', ''sin'', ''sinf'', ''sqrt'', ''sqrtf'', ''strchr'',
    ''strcmp'', ''strcoll'', ''strcpy'', ''strlcpy'', ''strlen'', ''strncmp'', ''strncpy'', ''strrchr'',
    ''strtod'', ''strtof'', ''strtol'', ''strtold'', ''strtoul'', ''strxfrm'', ''tan'', ''time'', ''tolower'',
    ''towlower'', ''towupper'', ''unlink'', ''unsetenv'', ''usleep'', ''wcslen'', ''wmemchr'', ''wmemcpy'',
    ''wmemmove'', ''wmemset'', ''write'', ''btowc'', ''clock'', ''closedir'', ''dladdr'', ''dlclose'',
    ''fclose'', ''fileno'', ''fopen'', ''fputc'', ''fputs'', ''fscanf'', ''ftruncate'', ''fwrite'', ''gmtime'',
    ''inet_ntop'', ''inet_pton'', ''iswctype'', ''localtime'', ''mbrtowc'', ''mkdir'', ''mktime'',
    ''mprotect'', ''munmap'', ''opendir'', ''send'', ''setlocale'', ''shutdown'', ''sprintf'', ''strerror'',
    ''strftime'', ''sysconf'', ''vsnprintf'', ''vsprintf'', ''wcrtomb'', ''wcscoll'', ''wcsftime'',
    ''wcsxfrm'', ''wctob'', ''wctype'', ''writev'', ''poll'']"

definition SPECIAL_SYMBOLS :: "pystr list" where
  "SPECIAL_SYMBOLS = map lit [
    ''__errno'', ''__google_potentially_blocking_region_begin'', ''__google_potentially_blocking_region_end'',
    ''__system_property_get'', ''clock_getres'', ''clock_gettime'', ''gettid'', ''memalign'']"

definition POSIX_SYMBOLS :: "pystr list" where
  "POSIX_SYMBOLS = map lit [
    ''__ctype_get_mb_cur_max'', ''fstat'', ''lstat'', ''mmap'', ''open'', ''readdir'', ''sem_getvalue'',
    ''sem_init'', ''sem_post'', ''sem_wait'', ''stat'', ''uname'']"

definition ELF_SIGNAL_SYMBOLS :: "pystr list" where
  "ELF_SIGNAL_SYMBOLS = map lit [
    ''sigaction'', ''sigdelset'', ''sigfillset'', ''signal'', ''sigsuspend'', ''tgkill'']"

definition ELF_RUNTIME_SYMBOLS :: "pystr list" where
  "ELF_RUNTIME_SYMBOLS = map lit [
    ''dl_iterate_phdr'']"

definition RUNTIME_SYMBOLS :: "pystr list" where
  "RUNTIME_SYMBOLS = map lit [
    ''setjmp'', ''syscall'']"

definition NETWORK_SYMBOLS :: "pystr list" where
  "NETWORK_SYMBOLS = map lit [
    ''connect'', ''freeaddrinfo'', ''getaddrinfo'', ''getnameinfo'', ''getsockopt'', ''ioctl'', ''recvfrom'',
    ''setsockopt'', ''socket'']"

definition PTHREAD_SYMBOLS :: "pystr list" where
  "PTHREAD_SYMBOLS = map lit [
    ''pthread_attr_destroy'', ''pthread_attr_getstack'', ''pthread_attr_init'', ''pthread_cond_broadcast'',
    ''pthread_cond_destroy'', ''pthread_cond_init'', ''pthread_cond_signal'', ''pthread_cond_timedwait'',
    ''pthread_cond_wait'', ''pthread_condattr_destroy'', ''pthread_condattr_init'',
    ''pthread_condattr_setclock'', ''pthread_create'', ''pthread_detach'', ''pthread_getattr_np'',
    ''pthread_getspecific'', ''pthread_key_create'', ''pthread_key_delete'', ''pthread_mutex_destroy'',
    ''pthread_mutex_init'', ''pthread_mutex_lock'', ''pthread_mutex_unlock'', ''pthread_mutexattr_destroy'',
    ''pthread_mutexattr_init'', ''pthread_mutexattr_settype'', ''pthread_once'', ''pthread_self'',
    ''pthread_setspecific'']"

definition STDIO_SYMBOLS :: "pystr list" where
  "STDIO_SYMBOLS = map lit [
    ''fclose'', ''fileno'', ''fputc'', ''fputs'', ''fscanf'', ''fwrite'']"

definition OBJECT_SYMBOLS :: "pystr list" where
  "OBJECT_SYMBOLS = map lit [
    ''__sF'', ''_ctype_'']"

lemmas symbol_tables = DIRECT_SYMBOLS_def SPECIAL_SYMBOLS_def POSIX_SYMBOLS_def ELF_SIGNAL_SYMBOLS_def ELF_RUNTIME_SYMBOLS_def RUNTIME_SYMBOLS_def NETWORK_SYMBOLS_def PTHREAD_SYMBOLS_def STDIO_SYMBOLS_def OBJECT_SYMBOLS_def

subsection \<open>Texts\<close>

text \<open>A line with tildes for backslashes, and the lines of a text that ends with a newline.\<close>

definition raw :: "string \<Rightarrow> pystr" where
  "raw s = map (\<lambda>c. if c = CHR ''~'' then 92 else of_char c) s"

definition text_lines :: "pystr list \<Rightarrow> pystr" where
  "text_lines ls = concat (map (\<lambda>l. l @ [10]) ls)"

definition SPECIAL_C :: pystr where \<open>
  SPECIAL_C = text_lines [
    lit ''#include <errno.h>'',
    lit ''#include <pthread.h>'',
    lit ''#include <stdint.h>'',
    lit ''#include <stdio.h>'',
    lit ''#include <stdlib.h>'',
    lit ''#include <string.h>'',
    lit ''#include <time.h>'',
    lit ''#include <unistd.h>'',
    lit '''',
    lit ''#ifndef PROP_VALUE_MAX'',
    lit ''#define PROP_VALUE_MAX 92'',
    lit ''#endif'',
    lit '''',
    lit ''__attribute__((noreturn))'',
    lit ''void a2i_unimplemented(const char *symbol) {'',
    raw ''    fprintf(stderr, "[il2cppapk2ios] unimplemented Android import: %s~n",'',
    lit ''            symbol ? symbol : "<unknown>");'',
    lit ''    abort();'',
    lit ''}'',
    lit '''',
    lit ''int *a2i___errno(void) {'',
    lit ''    return __error();'',
    lit ''}'',
    lit '''',
    lit ''int a2i___system_property_get(const char *name, char *value) {'',
    lit ''    const char *answer = "";'',
    lit '''',
    lit ''    if (name == NULL || value == NULL) {'',
    lit ''        return 0;'',
    lit ''    }'',
    lit '''',
    lit ''    if (strcmp(name, "ro.product.cpu.abi") == 0) {'',
    lit ''        answer = "arm64-v8a";'',
    lit ''    } else if (strcmp(name, "ro.product.cpu.abilist") == 0) {'',
    lit ''        answer = "arm64-v8a";'',
    lit ''    } else if (strcmp(name, "ro.build.version.sdk") == 0) {'',
    lit ''        answer = "28";'',
    lit ''    }'',
    lit '''',
    lit ''    size_t len = strlen(answer);'',
    lit ''    if (len >= PROP_VALUE_MAX) {'',
    lit ''        len = PROP_VALUE_MAX - 1;'',
    lit ''    }'',
    lit ''    memcpy(value, answer, len);'',
    raw ''    value[len] = '~0';'',
    lit ''    return (int)len;'',
    lit ''}'',
    lit '''',
    lit ''static int a2i_host_clock(int android_clock) {'',
    lit ''    switch (android_clock) {'',
    lit ''        case 0:'',
    lit ''            return CLOCK_REALTIME;'',
    lit ''        case 1:'',
    lit ''            return CLOCK_MONOTONIC;'',
    lit ''#ifdef CLOCK_PROCESS_CPUTIME_ID'',
    lit ''        case 2:'',
    lit ''            return CLOCK_PROCESS_CPUTIME_ID;'',
    lit ''#endif'',
    lit ''#ifdef CLOCK_THREAD_CPUTIME_ID'',
    lit ''        case 3:'',
    lit ''            return CLOCK_THREAD_CPUTIME_ID;'',
    lit ''#endif'',
    lit ''#ifdef CLOCK_MONOTONIC_RAW'',
    lit ''        case 4:'',
    lit ''            return CLOCK_MONOTONIC_RAW;'',
    lit ''#endif'',
    lit ''        case 5:'',
    lit ''            return CLOCK_REALTIME;'',
    lit ''        case 6:'',
    lit ''            return CLOCK_MONOTONIC;'',
    lit ''#ifdef CLOCK_UPTIME_RAW'',
    lit ''        case 7:'',
    lit ''            return CLOCK_UPTIME_RAW;'',
    lit ''#endif'',
    lit ''        default:'',
    lit ''            return -1;'',
    lit ''    }'',
    lit ''}'',
    lit '''',
    lit ''int a2i_clock_gettime(int android_clock, struct timespec *value) {'',
    lit ''    int host_clock = a2i_host_clock(android_clock);'',
    lit ''    if (host_clock < 0) {'',
    lit ''        errno = EINVAL;'',
    lit ''        return -1;'',
    lit ''    }'',
    lit ''    return clock_gettime((clockid_t)host_clock, value);'',
    lit ''}'',
    lit '''',
    lit ''int a2i_clock_getres(int android_clock, struct timespec *value) {'',
    lit ''    int host_clock = a2i_host_clock(android_clock);'',
    lit ''    if (host_clock < 0) {'',
    lit ''        errno = EINVAL;'',
    lit ''        return -1;'',
    lit ''    }'',
    lit ''    return clock_getres((clockid_t)host_clock, value);'',
    lit ''}'',
    lit '''',
    lit ''int a2i_gettid(void) {'',
    lit ''    uint64_t tid = 0;'',
    lit ''    if (pthread_threadid_np(NULL, &tid) != 0) {'',
    lit ''        return (int)getpid();'',
    lit ''    }'',
    lit ''    return (int)(tid & 0x7fffffffU);'',
    lit ''}'',
    lit '''',
    lit ''void *a2i_memalign(size_t alignment, size_t size) {'',
    lit ''    void *ptr = NULL;'',
    lit ''    int rc = posix_memalign(&ptr, alignment, size);'',
    lit ''    if (rc != 0) {'',
    lit ''        errno = rc;'',
    lit ''        return NULL;'',
    lit ''    }'',
    lit ''    return ptr;'',
    lit ''}'',
    lit '''',
    lit ''void a2i___google_potentially_blocking_region_begin(void) {}'',
    lit ''void a2i___google_potentially_blocking_region_end(void) {}'']\<close>

definition OBJECTS_ASM :: pystr where \<open>
  OBJECTS_ASM = text_lines [
    lit ''// Object shims are implemented in objects_compat.c.'']\<close>

definition BUILD_SH :: pystr where \<open>
  BUILD_SH = text_lines [
    lit ''#!/bin/sh'',
    lit ''set -eu'',
    lit '''',
    lit ''ROOT="$(CDPATH= cd -- "$(dirname -- "$0")" && pwd)"'',
    lit ''OUT="$ROOT/build"'',
    lit ''mkdir -p "$OUT"'',
    lit '''',
    lit ''SDK="$(xcrun --sdk iphoneos --show-sdk-path)"'',
    lit '''',
    raw ''xcrun --sdk iphoneos clang ~'',
    raw ''  -arch arm64 ~'',
    raw ''  -isysroot "$SDK" ~'',
    raw ''  -miphoneos-version-min=12.0 ~'',
    raw ''  -dynamiclib ~'',
    raw ''  -install_name @rpath/libbionic_shim.dylib ~'',
    raw ''  "$ROOT/direct.S" ~'',
    raw ''  "$ROOT/trap.S" ~'',
    raw ''  "$ROOT/objects.S" ~'',
    raw ''  "$ROOT/objects_compat.c" ~'',
    raw ''  "$ROOT/stdio_compat.c" ~'',
    raw ''  "$ROOT/special.c" ~'',
    raw ''  "$ROOT/pthread_compat.c" ~'',
    raw ''  "$ROOT/posix_compat.c" ~'',
    raw ''  "$ROOT/elf_phdr_compat.c" ~'',
    raw ''  "$ROOT/network_compat.c" ~'',
    raw ''  "$ROOT/runtime_compat.c" ~'',
    raw ''  "$ROOT/runtime_compat.S" ~'',
    raw ''  "$ROOT/signal_compat.c" ~'',
    lit ''  -o "$OUT/libbionic_shim.dylib"'',
    lit '''',
    lit ''echo "$OUT/libbionic_shim.dylib"'']\<close>

definition README_TEMPLATE :: pystr where \<open>
  README_TEMPLATE = text_lines [
    lit ''# Generated Bionic to Darwin shim scaffold'',
    lit '''',
    lit ''Categories:'',
    lit '''',
    lit ''- direct: conservative ARM64 tail calls to the Darwin symbol with the same C name.'',
    lit ''- special: hand-written adapters in special.c.'',
    lit ''- object: Bionic _ctype_ table pointer and legacy __sF[3] storage.'',
    lit ''- stdio: maps legacy __sF slots to Darwin stdin/stdout/stderr.'',
    lit ''- pthread: Android-sized pthread objects mapped to native Darwin pthread objects.'',
    lit ''- posix: translated Android stat/open/mmap/dirent/semaphore/uname ABI.'',
    lit ''- elf-runtime: synthetic ELF program-header view for the translated image.'',
    lit ''- network: Linux/Android socket-address, option, resolver, and ioctl translation.'',
    lit ''- runtime: target-specific AArch64 setjmp spill and Linux futex syscall emulation.'',
    lit ''- signal: Android signal numbers, sigset, and sigaction translation.'',
    lit ''- trap: fail-fast stubs that print the symbol if reached.'',
    lit '''',
    lit ''Build on macOS with Xcode by running: sh build.sh'',
    lit '''',
    lit ''This is a link/runtime-probing scaffold, not a complete compatibility layer.'']\<close>

text \<open>The text of \<open>_elf_phdr_compat_source\<close> before and behind the program headers.\<close>

definition phdr_compat_head :: pystr where \<open>
  phdr_compat_head = text_lines [
    lit ''#include <dlfcn.h>'',
    lit ''#include <stddef.h>'',
    lit ''#include <stdint.h>'',
    lit ''#include <string.h>'',
    lit '''',
    lit ''typedef struct {'',
    lit ''    uint32_t p_type;'',
    lit ''    uint32_t p_flags;'',
    lit ''    uint64_t p_offset;'',
    lit ''    uint64_t p_vaddr;'',
    lit ''    uint64_t p_paddr;'',
    lit ''    uint64_t p_filesz;'',
    lit ''    uint64_t p_memsz;'',
    lit ''    uint64_t p_align;'',
    lit ''} a2i_elf64_phdr;'',
    lit '''',
    lit ''typedef struct {'',
    lit ''    uintptr_t dlpi_addr;'',
    lit ''    const char *dlpi_name;'',
    lit ''    const a2i_elf64_phdr *dlpi_phdr;'',
    lit ''    uint16_t dlpi_phnum;'',
    lit ''    uint16_t _pad0;'',
    lit ''    uint32_t _pad1;'',
    lit ''    uint64_t dlpi_adds;'',
    lit ''    uint64_t dlpi_subs;'',
    lit ''    size_t dlpi_tls_modid;'',
    lit ''    void *dlpi_tls_data;'',
    lit ''} a2i_dl_phdr_info;'',
    lit '''',
    lit ''static const a2i_elf64_phdr k_original_phdrs[] = {'']\<close>

definition phdr_compat_tail :: pystr where \<open>
  phdr_compat_tail = text_lines [
    lit ''};'',
    lit '''',
    lit ''int a2i_dl_iterate_phdr('',
    lit (''    int ('' @ ''*callback)(a2i_dl_phdr_info *, size_t, void *),''),
    lit ''    void *data'',
    lit '') {'',
    lit ''    if (callback == NULL) {'',
    lit ''        return 0;'',
    lit ''    }'',
    lit '''',
    lit ''    Dl_info image = {0};'',
    lit ''    void *caller = __builtin_return_address(0);'',
    lit ''    if (dladdr(caller, &image) == 0 || image.dli_fbase == NULL) {'',
    lit ''        return 0;'',
    lit ''    }'',
    lit '''',
    lit ''    a2i_dl_phdr_info info;'',
    lit ''    memset(&info, 0, sizeof(info));'',
    lit ''    info.dlpi_addr = (uintptr_t)image.dli_fbase + 0x10000ULL;'',
    lit ''    info.dlpi_name = image.dli_fname ? image.dli_fname : "";'',
    lit ''    info.dlpi_phdr = k_original_phdrs;'',
    lit ''    info.dlpi_phnum = (uint16_t)('',
    lit ''        sizeof(k_original_phdrs) / sizeof(k_original_phdrs[0])'',
    lit ''    );'',
    lit '''',
    lit ''    return callback(&info, sizeof(info), data);'',
    lit ''}'']\<close>

end
