(* ===== verification/Json.thy ===== *)
theory Json
  imports Py_Text
begin

section \<open>JSON\<close>

text \<open>
  What the program writes with \<open>json.dumps\<close> (the manifest of \<open>shimgen.py\<close>, the reports of \<open>cli.py\<close>), and a reader of
  JSON texts, which gets every value back from its text.
\<close>

subsection \<open>Writing\<close>

text \<open>JSON values with objects in insertion order, and \<open>json.dumps(value, indent=2, ensure_ascii=False)\<close>.\<close>

datatype json = J_Null | J_Bool bool | J_Int int | J_Str pystr | J_Arr "json list" | J_Obj "(pystr \<times> json) list"

definition json_escape :: "nat \<Rightarrow> pystr" where
  "json_escape c =
     (if c = 34 then [92, 34] else if c = 92 then [92, 92]
      else if c = 8 then [92, 98] else if c = 9 then [92, 116] else if c = 10 then [92, 110]
      else if c = 12 then [92, 102] else if c = 13 then [92, 114]
      else if c < 32 then [92, 117, 48, 48, digit_char (c div 16), digit_char (c mod 16)]
      else [c])"

definition json_string :: "pystr \<Rightarrow> pystr" where
  "json_string s = [34] @ concat (map json_escape s) @ [34]"

definition json_newline :: "nat \<Rightarrow> pystr" where
  "json_newline level = 10 # replicate (2 * level) 32"

text \<open>The items of an array or object, separated by commas, each on a line of its own.\<close>

fun json_items :: "nat \<Rightarrow> pystr list \<Rightarrow> pystr" where
  "json_items level [] = []"
| "json_items level [x] = json_newline level @ x"
| "json_items level (x # xs) = json_newline level @ x @ lit '','' @ json_items level xs"

definition json_block :: "nat \<Rightarrow> string \<Rightarrow> string \<Rightarrow> pystr list \<Rightarrow> pystr" where
  "json_block level open close items =
     (if items = [] then lit open @ lit close
      else lit open @ json_items (Suc level) items @ json_newline level @ lit close)"

fun json_dumps :: "nat \<Rightarrow> json \<Rightarrow> pystr" where
  "json_dumps level J_Null = lit ''null''"
| "json_dumps level (J_Bool b) = (if b then lit ''true'' else lit ''false'')"
| "json_dumps level (J_Int n) = py_dec n"
| "json_dumps level (J_Str s) = json_string s"
| "json_dumps level (J_Arr xs) = json_block level ''['' '']'' (map (json_dumps (Suc level)) xs)"
| "json_dumps level (J_Obj kvs) =
     json_block level ''{'' ''}'' (map (\<lambda>(k, v). json_string k @ lit '': '' @ json_dumps (Suc level) v) kvs)"

subsection \<open>Reading\<close>

text \<open>
  A reader for JSON texts without fractions and exponents. It takes a value off the front of a text; the fuel is
  used up by one with every value and every item, so the length of the text is enough.
\<close>

fun skip_space :: "pystr \<Rightarrow> pystr" where
  "skip_space [] = []"
| "skip_space (c # cs) = (if c \<in> {32, 10, 9, 13} then skip_space cs else c # cs)"

definition unescape :: "nat \<Rightarrow> nat option" where
  "unescape c = map_of [(34, 34), (92, 92), (47, 47), (98, 8), (102, 12), (110, 10), (114, 13), (116, 9)] c"

fun hex4 :: "pystr \<Rightarrow> (nat \<times> pystr) option" where
  "hex4 (a # b # c # d # rest) =
     (case map digit_value [a, b, c, d] of
        [Some a', Some b', Some c', Some d'] \<Rightarrow> Some (((a' * 16 + b') * 16 + c') * 16 + d', rest)
      | _ \<Rightarrow> None)"
| "hex4 _ = None"

lemma hex4_shorter: "hex4 s = Some (v, rest) \<Longrightarrow> length rest < length s"
  by (cases s rule: hex4.cases) (auto split: option.splits)

function read_string :: "pystr \<Rightarrow> (pystr \<times> pystr) option" where
  "read_string [] = None"
| "read_string (c # cs) =
     (if c = 34 then Some ([], cs)
      else if c = 92 then
        (case cs of
           [] \<Rightarrow> None
         | e # es \<Rightarrow>
             if e = 117 then (case hex4 es of None \<Rightarrow> None | Some (v, rest) \<Rightarrow> map_option (apfst (Cons v)) (read_string rest))
             else (case unescape e of None \<Rightarrow> None | Some v \<Rightarrow> map_option (apfst (Cons v)) (read_string es)))
      else if c < 32 then None
      else map_option (apfst (Cons c)) (read_string cs))"
  by pat_completeness auto

termination
  by (relation "measure length") (auto dest: hex4_shorter)

definition is_digit :: "nat \<Rightarrow> bool" where
  "is_digit c \<longleftrightarrow> 48 \<le> c \<and> c \<le> 57"

definition read_nat :: "pystr \<Rightarrow> (int \<times> pystr) option" where
  "read_nat s =
     (let ds = takeWhile is_digit s in
      if ds = [] then None else Some (fold (\<lambda>c n. 10 * n + int (c - 48)) ds 0, dropWhile is_digit s))"

fun json_read :: "nat \<Rightarrow> pystr \<Rightarrow> (json \<times> pystr) option"
  and read_items :: "nat \<Rightarrow> pystr \<Rightarrow> (json list \<times> pystr) option"
  and read_members :: "nat \<Rightarrow> pystr \<Rightarrow> ((pystr \<times> json) list \<times> pystr) option" where
  "json_read 0 s = None"
| "json_read (Suc n) s =
     (case skip_space s of
        [] \<Rightarrow> None
      | c # cs \<Rightarrow>
          if c = 34 then map_option (apfst J_Str) (read_string cs)
          else if c = 91 then
            (case skip_space cs of
               [] \<Rightarrow> None
             | d # ds \<Rightarrow> if d = 93 then Some (J_Arr [], ds) else map_option (apfst J_Arr) (read_items n cs))
          else if c = 123 then
            (case skip_space cs of
               [] \<Rightarrow> None
             | d # ds \<Rightarrow> if d = 125 then Some (J_Obj [], ds) else map_option (apfst J_Obj) (read_members n cs))
          else if c = 45 then map_option (apfst (\<lambda>v. J_Int (- v))) (read_nat cs)
          else if is_digit c then map_option (apfst J_Int) (read_nat (c # cs))
          else if starts_with (c # cs) (lit ''null'') then Some (J_Null, drop 4 (c # cs))
          else if starts_with (c # cs) (lit ''true'') then Some (J_Bool True, drop 4 (c # cs))
          else if starts_with (c # cs) (lit ''false'') then Some (J_Bool False, drop 5 (c # cs))
          else None)"
| "read_items 0 s = None"
| "read_items (Suc n) s =
     (case json_read n s of
        None \<Rightarrow> None
      | Some (v, rest) \<Rightarrow>
          (case skip_space rest of
             [] \<Rightarrow> None
           | c # cs \<Rightarrow> if c = 93 then Some ([v], cs)
                       else if c = 44 then map_option (apfst (Cons v)) (read_items n cs) else None))"
| "read_members 0 s = None"
| "read_members (Suc n) s =
     (case skip_space s of
        [] \<Rightarrow> None
      | q # qs \<Rightarrow>
          if q \<noteq> 34 then None
          else (case read_string qs of
                  None \<Rightarrow> None
                | Some (k, rest) \<Rightarrow>
                    (case skip_space rest of
                       [] \<Rightarrow> None
                     | c # cs \<Rightarrow>
                         if c \<noteq> 58 then None
                         else (case json_read n cs of
                                 None \<Rightarrow> None
                               | Some (v, rest') \<Rightarrow>
                                   (case skip_space rest' of
                                      [] \<Rightarrow> None
                                    | d # ds \<Rightarrow>
                                        if d = 125 then Some ([(k, v)], ds)
                                        else if d = 44 then map_option (apfst (Cons (k, v))) (read_members n ds) else None)))))"

definition json_loads :: "pystr \<Rightarrow> json option" where
  "json_loads s =
     (case json_read (Suc (length s)) s of
        None \<Rightarrow> None | Some (v, rest) \<Rightarrow> if skip_space rest = [] then Some v else None)"

subsection \<open>Every value is read back\<close>

lemma read_string_escape: "read_string (json_escape c @ t) = map_option (apfst (Cons c)) (read_string t)"
proof (cases "c \<in> {34, 92, 8, 9, 10, 12, 13}")
  case True
  then show ?thesis by (auto simp: json_escape_def unescape_def)
next
  case False
  show ?thesis
  proof (cases "c < 32")
    case True
    then have "digit_value (digit_char (c div 16)) = Some (c div 16)" "digit_value (digit_char (c mod 16)) = Some (c mod 16)"
      by (simp_all add: digit_value_char)
    moreover have "digit_value 48 = Some 0" by (simp add: digit_value_def)
    ultimately show ?thesis using True False by (simp add: json_escape_def)
  next
    case big: False
    then show ?thesis using False by (simp add: json_escape_def)
  qed
qed

lemma read_string_back: "read_string (concat (map json_escape s) @ 34 # rest) = Some (s, rest)"
  by (induction s) (simp_all add: read_string_escape del: read_string.simps(2), simp)

text \<open>A text that does not go on with a digit.\<close>

definition ends_number :: "pystr \<Rightarrow> bool" where
  "ends_number rest \<longleftrightarrow> (case rest of [] \<Rightarrow> True | c # _ \<Rightarrow> \<not> is_digit c)"

lemma is_digit_char: "d < 10 \<Longrightarrow> is_digit (digit_char d)"
  by (simp add: is_digit_def digit_char_def)

lemma read_digits:
  "\<forall>d \<in> set ds. d < 10 \<Longrightarrow> ends_number rest \<Longrightarrow>
     takeWhile is_digit (map digit_char ds @ rest) = map digit_char ds \<and> dropWhile is_digit (map digit_char ds @ rest) = rest"
  by (induction ds) (auto simp: is_digit_char ends_number_def split: list.splits)

lemma fold_digits:
  "\<forall>d \<in> set ds. d < 10 \<Longrightarrow> fold (\<lambda>c n. 10 * n + int (c - 48)) (map digit_char ds) a = fold (\<lambda>d n. 10 * n + int d) ds a"
  by (induction ds arbitrary: a) (simp_all add: digit_char_def)

lemma value_digits: "fold (\<lambda>d n. 10 * n + int d) (digits 10 m) 0 = int m"
proof (induction "10 :: nat" m rule: digits.induct)
  case (1 m)
  then show ?case by (subst digits.simps) (auto simp: zmod_int zdiv_int)
qed

lemma read_nat_back: "ends_number rest \<Longrightarrow> read_nat (map digit_char (digits 10 m) @ rest) = Some (int m, rest)"
proof -
  assume rest: "ends_number rest"
  have d: "\<forall>d \<in> set (digits 10 m). d < 10" using digits_less[of 10 _ m] by simp
  show ?thesis using read_digits[OF d rest] fold_digits[OF d, of 0] value_digits[of m] by (simp add: read_nat_def Let_def)
qed

lemma skip_space_newline [simp]: "skip_space (json_newline l @ s) = skip_space s" "skip_space (32 # s) = skip_space s"
proof -
  have "skip_space (replicate k 32 @ s) = skip_space s" for k by (induction k) simp_all
  then show "skip_space (json_newline l @ s) = skip_space s" by (simp add: json_newline_def)
qed simp

lemma json_read_skip: "skip_space s = skip_space t \<Longrightarrow> json_read n s = json_read n t"
  by (cases n) simp_all

lemma read_members_skip: "skip_space s = skip_space t \<Longrightarrow> read_members n s = read_members n t"
  by (cases n) simp_all

lemma read_items_skip: "skip_space s = skip_space t \<Longrightarrow> read_items n s = read_items n t"
  by (cases n) (simp_all add: json_read_skip[of s t])

text \<open>The fuel a value takes, at most the length of its text.\<close>

fun json_fuel :: "json \<Rightarrow> nat" where
  "json_fuel (J_Arr xs) = Suc (sum_list (map (\<lambda>x. Suc (json_fuel x)) xs))"
| "json_fuel (J_Obj kvs) = Suc (sum_list (map (\<lambda>(k, v). Suc (json_fuel v)) kvs))"
| "json_fuel _ = 1"

lemma length_json_items: "sum_list (map (\<lambda>x. Suc (length x)) items) \<le> length (json_items l items)"
  by (induction l items rule: json_items.induct) (simp_all add: json_newline_def)

lemma length_json_block: "Suc (sum_list (map (\<lambda>x. Suc (length x)) items)) \<le> length (json_block l [a] b items)"
  using length_json_items[of items "Suc l"] by (simp add: json_block_def)

lemma json_fuel_length: "json_fuel j \<le> length (json_dumps l j)"
proof (induction l j rule: json_dumps.induct)
  case (3 l n)
  have "0 < length (digits 10 (nat \<bar>n\<bar>))" by simp
  then show ?case unfolding json_dumps.simps json_fuel.simps py_dec_def by (simp add: Suc_leI)
next
  case (5 l xs)
  have "sum_list (map (\<lambda>x. Suc (json_fuel x)) xs) \<le> sum_list (map (\<lambda>x. Suc (length x)) (map (json_dumps (Suc l)) xs))"
    using 5 by (simp add: comp_def sum_list_mono)
  then show ?case using length_json_block[of "map (json_dumps (Suc l)) xs" l "CHR ''[''" "'']''"] by simp
next
  case (6 l kvs)
  let ?items = "map (\<lambda>(k, v). json_string k @ lit '': '' @ json_dumps (Suc l) v) kvs"
  have "Suc (json_fuel v) \<le> Suc (length (json_string k @ lit '': '' @ json_dumps (Suc l) v))" if "(k, v) \<in> set kvs" for k v
    using 6[OF that refl] by simp
  then have "sum_list (map (\<lambda>(k, v). Suc (json_fuel v)) kvs) \<le> sum_list (map (\<lambda>x. Suc (length x)) ?items)"
    unfolding map_map by (intro sum_list_mono) auto
  then show ?case using length_json_block[of ?items l "CHR ''{''" "''}''"] by simp
qed (simp_all add: json_string_def)

text \<open>A value in front of a text that does not continue its number, at any level of indentation.\<close>

definition reads_back :: "json \<Rightarrow> bool" where
  "reads_back j \<longleftrightarrow> (\<forall>n l rest. json_fuel j \<le> n \<longrightarrow> ends_number rest \<longrightarrow> json_read n (json_dumps l j @ rest) = Some (j, rest))"

lemma json_newline_Cons: "\<exists>s. json_newline l = 10 # s"
  by (simp add: json_newline_def)

lemma ends_number_simps [simp]:
  "ends_number []" "ends_number (json_newline l @ s)" "ends_number (lit '','' @ s)" "ends_number (44 # s)"
  by (simp_all add: ends_number_def json_newline_def is_digit_def lit_simps)

lemma read_items_back:
  assumes "xs \<noteq> []" and "\<forall>x \<in> set xs. reads_back x" and "sum_list (map (\<lambda>x. Suc (json_fuel x)) xs) \<le> n"
  shows "read_items n (json_items l (map (json_dumps l) xs) @ json_newline k @ lit '']'' @ rest) = Some (xs, rest)"
  using assms
proof (induction xs arbitrary: n)
  case (Cons x xs)
  then obtain m where n: "n = Suc m" by (cases n) auto
  let ?close = "json_newline k @ lit '']'' @ rest"
  have x: "json_read m (json_newline l @ json_dumps l x @ t) = Some (x, t)" if "ends_number t" for t
  proof -
    have "json_read m (json_dumps l x @ t) = Some (x, t)"
      using Cons.prems(2,3) that unfolding reads_back_def by (auto simp: n)
    then show ?thesis by (simp add: json_read_skip[of "json_newline l @ json_dumps l x @ t" "json_dumps l x @ t"])
  qed
  show ?case
  proof (cases xs)
    case Nil
    then show ?thesis using x[of ?close] by (simp add: n lit_simps)
  next
    case (Cons y ys)
    then have ne: "xs \<noteq> []" by simp
    have items: "json_items l (map (json_dumps l) (x # xs)) = json_newline l @ json_dumps l x @ lit '','' @ json_items l (map (json_dumps l) xs)"
      by (simp add: Cons)
    have "read_items m (json_items l (map (json_dumps l) xs) @ ?close) = Some (xs, rest)"
      using Cons.IH[OF ne, of m] Cons.prems by (simp add: n)
    then show ?thesis
      using x[of "lit '','' @ json_items l (map (json_dumps l) xs) @ ?close"] by (simp only: items append_assoc) (simp add: n lit_simps)
  qed
qed simp

lemma read_members_back:
  assumes "kvs \<noteq> []" and "\<forall>(k, v) \<in> set kvs. reads_back v" and "sum_list (map (\<lambda>(k, v). Suc (json_fuel v)) kvs) \<le> n"
  shows "read_members n (json_items l (map (\<lambda>(k, v). json_string k @ lit '': '' @ json_dumps l v) kvs) @ json_newline i @ lit ''}'' @ rest)
    = Some (kvs, rest)"
  using assms
proof (induction kvs arbitrary: n)
  case (Cons kv kvs)
  then obtain m where n: "n = Suc m" by (cases n) (auto split: prod.splits)
  obtain k v where kv: "kv = (k, v)" by (cases kv)
  let ?close = "json_newline i @ lit ''}'' @ rest" and ?f = "\<lambda>(k, v). json_string k @ lit '': '' @ json_dumps l v"
  have v: "json_read m (32 # json_dumps l v @ t) = Some (v, t)" if "ends_number t" for t
  proof -
    have "json_read m (json_dumps l v @ t) = Some (v, t)"
      using Cons.prems(2,3) that unfolding reads_back_def by (auto simp: n kv)
    then show ?thesis by (simp add: json_read_skip[of "32 # json_dumps l v @ t" "json_dumps l v @ t"])
  qed
  have key: "read_string (concat (map json_escape k) @ 34 # t) = Some (k, t)" for t by (rule read_string_back)
  show ?case
  proof (cases kvs)
    case Nil
    then show ?thesis using v[of ?close] key by (simp add: n kv lit_simps json_string_def del: json_read.simps)
  next
    case (Cons y ys)
    then have ne: "kvs \<noteq> []" by simp
    have items: "json_items l (map ?f (kv # kvs)) = json_newline l @ json_string k @ lit '': '' @ json_dumps l v @ lit '','' @ json_items l (map ?f kvs)"
      by (simp add: Cons kv)
    have "read_members m (json_items l (map ?f kvs) @ ?close) = Some (kvs, rest)"
      using Cons.IH[OF ne, of m] Cons.prems by (simp add: n kv)
    then show ?thesis
      using v[of "lit '','' @ json_items l (map ?f kvs) @ ?close"] key
      by (simp only: items append_assoc) (simp add: n kv lit_simps json_string_def del: json_read.simps)
  qed
qed simp

lemma json_dumps_first: "\<exists>c s. json_dumps l j = c # s \<and> c \<notin> {32, 10, 9, 13, 93}"
proof (cases j)
  case (J_Int i)
  obtain d ds where ds: "digits 10 (nat \<bar>i\<bar>) = d # ds" by (cases "digits 10 (nat \<bar>i\<bar>)") auto
  then have "d < 10" using digits_less[of 10 d "nat \<bar>i\<bar>"] by simp
  then show ?thesis using J_Int ds by (auto simp: py_dec_def lit_simps digit_char_def)
qed (auto simp: json_string_def json_block_def lit_simps)

lemma skip_first_item:
  assumes "items \<noteq> []" and "\<exists>c s. hd items = c # s \<and> c \<notin> {32, 10, 9, 13, 93}"
  shows "\<exists>c s. skip_space (json_items l items @ t) = c # s \<and> c = hd (hd items) \<and> c \<noteq> 93"
proof -
  obtain x xs where "items = x # xs" using assms(1) by (cases items) auto
  then show ?thesis using assms(2) by (cases xs) auto
qed

lemma json_reads_back: "reads_back j"
proof (induction j)
  case J_Null
  show ?case unfolding reads_back_def
  proof (intro allI impI)
    fix n l rest assume "json_fuel J_Null \<le> n"
    then obtain m where "n = Suc m" by (cases n) auto
    then show "json_read n (json_dumps l J_Null @ rest) = Some (J_Null, rest)"
      by (simp add: lit_simps starts_with_def is_digit_def)
  qed
next
  case (J_Bool b)
  show ?case unfolding reads_back_def
  proof (intro allI impI)
    fix n l rest assume "json_fuel (J_Bool b) \<le> n"
    then obtain m where "n = Suc m" by (cases n) auto
    then show "json_read n (json_dumps l (J_Bool b) @ rest) = Some (J_Bool b, rest)"
      by (simp add: lit_simps starts_with_def is_digit_def)
  qed
next
  case (J_Int i)
  show ?case unfolding reads_back_def
  proof (intro allI impI)
    fix n l rest assume "json_fuel (J_Int i) \<le> n" and r: "ends_number rest"
    then obtain m where n: "n = Suc m" by (cases n) auto
    have nat: "read_nat (map digit_char (digits 10 (nat \<bar>i\<bar>)) @ rest) = Some (\<bar>i\<bar>, rest)" using read_nat_back[OF r, of "nat \<bar>i\<bar>"] by simp
    obtain d ds where ds: "digits 10 (nat \<bar>i\<bar>) = d # ds" by (cases "digits 10 (nat \<bar>i\<bar>)") auto
    then have d: "d < 10" using digits_less[of 10 d "nat \<bar>i\<bar>"] by simp
    have c: "digit_char d = 48 + d" using d by (simp add: digit_char_def)
    have s: "skip_space (digit_char d # t) = digit_char d # t" for t using d by (simp add: c)
    show "json_read n (json_dumps l (J_Int i) @ rest) = Some (J_Int i, rest)"
    proof (cases "i < 0")
      case True
      then show ?thesis using nat by (simp add: n py_dec_def lit_simps)
    next
      case False
      then have "json_dumps l (J_Int i) @ rest = digit_char d # map digit_char ds @ rest" using ds by (simp add: py_dec_def)
      moreover have "json_read (Suc m) (digit_char d # t) = map_option (apfst J_Int) (read_nat (digit_char d # t))" for t
        using d is_digit_char[OF d] s[of t] by (simp add: c)
      moreover have "read_nat (digit_char d # map digit_char ds @ rest) = Some (i, rest)" using nat False ds by simp
      ultimately show ?thesis by (simp only: n option.map apfst_conv)
    qed
  qed
next
  case (J_Str s)
  show ?case unfolding reads_back_def
  proof (intro allI impI)
    fix n l rest assume "json_fuel (J_Str s) \<le> n"
    then obtain m where "n = Suc m" by (cases n) auto
    then show "json_read n (json_dumps l (J_Str s) @ rest) = Some (J_Str s, rest)"
      by (simp add: json_string_def read_string_back)
  qed
next
  case (J_Arr xs)
  show ?case unfolding reads_back_def
  proof (intro allI impI)
    fix n l rest assume f: "json_fuel (J_Arr xs) \<le> n"
    then obtain m where n: "n = Suc m" by (cases n) auto
    show "json_read n (json_dumps l (J_Arr xs) @ rest) = Some (J_Arr xs, rest)"
    proof (cases "xs = []")
      case True
      then show ?thesis by (simp add: n json_block_def lit_simps)
    next
      case False
      let ?body = "json_items (Suc l) (map (json_dumps (Suc l)) xs) @ json_newline l @ lit '']'' @ rest"
      have "reads_back x" if "x \<in> set xs" for x using J_Arr that by blast
      then have items: "read_items m ?body = Some (xs, rest)" using f False by (intro read_items_back) (simp_all add: n)
      let ?items = "map (json_dumps (Suc l)) xs"
      have "?items \<noteq> []" "hd ?items = json_dumps (Suc l) (hd xs)" using False by (simp_all add: hd_map)
      moreover obtain c s where "json_dumps (Suc l) (hd xs) = c # s" "c \<notin> {32, 10, 9, 13, 93}" using json_dumps_first by blast
      ultimately have "\<exists>c s. skip_space (json_items (Suc l) ?items @ t) = c # s \<and> c = hd (hd ?items) \<and> c \<noteq> 93" for t
        by (intro skip_first_item) auto
      then obtain c' s' where "skip_space ?body = c' # s'" "c' \<noteq> 93" by blast
      moreover have "json_dumps l (J_Arr xs) @ rest = 91 # ?body" using False by (simp add: json_block_def lit_simps)
      ultimately show ?thesis using items by (simp add: n)
    qed
  qed
next
  case (J_Obj kvs)
  show ?case unfolding reads_back_def
  proof (intro allI impI)
    fix n l rest assume f: "json_fuel (J_Obj kvs) \<le> n"
    then obtain m where n: "n = Suc m" by (cases n) auto
    show "json_read n (json_dumps l (J_Obj kvs) @ rest) = Some (J_Obj kvs, rest)"
    proof (cases "kvs = []")
      case True
      then show ?thesis by (simp add: n json_block_def lit_simps is_digit_def)
    next
      case False
      let ?items = "map (\<lambda>(k, v). json_string k @ lit '': '' @ json_dumps (Suc l) v) kvs"
      let ?body = "json_items (Suc l) ?items @ json_newline l @ lit ''}'' @ rest"
      have "reads_back v" if "(k, v) \<in> set kvs" for k v using J_Obj[OF that] by simp
      then have items: "read_members m ?body = Some (kvs, rest)" using f False by (intro read_members_back) (auto simp: n)
      obtain k v kvs' where "kvs = (k, v) # kvs'" using False by (cases kvs) auto
      then have "hd ?items = 34 # concat (map json_escape k) @ [34] @ lit '': '' @ json_dumps (Suc l) v" by (simp add: json_string_def)
      then obtain s where "skip_space ?body = 34 # s" using skip_first_item[of ?items "Suc l"] False by auto
      moreover have "json_dumps l (J_Obj kvs) @ rest = 123 # ?body" using False by (simp add: json_block_def lit_simps)
      ultimately show ?thesis using items by (simp add: n)
    qed
  qed
qed

lemma json_loads_dumps: "skip_space tail = [] \<Longrightarrow> ends_number tail \<Longrightarrow> json_loads (json_dumps 0 j @ tail) = Some j"
proof -
  assume tail: "skip_space tail = []" "ends_number tail"
  have "json_fuel j \<le> Suc (length (json_dumps 0 j @ tail))" using json_fuel_length[of j 0] by simp
  then have "json_read (Suc (length (json_dumps 0 j @ tail))) (json_dumps 0 j @ tail) = Some (j, tail)"
    using json_reads_back[of j] tail(2) unfolding reads_back_def by blast
  then show ?thesis using tail(1) by (simp only: json_loads_def option.case prod.case if_True simp_thms)
qed

end
