(* ===== verification/Shimgen.thy ===== *)
theory Shimgen
  imports Shim_Texts Json Elf_Tables Files "HOL-Library.AList"
begin

section \<open>The shim generator (\<open>shimgen.py\<close>)\<close>

text \<open>
  \<open>generate_shim_scaffold\<close>: the imports of an ELF file, the category of each, the assembly and C sources of
  the scaffold, and the manifest as JSON. The templates the package ships are read from a directory
  \<open>templates\<close> of the file system; directories themselves are not modelled.
\<close>

subsection \<open>Categories\<close>

datatype category =
    Cat_Object | Cat_Stdio | Cat_Special | Cat_Pthread | Cat_Posix | Cat_Elf_Runtime | Cat_Network
  | Cat_Runtime | Cat_Signal | Cat_Direct | Cat_Trap

fun category_name :: "category \<Rightarrow> pystr" where
  "category_name Cat_Object = lit ''object''"
| "category_name Cat_Stdio = lit ''stdio''"
| "category_name Cat_Special = lit ''special''"
| "category_name Cat_Pthread = lit ''pthread''"
| "category_name Cat_Posix = lit ''posix''"
| "category_name Cat_Elf_Runtime = lit ''elf-runtime''"
| "category_name Cat_Network = lit ''network''"
| "category_name Cat_Runtime = lit ''runtime''"
| "category_name Cat_Signal = lit ''signal''"
| "category_name Cat_Direct = lit ''direct''"
| "category_name Cat_Trap = lit ''trap''"

lemma category_name_inj [simp]: "category_name a = category_name b \<longleftrightarrow> a = b"
  by (cases a; cases b) simp_all

text \<open>In Python a category is its name, so categories are ordered by name.\<close>

instantiation category :: linorder
begin

definition less_eq_category :: "category \<Rightarrow> category \<Rightarrow> bool" where
  "a \<le> b \<longleftrightarrow> category_name a \<le> category_name b"

definition less_category :: "category \<Rightarrow> category \<Rightarrow> bool" where
  "a < b \<longleftrightarrow> category_name a < category_name b"

instance
  by standard (auto simp: less_eq_category_def less_category_def order_less_le)

end

text \<open>The classification of an import, in the order of the tests.\<close>

definition category_of :: "pystr \<Rightarrow> pystr \<Rightarrow> category" where
  "category_of name elf_type =
     (if name \<in> set OBJECT_SYMBOLS \<or> elf_type = lit ''object'' then Cat_Object
      else if name \<in> set STDIO_SYMBOLS then Cat_Stdio
      else if name \<in> set SPECIAL_SYMBOLS then Cat_Special
      else if name \<in> set PTHREAD_SYMBOLS then Cat_Pthread
      else if name \<in> set POSIX_SYMBOLS then Cat_Posix
      else if name \<in> set ELF_RUNTIME_SYMBOLS then Cat_Elf_Runtime
      else if name \<in> set NETWORK_SYMBOLS then Cat_Network
      else if name \<in> set RUNTIME_SYMBOLS then Cat_Runtime
      else if name \<in> set ELF_SIGNAL_SYMBOLS then Cat_Signal
      else if name \<in> set DIRECT_SYMBOLS \<and> elf_type \<in> {lit ''func'', lit ''notype''} then Cat_Direct
      else Cat_Trap)"

subsection \<open>The imports\<close>

text \<open>\<open>TYPE_NAMES.get(info & 0x0F, f"type_{info & 0x0F}")\<close>\<close>

definition elf_type_name :: "int \<Rightarrow> pystr" where
  "elf_type_name info =
     (let ty = info AND 0x0F in
      if ty = 0 then lit ''notype'' else if ty = 1 then lit ''object'' else if ty = 2 then lit ''func''
      else lit ''type_'' @ py_dec ty)"

definition shim_import_sym :: "elf_symbol \<Rightarrow> bool" where
  "shim_import_sym symbol \<longleftrightarrow> \<not> (st_shndx symbol \<noteq> SHN_UNDEF \<or> sym_name symbol = [])"

definition add_shim_import :: "elf_symbol \<Rightarrow> (pystr \<times> pystr) list \<Rightarrow> (pystr \<times> pystr) list" where
  "add_shim_import symbol imports =
     (if shim_import_sym symbol then AList.update (sym_name symbol) (elf_type_name (st_info symbol)) imports else imports)"

definition shim_import_table :: "elf_symbol list \<Rightarrow> (pystr \<times> pystr) list" where
  "shim_import_table syms = fold add_shim_import syms []"

record shim_record =
  im_name :: pystr
  im_shim_symbol :: pystr
  im_elf_type :: pystr
  im_category :: category

definition shim_record_of :: "pystr \<times> pystr \<Rightarrow> shim_record" where
  "shim_record_of e =
     (case e of (name, elf_type) \<Rightarrow>
        \<lparr>im_name = name, im_shim_symbol = lit ''_a2i_'' @ name, im_elf_type = elf_type,
         im_category = category_of name elf_type\<rparr>)"

definition shim_records :: "(pystr \<times> pystr) list \<Rightarrow> shim_record list" where
  "shim_records imports = map shim_record_of (sort_key fst imports)"

definition direct_names :: "shim_record list \<Rightarrow> pystr list" where
  "direct_names records = map im_name (filter (\<lambda>x. im_category x = Cat_Direct) records)"

definition trap_names :: "shim_record list \<Rightarrow> pystr list" where
  "trap_names records =
     map im_name (filter (\<lambda>x. im_category x = Cat_Trap \<and> im_elf_type x \<noteq> lit ''object'') records)"

subsection \<open>Assembly\<close>

text \<open>The lines joined by newlines.\<close>

fun join_lines :: "pystr list \<Rightarrow> pystr" where
  "join_lines [] = []"
| "join_lines [l] = l"
| "join_lines (l # ls) = l @ 10 # join_lines ls"

definition asm_name :: "pystr \<Rightarrow> pystr" where
  "asm_name c_symbol = lit ''_'' @ c_symbol"

definition shim_c_name :: "pystr \<Rightarrow> pystr" where
  "shim_c_name original = lit ''a2i_'' @ original"

definition direct_entry :: "pystr \<Rightarrow> pystr list" where
  "direct_entry name =
     (let shim = asm_name (shim_c_name name); host = asm_name name
      in [lit ''.globl '' @ shim, shim @ lit '':'', lit ''    b '' @ host, []])"

definition direct_assembly :: "pystr list \<Rightarrow> pystr" where
  "direct_assembly symbols = join_lines
     ([lit ''.text'', lit ''.p2align 2'', [], lit ''// ABI-compatible first-pass tail calls.'', []]
      @ concat (map direct_entry (sort symbols)))"

definition trap_label :: "nat \<Rightarrow> pystr" where
  "trap_label index = lit ''L_a2i_name_'' @ py_dec (int index)"

definition trap_entry :: "nat \<times> pystr \<Rightarrow> pystr list" where
  "trap_entry e =
     (case e of (index, name) \<Rightarrow>
        let shim = asm_name (shim_c_name name); label = trap_label index
        in [lit ''.globl '' @ shim, shim @ lit '':'', lit ''    adrp x0, '' @ label @ lit ''@PAGE'',
            lit ''    add x0, x0, '' @ label @ lit ''@PAGEOFF'', lit ''    b _a2i_unimplemented'', []])"

text \<open>The \<open>replace\<close> calls: every backslash doubled, then a backslash before every double quote.\<close>

definition replace_char :: "nat \<Rightarrow> pystr \<Rightarrow> pystr \<Rightarrow> pystr" where
  "replace_char c new s = concat (map (\<lambda>x. if x = c then new else [x]) s)"

definition escape_name :: "pystr \<Rightarrow> pystr" where
  "escape_name name = replace_char 34 [92, 34] (replace_char 92 [92, 92] name)"

definition trap_string :: "nat \<times> pystr \<Rightarrow> pystr list" where
  "trap_string e =
     (case e of (index, name) \<Rightarrow>
        [trap_label index @ lit '':'', lit ''    .asciz '' @ [34] @ escape_name name @ [34], []])"

definition trap_assembly :: "pystr list \<Rightarrow> pystr" where
  "trap_assembly symbols =
     (let entries = enumerate 0 (sort symbols);
          lines = [lit ''.text'', lit ''.p2align 2'', [],
                   lit ''// Unsupported imports fail fast and print their symbol name.'', []]
                  @ concat (map trap_entry entries);
          string_lines = [lit ''.section __TEXT,__cstring,cstring_literals'', []]
                  @ concat (map trap_string entries)
      in join_lines (lines @ string_lines))"

subsection \<open>The program headers for \<open>dl_iterate_phdr\<close>\<close>

text \<open>\<open>f"{n:x}"\<close>\<close>

definition py_x :: "int \<Rightarrow> pystr" where
  "py_x n = (if n < 0 then lit ''-'' else []) @ map digit_char (digits 16 (nat \<bar>n\<bar>))"

definition phdr_entry :: "program_header \<Rightarrow> pystr" where
  "phdr_entry ph =
     lit ''    {'' @ py_dec (p_type ph) @ lit ''u, '' @ py_dec (p_flags ph) @ lit ''u, ''
     @ lit ''0x'' @ py_x (p_offset ph) @ lit ''ULL, 0x'' @ py_x (p_vaddr ph) @ lit ''ULL, 0x'' @ py_x (p_vaddr ph)
     @ lit ''ULL, '' @ lit ''0x'' @ py_x (p_filesz ph) @ lit ''ULL, 0x'' @ py_x (p_memsz ph)
     @ lit ''ULL, 0x'' @ py_x (p_align ph) @ lit ''ULL'' @ lit ''},''"

definition elf_phdr_compat_source :: "elf64 \<Rightarrow> pystr" where
  "elf_phdr_compat_source e =
     phdr_compat_head @ join_lines (map phdr_entry (program_headers e)) @ [10] @ phdr_compat_tail"

subsection \<open>The manifest\<close>

record shim_manifest =
  m_source :: pystr
  m_total_imports :: int
  m_counts :: "(category \<times> int) list"
  m_imports :: "shim_record list"

definition shim_manifest_of :: "pystr \<Rightarrow> shim_record list \<Rightarrow> shim_manifest" where
  "shim_manifest_of source records =
     \<lparr>m_source = source, m_total_imports = int (length records),
      m_counts = sort_key fst (count_all (map im_category records)), m_imports = records\<rparr>"

definition manifest_warning :: pystr where
  "manifest_warning =
     lit ''direct means suitable for the first ABI probe, not guaranteed ''
     @ lit ''semantic compatibility. object and trap entries remain blockers ''
     @ lit ''if execution reaches them.''"

definition record_json :: "shim_record \<Rightarrow> json" where
  "record_json r =
     J_Obj [(lit ''name'', J_Str (im_name r)), (lit ''shim_symbol'', J_Str (im_shim_symbol r)),
            (lit ''elf_type'', J_Str (im_elf_type r)), (lit ''category'', J_Str (category_name (im_category r)))]"

definition manifest_json :: "shim_manifest \<Rightarrow> json" where
  "manifest_json mf =
     J_Obj [(lit ''source'', J_Str (m_source mf)), (lit ''total_imports'', J_Int (m_total_imports mf)),
            (lit ''counts'', J_Obj (map (\<lambda>(c, n). (category_name c, J_Int n)) (m_counts mf))),
            (lit ''imports'', J_Arr (map record_json (m_imports mf))),
            (lit ''warning'', J_Str manifest_warning)]"

subsection \<open>The scaffold\<close>

text \<open>
  \<open>read_text\<close> and \<open>write_text\<close> with \<open>encoding="utf-8"\<close>: decoding is strict (it succeeds exactly when the
  bytes are the encoding of a string) and turns every line ending into a newline; a string that cannot be
  encoded leaves the file empty.
\<close>

fun universal_newlines :: "pystr \<Rightarrow> pystr" where
  "universal_newlines [] = []"
| "universal_newlines (c # cs) =
     (if c = 13 then 10 # (case cs of [] \<Rightarrow> [] | d # ds \<Rightarrow> if d = 10 then universal_newlines ds else universal_newlines cs)
      else c # universal_newlines cs)"

definition decode_utf8 :: "bytes \<Rightarrow> pystr result" where
  "decode_utf8 b =
     (let s = decode_utf8_replace b in if encode_utf8 s = Inr b then Inr s else Inl UnicodeDecodeError)"

definition read_text :: "fs \<Rightarrow> pystr \<Rightarrow> pystr result" where
  "read_text fs path = rbind (read_bytes fs path) (\<lambda>b. rmap universal_newlines (decode_utf8 b))"

definition write_text :: "fs \<Rightarrow> pystr \<Rightarrow> pystr \<Rightarrow> fs \<times> unit result" where
  "write_text fs path s =
     (case encode_utf8 s of Inl e \<Rightarrow> (write_bytes fs path [], Inl e) | Inr b \<Rightarrow> (write_bytes fs path b, Inr ()))"

text \<open>A file of the scaffold is a text, or a template that is read just before it is written.\<close>

datatype scaffold_source = Generated pystr | Template

definition source_text :: "pystr \<Rightarrow> fs \<Rightarrow> pystr \<Rightarrow> scaffold_source \<Rightarrow> pystr result" where
  "source_text templates fs name src =
     (case src of Generated s \<Rightarrow> Inr s | Template \<Rightarrow> read_text fs (in_dir templates name))"

fun write_scaffold :: "pystr \<Rightarrow> pystr \<Rightarrow> fs \<Rightarrow> (pystr \<times> scaffold_source) list \<Rightarrow> fs \<times> unit result" where
  "write_scaffold templates out fs [] = (fs, Inr ())"
| "write_scaffold templates out fs ((name, src) # rest) =
     (case source_text templates fs name src of
        Inl e \<Rightarrow> (fs, Inl e)
      | Inr s \<Rightarrow>
          (case write_text fs (in_dir out name) s of
             (fs', Inl e) \<Rightarrow> (fs', Inl e)
           | (fs', Inr _) \<Rightarrow> write_scaffold templates out fs' rest))"

definition scaffold_files :: "elf64 \<Rightarrow> pystr \<Rightarrow> shim_record list \<Rightarrow> (pystr \<times> scaffold_source) list" where
  "scaffold_files e source records =
     [(lit ''direct.S'', Generated (direct_assembly (direct_names records))),
      (lit ''trap.S'', Generated (trap_assembly (trap_names records))),
      (lit ''objects.S'', Generated OBJECTS_ASM),
      (lit ''objects_compat.c'', Template),
      (lit ''stdio_compat.c'', Template),
      (lit ''special.c'', Generated SPECIAL_C),
      (lit ''pthread_compat.c'', Template),
      (lit ''posix_compat.c'', Template),
      (lit ''elf_phdr_compat.c'', Generated (elf_phdr_compat_source e)),
      (lit ''network_compat.c'', Template),
      (lit ''runtime_compat.c'', Template),
      (lit ''runtime_compat.S'', Template),
      (lit ''signal_compat.c'', Template),
      (lit ''build.sh'', Generated BUILD_SH),
      (lit ''README.md'', Generated README_TEMPLATE),
      (lit ''manifest.json'',
         Generated (json_dumps 0 (manifest_json (shim_manifest_of source records)) @ [10]))]"

definition generate_shim_scaffold :: "pystr \<Rightarrow> fs \<Rightarrow> pystr \<Rightarrow> pystr \<Rightarrow> fs \<times> shim_manifest result" where
  "generate_shim_scaffold templates fs input_elf output_dir =
     (case rbind (read_bytes fs input_elf) (\<lambda>d. rbind (parse_elf d input_elf) (\<lambda>e.
             rmap (\<lambda>syms. (e, shim_records (shim_import_table syms))) (dynamic_symbols e))) of
        Inl x \<Rightarrow> (fs, Inl x)
      | Inr (e, records) \<Rightarrow>
          (case write_scaffold templates output_dir fs (scaffold_files e input_elf records) of
             (fs', Inl x) \<Rightarrow> (fs', Inl x)
           | (fs', Inr _) \<Rightarrow> (fs', Inr (shim_manifest_of input_elf records))))"

end
