(* ===== verification/Shim_Correct.thy ===== *)
theory Shim_Correct
  imports Shimgen Dict
begin

section \<open>What the shim generator writes\<close>

text \<open>
  The table of imports against the symbol table; a reader for the assembly, which finds the labels of a text
  with the instructions behind each, and the reader of an \<open>.asciz\<close> literal; the files of the scaffold.
\<close>

subsection \<open>The imports\<close>

interpretation shimports: dict_fill shim_import_sym sym_name "\<lambda>s. elf_type_name (st_info s)" add_shim_import
  by unfold_locales (simp add: add_shim_import_def)

lemma shim_records_names:
  "sorted (map im_name (shim_records (shim_import_table syms))) \<and> distinct (map im_name (shim_records (shim_import_table syms)))
   \<and> set (map im_name (shim_records (shim_import_table syms))) = sym_name ` {s \<in> set syms. shim_import_sym s}"
proof -
  let ?t = "shim_import_table syms"
  have nm: "map im_name (shim_records ?t) = map fst (sort_key fst ?t)"
    by (auto simp: shim_records_def shim_record_of_def split: prod.split)
  have "mset (map fst (sort_key fst ?t)) = mset (map fst ?t)" by simp
  moreover have "distinct (map fst ?t)" unfolding shim_import_table_def by (rule shimports.distinct_keys) simp
  ultimately have "distinct (map fst (sort_key fst ?t))" using mset_eq_imp_distinct_iff by blast
  moreover have "set (map fst (sort_key fst ?t)) = fst ` set ?t" by simp
  ultimately show ?thesis unfolding nm by (simp add: shim_import_table_def shimports.keys)
qed

lemma shim_record_fields:
  assumes "r \<in> set (shim_records (shim_import_table syms))"
  shows "im_shim_symbol r = lit ''_a2i_'' @ im_name r" and "im_category r = category_of (im_name r) (im_elf_type r)"
    and "\<exists>s. find (\<lambda>s. shim_import_sym s \<and> sym_name s = im_name r) (rev syms) = Some s \<and> im_elf_type r = elf_type_name (st_info s)"
proof -
  let ?t = "shim_import_table syms"
  obtain nm ty where e: "(nm, ty) \<in> set ?t" and r: "r = shim_record_of (nm, ty)"
    using assms by (auto simp: shim_records_def)
  show "im_shim_symbol r = lit ''_a2i_'' @ im_name r" "im_category r = category_of (im_name r) (im_elf_type r)"
    by (simp_all add: r shim_record_of_def)
  have "distinct (map fst ?t)" unfolding shim_import_table_def by (rule shimports.distinct_keys) simp
  then have "map_of ?t nm = Some ty" using e by simp
  then show "\<exists>s. find (\<lambda>s. shim_import_sym s \<and> sym_name s = im_name r) (rev syms) = Some s \<and> im_elf_type r = elf_type_name (st_info s)"
    by (auto simp: r shim_record_of_def shim_import_table_def shimports.last_item split: option.splits)
qed

subsection \<open>Reading the assembly\<close>

text \<open>
  A text as its lines; a label line begins with no blank, dot or slash and ends with a colon, and the indented
  lines behind it are its instructions or data.
\<close>

fun lines_of :: "pystr \<Rightarrow> pystr list" where
  "lines_of [] = [[]]"
| "lines_of (c # cs) =
     (if c = 10 then [] # lines_of cs else case lines_of cs of [] \<Rightarrow> [[c]] | l # ls \<Rightarrow> (c # l) # ls)"

definition label_line :: "pystr \<Rightarrow> bool" where
  "label_line l \<longleftrightarrow> l \<noteq> [] \<and> hd l \<notin> {32, 46, 47} \<and> last l = 58"

definition code_line :: "pystr \<Rightarrow> bool" where
  "code_line l \<longleftrightarrow> l \<noteq> [] \<and> hd l = 32"

fun asm_blocks :: "pystr list \<Rightarrow> (pystr \<times> pystr list) list" where
  "asm_blocks [] = []"
| "asm_blocks (l # ls) =
     (if label_line l then (butlast l, takeWhile code_line ls) # asm_blocks ls else asm_blocks ls)"

text \<open>The string of an \<open>.asciz\<close> literal, from behind the opening quote.\<close>

fun asciz_body :: "pystr \<Rightarrow> pystr option" where
  "asciz_body [] = None"
| "asciz_body (c # cs) =
     (if c = 34 then (if cs = [] then Some [] else None)
      else if c = 92 then
        (case cs of [] \<Rightarrow> None | d # ds \<Rightarrow> if d = 34 \<or> d = 92 then map_option (Cons d) (asciz_body ds) else None)
      else map_option (Cons c) (asciz_body cs))"

definition read_asciz :: "pystr \<Rightarrow> pystr option" where
  "read_asciz l =
     (if starts_with l (lit ''    .asciz '' @ [34]) then asciz_body (drop 12 l) else None)"

lemma lines_of_nonempty [simp]: "lines_of s \<noteq> []"
  by (induction s) (auto split: list.split)

lemma lines_of_line: "10 \<notin> set l \<Longrightarrow> lines_of l = [l]"
  by (induction l) auto

lemma lines_of_append: "10 \<notin> set l \<Longrightarrow> lines_of (l @ 10 # s) = l # lines_of s"
  by (induction l) auto

lemma lines_of_join: "ls \<noteq> [] \<Longrightarrow> \<forall>l \<in> set ls. 10 \<notin> set l \<Longrightarrow> lines_of (join_lines ls) = ls"
  by (induction ls rule: join_lines.induct) (simp_all add: lines_of_line lines_of_append)

lemma newline_in_lit [simp]: "10 \<in> set (lit s) \<longleftrightarrow> CHR 0x0A \<in> set s"
proof -
  have ten: "(of_char (CHR 0x0A) :: nat) = 10" by simp
  have "set (lit s) = (of_char :: char \<Rightarrow> nat) ` set s" by (simp add: lit_def)
  then show ?thesis using inj_image_mem_iff[OF inj_of_char[where 'a = nat], of "CHR 0x0A" "set s"] unfolding ten by simp
qed

lemma newline_in_digits: "10 \<notin> set (py_dec n)"
proof -
  have "digit_char d \<noteq> 10" for d by (simp add: digit_char_def)
  then have "10 \<notin> set (map digit_char (digits 10 (nat \<bar>n\<bar>)))" by (metis (no_types) ex_map_conv)
  then show ?thesis by (simp add: py_dec_def)
qed

lemmas entry_defs = asm_name_def shim_c_name_def trap_label_def label_line_def code_line_def lit_simps

lemma direct_blocks:
  "asm_blocks (concat (map direct_entry ns) @ rest)
     = map (\<lambda>n. (lit ''_a2i_'' @ n, [lit ''    b _'' @ n])) ns @ asm_blocks rest"
  by (induction ns) (simp_all add: direct_entry_def entry_defs butlast_append)

text \<open>The code of a trap stub: the address of its name string, and the jump to the reporting function.\<close>

definition trap_code :: "nat \<Rightarrow> pystr list" where
  "trap_code i =
     [lit ''    adrp x0, '' @ trap_label i @ lit ''@PAGE'', lit ''    add x0, x0, '' @ trap_label i @ lit ''@PAGEOFF'',
      lit ''    b _a2i_unimplemented'']"

definition asciz_line :: "pystr \<Rightarrow> pystr" where
  "asciz_line n = lit ''    .asciz '' @ [34] @ escape_name n @ [34]"

lemma trap_code_blocks:
  "asm_blocks (concat (map trap_entry es) @ rest)
     = map (\<lambda>(i, n). (lit ''_a2i_'' @ n, trap_code i)) es @ asm_blocks rest"
  by (induction es) (auto simp: trap_entry_def trap_code_def entry_defs butlast_append)

lemma trap_string_blocks:
  "asm_blocks (concat (map trap_string es) @ rest)
     = map (\<lambda>(i, n). (trap_label i, [asciz_line n])) es @ asm_blocks rest"
  by (induction es) (auto simp: trap_string_def asciz_line_def entry_defs butlast_append)

lemma replace_char_simps [simp]:
  "replace_char c new [] = []"
  "replace_char c new (x # xs) = (if x = c then new else [x]) @ replace_char c new xs"
  "replace_char c new (xs @ ys) = replace_char c new xs @ replace_char c new ys"
  by (simp_all add: replace_char_def)

lemma asciz_body_escape: "asciz_body (escape_name n @ [34]) = Some n"
  unfolding escape_name_def by (induction n) simp_all

lemma read_asciz_line: "read_asciz (asciz_line n) = Some n"
  by (simp add: read_asciz_def asciz_line_def starts_with_append asciz_body_escape)

lemma newline_in_escape: "10 \<in> set (escape_name n) \<longleftrightarrow> 10 \<in> set n"
  unfolding escape_name_def by (induction n) auto

text \<open>What the two generated assembly files define.\<close>

lemma direct_assembly_blocks:
  assumes "\<forall>n \<in> set ns. 10 \<notin> set n"
  shows "asm_blocks (lines_of (direct_assembly ns)) = map (\<lambda>n. (lit ''_a2i_'' @ n, [lit ''    b _'' @ n])) (sort ns)"
proof -
  have "\<forall>l \<in> set (concat (map direct_entry (sort ns))). 10 \<notin> set l"
    using assms by (auto simp: direct_entry_def asm_name_def shim_c_name_def)
  then have "lines_of (direct_assembly ns) = [lit ''.text'', lit ''.p2align 2'', [],
      lit ''// ABI-compatible first-pass tail calls.'', []] @ concat (map direct_entry (sort ns))"
    unfolding direct_assembly_def by (intro lines_of_join) auto
  then show ?thesis using direct_blocks[of "sort ns" "[]"] by (simp add: label_line_def lit_simps)
qed

lemma trap_assembly_blocks:
  assumes "\<forall>n \<in> set ns. 10 \<notin> set n"
  shows "asm_blocks (lines_of (trap_assembly ns))
    = map (\<lambda>(i, n). (lit ''_a2i_'' @ n, trap_code i)) (enumerate 0 (sort ns))
      @ map (\<lambda>(i, n). (trap_label i, [asciz_line n])) (enumerate 0 (sort ns))"
proof -
  let ?es = "enumerate 0 (sort ns)"
  have ns: "10 \<notin> set n" if "(i, n) \<in> set ?es" for i n
    using that assms by (auto simp: enumerate_eq_zip dest: set_zip_rightD)
  have "\<forall>l \<in> set (concat (map trap_entry ?es)). 10 \<notin> set l"
    using ns newline_in_digits by (auto simp: trap_entry_def asm_name_def shim_c_name_def trap_label_def Let_def)
  moreover have "\<forall>l \<in> set (concat (map trap_string ?es)). 10 \<notin> set l"
    using ns newline_in_digits by (auto simp: trap_string_def trap_label_def newline_in_escape)
  ultimately have "lines_of (trap_assembly ns) = ([lit ''.text'', lit ''.p2align 2'', [],
      lit ''// Unsupported imports fail fast and print their symbol name.'', []] @ concat (map trap_entry ?es))
      @ [lit ''.section __TEXT,__cstring,cstring_literals'', []] @ concat (map trap_string ?es)"
    unfolding trap_assembly_def Let_def by (intro lines_of_join) auto
  then show ?thesis
    using trap_code_blocks[of ?es] trap_string_blocks[of ?es "[]"] by (simp add: label_line_def lit_simps)
qed

lemma digits_fold: "1 < base \<Longrightarrow> foldl (\<lambda>v d. base * v + d) 0 (digits base n) = n"
proof (induction base n rule: digits.induct)
  case (1 base n)
  show ?case
  proof (cases "n < base")
    case True
    then show ?thesis by (subst digits.simps) simp
  next
    case False
    then have "foldl (\<lambda>v d. base * v + d) 0 (digits base (n div base)) = n div base" using 1 by simp
    then show ?thesis using False "1.prems" by (subst digits.simps) simp
  qed
qed

lemma digit_char_inj: "inj digit_char"
  by (auto simp: inj_def digit_char_def split: if_splits)

lemma py_dec_inj: "py_dec (int i) = py_dec (int j) \<Longrightarrow> i = j"
proof -
  assume "py_dec (int i) = py_dec (int j)"
  then have "map digit_char (digits 10 i) = map digit_char (digits 10 j)" by (simp add: py_dec_def)
  then have "digits 10 i = digits 10 j" by (rule map_injective[OF _ digit_char_inj])
  then have "foldl (\<lambda>v d. 10 * v + d) 0 (digits 10 i) = foldl (\<lambda>v d. 10 * v + d) 0 (digits 10 j)" by (rule arg_cong)
  then show "i = j" by (simp only: digits_fold one_less_numeral_iff semiring_norm)
qed

subsection \<open>Every text can be encoded\<close>

abbreviation scalars :: "pystr \<Rightarrow> bool" where
  "scalars s \<equiv> list_all is_scalar s"

named_theorems scalar_texts \<open>texts without surrogates\<close>

lemma is_scalar_small: "c < 0xD800 \<Longrightarrow> is_scalar c"
  by (simp add: is_scalar_def is_surrogate_def)

lemma is_scalar_char [simp]: "is_scalar (of_char c)"
  by (rule is_scalar_small) (rule order_less_trans[OF nat_of_char_less_256], simp)

lemma scalars_lit [scalar_texts, simp]: "scalars (lit s)"
  by (simp add: lit_def list_all_iff)

lemma scalars_raw [scalar_texts]: "scalars (raw s)"
  by (auto simp: raw_def list_all_iff is_scalar_small)

lemma scalars_concat [scalar_texts]: "(\<And>x. x \<in> set xs \<Longrightarrow> scalars x) \<Longrightarrow> scalars (concat xs)"
  by (auto simp: list_all_iff)

lemma scalars_text_lines [scalar_texts]: "list_all scalars ls \<Longrightarrow> scalars (text_lines ls)"
  by (auto simp: text_lines_def list_all_iff is_scalar_small)

lemma scalars_join_lines [scalar_texts]: "list_all scalars ls \<Longrightarrow> scalars (join_lines ls)"
  by (induction ls rule: join_lines.induct) (simp_all add: is_scalar_small)

lemma scalars_numerals [scalar_texts, simp]: "scalars (py_dec n)" "scalars (py_x n)"
proof -
  have "d < 16 \<Longrightarrow> is_scalar (digit_char d)" for d by (simp add: digit_char_def is_scalar_small)
  then show "scalars (py_dec n)" "scalars (py_x n)"
    using digits_less[of 10 _ "nat \<bar>n\<bar>"] digits_less[of 16 _ "nat \<bar>n\<bar>"]
    by (fastforce simp: py_dec_def py_x_def list_all_iff scalars_lit[unfolded list_all_iff])+
qed

lemma scalars_escape [scalar_texts, simp]: "scalars n \<Longrightarrow> scalars (escape_name n)"
  unfolding escape_name_def by (induction n) (simp_all add: is_scalar_small)

lemma scalars_constants [scalar_texts]:
  "scalars SPECIAL_C" "scalars OBJECTS_ASM" "scalars BUILD_SH" "scalars README_TEMPLATE"
  "scalars phdr_compat_head" "scalars phdr_compat_tail"
  unfolding SPECIAL_C_def OBJECTS_ASM_def BUILD_SH_def README_TEMPLATE_def phdr_compat_head_def phdr_compat_tail_def
  by (rule scalars_text_lines, simp add: scalars_raw)+

lemma scalars_direct [scalar_texts]: "list_all scalars ns \<Longrightarrow> scalars (direct_assembly ns)"
  unfolding direct_assembly_def
  by (rule scalars_join_lines) (auto simp: list_all_iff direct_entry_def asm_name_def shim_c_name_def Let_def
      scalars_lit[unfolded list_all_iff])

lemma scalars_trap [scalar_texts]:
  assumes "list_all scalars ns"
  shows "scalars (trap_assembly ns)"
proof -
  have ns: "scalars n" if "(i, n) \<in> set (enumerate 0 (sort ns))" for i n
    using that assms by (auto simp: enumerate_eq_zip list_all_iff dest: set_zip_rightD)
  have "list_all scalars (concat (map trap_entry (enumerate 0 (sort ns))))"
    "list_all scalars (concat (map trap_string (enumerate 0 (sort ns))))"
    using ns by (auto simp: list_all_iff[of scalars] trap_entry_def trap_string_def trap_label_def asm_name_def shim_c_name_def
        Let_def is_scalar_small)
  then show ?thesis unfolding trap_assembly_def Let_def by (intro scalars_join_lines) simp
qed

lemma scalars_phdr [scalar_texts]: "scalars (elf_phdr_compat_source e)"
proof -
  have "scalars (join_lines (map phdr_entry phs))" for phs
    by (rule scalars_join_lines) (simp add: list_all_iff[of scalars] phdr_entry_def)
  then show ?thesis by (simp add: elf_phdr_compat_source_def scalars_constants is_scalar_small)
qed

subsection \<open>JSON\<close>

fun json_scalars :: "json \<Rightarrow> bool" where
  "json_scalars J_Null = True"
| "json_scalars (J_Bool b) = True"
| "json_scalars (J_Int n) = True"
| "json_scalars (J_Str s) = scalars s"
| "json_scalars (J_Arr xs) = list_all json_scalars xs"
| "json_scalars (J_Obj kvs) = list_all (\<lambda>(k, v). scalars k \<and> json_scalars v) kvs"

lemma scalars_json_string: "scalars s \<Longrightarrow> scalars (json_string s)"
proof -
  have "is_scalar c \<Longrightarrow> scalars (json_escape c)" for c
    by (simp add: json_escape_def is_scalar_small digit_char_def)
  then show "scalars s \<Longrightarrow> scalars (json_string s)"
    by (auto simp: json_string_def list_all_iff is_scalar_small)
qed

lemma scalars_json_block: "list_all scalars xs \<Longrightarrow> scalars (json_block level a b xs)"
proof -
  have n: "scalars (json_newline l)" for l by (simp add: json_newline_def list_all_iff is_scalar_small)
  have "list_all scalars xs \<Longrightarrow> scalars (json_items l xs)" for l
    by (induction l xs rule: json_items.induct) (simp_all add: n)
  then show "list_all scalars xs \<Longrightarrow> scalars (json_block level a b xs)"
    by (simp add: json_block_def n)
qed

lemma scalars_json_dumps: "json_scalars j \<Longrightarrow> scalars (json_dumps level j)"
proof (induction level j rule: json_dumps.induct)
  case (5 level xs)
  then show ?case by (auto intro!: scalars_json_block simp: list_all_iff[of scalars] list_all_iff[of json_scalars])
next
  case (6 level kvs)
  have "list_all scalars (map (\<lambda>(k, v). json_string k @ lit '': '' @ json_dumps (Suc level) v) kvs)"
    unfolding list_all_iff[of scalars]
  proof
    fix x assume "x \<in> set (map (\<lambda>(k, v). json_string k @ lit '': '' @ json_dumps (Suc level) v) kvs)"
    then obtain k v where kv: "(k, v) \<in> set kvs" "x = json_string k @ lit '': '' @ json_dumps (Suc level) v" by auto
    then have "scalars k" "json_scalars v" using 6(2) by (auto simp: list_all_iff[of "\<lambda>(k, v). scalars k \<and> json_scalars v"])
    then show "scalars x" using 6(1)[OF kv(1) refl] kv(2) scalars_json_string by simp
  qed
  then show ?case by (simp add: scalars_json_block)
qed (simp_all add: scalars_json_string)

subsection \<open>The files of the scaffold\<close>

lemma write_text_other: "write_text fs p s = (fs', r) \<Longrightarrow> q \<noteq> p \<Longrightarrow> fs' q = fs q"
  by (auto simp: write_text_def write_bytes_apply split: sum.splits)

lemma write_scaffold_frame:
  "write_scaffold templates out fs files = (fs', r) \<Longrightarrow> q \<notin> in_dir out ` fst ` set files \<Longrightarrow> fs' q = fs q"
proof (induction files arbitrary: fs)
  case (Cons f files)
  obtain name src where f: "f = (name, src)" by (cases f)
  have q: "q \<noteq> in_dir out name" "q \<notin> in_dir out ` fst ` set files" using Cons.prems(2) by (auto simp: f)
  show ?case
  proof (cases "source_text templates fs name src")
    case (Inl e)
    then show ?thesis using Cons.prems(1) by (simp add: f)
  next
    case (Inr s)
    obtain fs1 r1 where w: "write_text fs (in_dir out name) s = (fs1, r1)" by (cases "write_text fs (in_dir out name) s")
    then show ?thesis
      using Cons.prems(1) Inr Cons.IH[of fs1] q write_text_other[OF w q(1)] by (cases r1) (simp_all add: f)
  qed
qed simp

text \<open>Templates that are valid UTF-8 and do not lie among the files that are written.\<close>

definition templates_ok :: "pystr \<Rightarrow> pystr \<Rightarrow> fs \<Rightarrow> (pystr \<times> scaffold_source) list \<Rightarrow> bool" where
  "templates_ok templates out fs files \<longleftrightarrow>
     (\<forall>(n, src) \<in> set files. case src of Generated s \<Rightarrow> scalars s
        | Template \<Rightarrow> (\<exists>s b. fs (in_dir templates n) = Some b \<and> encode_utf8 s = Inr b)
            \<and> in_dir templates n \<notin> in_dir out ` fst ` set files)"

lemma templates_okD:
  assumes "templates_ok templates out fs files" and "(n, src) \<in> set files"
  shows "case src of Generated s \<Rightarrow> scalars s
    | Template \<Rightarrow> (\<exists>s b. fs (in_dir templates n) = Some b \<and> encode_utf8 s = Inr b)
        \<and> in_dir templates n \<notin> in_dir out ` fst ` set files"
  using bspec[OF assms(1)[unfolded templates_ok_def] assms(2)] by (simp only: prod.case)

lemma scalars_newlines: "scalars s \<Longrightarrow> scalars (universal_newlines s)"
proof (induction s rule: universal_newlines.induct)
  case (2 c cs)
  have ten: "is_scalar 10" by (simp add: is_scalar_small)
  show ?case
  proof (cases "c = 13")
    case True
    show ?thesis
    proof (cases cs)
      case Nil
      then show ?thesis using True ten by simp
    next
      case (Cons d ds)
      have "universal_newlines (c # cs) = 10 # (if d = 10 then universal_newlines ds else universal_newlines cs)"
        by (simp only: universal_newlines.simps True Cons list.case if_True refl)
      moreover have "scalars (universal_newlines ds)" if "d = 10" using 2(1)[OF True Cons that] 2(4) Cons by simp
      moreover have "scalars (universal_newlines cs)" if "d \<noteq> 10" using 2(2)[OF True Cons that] 2(4) by simp
      ultimately show ?thesis using ten by (simp split: if_split)
    qed
  next
    case False
    then show ?thesis using 2 by simp
  qed
qed simp

lemma decode_utf8_encode: "encode_utf8 s = Inr b \<Longrightarrow> decode_utf8 b = Inr s"
  using utf8_decode_encode[of s b] by (simp add: decode_utf8_def)

lemma encode_utf8_Inr_iff: "(\<exists>b. encode_utf8 s = Inr b) \<longleftrightarrow> scalars s"
  by (simp add: encode_utf8_def)

lemma source_text_ok:
  assumes "case src of Generated s \<Rightarrow> scalars s | Template \<Rightarrow> (\<exists>s b. fs (in_dir templates n) = Some b \<and> encode_utf8 s = Inr b)"
  shows "\<exists>s b. source_text templates fs n src = Inr s \<and> encode_utf8 s = Inr b"
proof (cases src)
  case (Generated s)
  then show ?thesis using assms encode_utf8_Inr_iff[of s] by (simp add: source_text_def)
next
  case Template
  then obtain s b where s: "fs (in_dir templates n) = Some b" "encode_utf8 s = Inr b" using assms by auto
  then have "scalars s" using encode_utf8_Inr_iff[of s] by blast
  then show ?thesis
    using s scalars_newlines[of s] encode_utf8_Inr_iff[of "universal_newlines s"] Template
    by (simp add: source_text_def read_text_def read_bytes_def decode_utf8_encode)
qed

lemma write_scaffold_ok:
  assumes "templates_ok templates out fs files" and "distinct (map fst files)"
  shows "\<exists>fs'. write_scaffold templates out fs files = (fs', Inr ())
    \<and> (\<forall>(n, src) \<in> set files. \<exists>s b. source_text templates fs n src = Inr s \<and> encode_utf8 s = Inr b \<and> fs' (in_dir out n) = Some b)"
  using assms
proof (induction files arbitrary: fs)
  case (Cons f files)
  obtain name src where f: "f = (name, src)" by (cases f)
  have "case src of Generated s \<Rightarrow> scalars s | Template \<Rightarrow> (\<exists>s b. fs (in_dir templates name) = Some b \<and> encode_utf8 s = Inr b)"
    using Cons.prems(1) by (auto simp: templates_ok_def f split: scaffold_source.splits)
  then obtain s b where s: "source_text templates fs name src = Inr s" "encode_utf8 s = Inr b" using source_text_ok by blast
  let ?fs1 = "write_bytes fs (in_dir out name) b"
  have same: "?fs1 (in_dir templates n) = fs (in_dir templates n)" if "(n, Template) \<in> set files" for n
    using Cons.prems(1) that by (auto simp: templates_ok_def f write_bytes_apply)
  have "case src' of Generated s \<Rightarrow> scalars s
      | Template \<Rightarrow> (\<exists>s b. ?fs1 (in_dir templates n) = Some b \<and> encode_utf8 s = Inr b)
          \<and> in_dir templates n \<notin> in_dir out ` fst ` set files" if m: "(n, src') \<in> set files" for n src'
  proof -
    have "(n, src') \<in> set (f # files)" using m by simp
    from templates_okD[OF Cons.prems(1) this] show ?thesis using m same[of n] by (cases src') simp_all
  qed
  then have "templates_ok templates out ?fs1 files" unfolding templates_ok_def by blast
  from Cons.IH[OF this] obtain fs' where fs': "write_scaffold templates out ?fs1 files = (fs', Inr ())"
    "\<forall>(n, src) \<in> set files. \<exists>s b. source_text templates ?fs1 n src = Inr s \<and> encode_utf8 s = Inr b \<and> fs' (in_dir out n) = Some b"
    using Cons.prems(2) by auto
  have same': "source_text templates ?fs1 n src = source_text templates fs n src" if "(n, src) \<in> set files" for n src
    using same[of n] that by (cases src) (auto simp: source_text_def read_text_def read_bytes_def)
  have "inj (in_dir out)" by (simp add: inj_def)
  then have "in_dir out name \<notin> in_dir out ` fst ` set files" using Cons.prems(2) by (simp add: f inj_image_mem_iff)
  from write_scaffold_frame[OF fs'(1) this] have new: "fs' (in_dir out name) = Some b" by (simp add: write_bytes_apply)
  have "write_scaffold templates out fs (f # files) = (fs', Inr ())"
    using s fs'(1) by (simp add: f write_text_def)
  moreover have "\<exists>s b. source_text templates fs n src' = Inr s \<and> encode_utf8 s = Inr b \<and> fs' (in_dir out n) = Some b"
    if m: "(n, src') \<in> set (f # files)" for n src'
  proof (cases "(n, src') \<in> set files")
    case True
    from bspec[OF fs'(2) this] show ?thesis by (simp add: same'[OF True])
  next
    case False
    then show ?thesis using m s new by (auto simp: f)
  qed
  ultimately show ?case by blast
qed simp

lemma scalars_elf_type: "scalars (elf_type_name info)"
  by (simp add: elf_type_name_def Let_def)

lemma scalars_category [simp]: "scalars (category_name c)"
  by (cases c) simp_all

lemma scalars_shim_records:
  assumes "list_all symbol_ok syms" and "r \<in> set (shim_records (shim_import_table syms))"
  shows "scalars (im_name r)" and "scalars (im_elf_type r)" and "scalars (im_shim_symbol r)"
proof -
  obtain s where s: "find (\<lambda>s. shim_import_sym s \<and> sym_name s = im_name r) (rev syms) = Some s"
    "im_elf_type r = elf_type_name (st_info s)"
    using shim_record_fields(3)[OF assms(2)] by blast
  have "s \<in> set syms" "sym_name s = im_name r" using s(1) by (auto simp: find_Some_iff rev_nth)
  then show nm: "scalars (im_name r)" using assms(1) by (auto simp: list_all_iff symbol_ok_def)
  show "scalars (im_elf_type r)" by (simp add: s(2) scalars_elf_type)
  show "scalars (im_shim_symbol r)" using nm shim_record_fields(1)[OF assms(2)] by simp
qed

lemma scalars_manifest:
  assumes "list_all symbol_ok syms" and "scalars source"
  shows "scalars (json_dumps 0 (manifest_json (shim_manifest_of source (shim_records (shim_import_table syms)))))"
proof (rule scalars_json_dumps)
  have "json_scalars (record_json r)" if "r \<in> set (shim_records (shim_import_table syms))" for r
    using scalars_shim_records[OF assms(1) that] by (simp add: record_json_def)
  then show "json_scalars (manifest_json (shim_manifest_of source (shim_records (shim_import_table syms))))"
    using assms(2)
    by (simp add: manifest_json_def shim_manifest_of_def manifest_warning_def list.pred_map comp_def case_prod_beta)
      (simp add: list_all_iff[of "\<lambda>x. json_scalars (record_json x)"] list_all_iff[of "\<lambda>x. True"])
qed

lemma scalars_scaffold:
  assumes "list_all symbol_ok syms" and "records = shim_records (shim_import_table syms)" and "scalars source"
    and "(n, Generated s) \<in> set (scaffold_files e source records)"
  shows "scalars s"
proof -
  have "list_all scalars (direct_names records)" "list_all scalars (trap_names records)"
    using scalars_shim_records(1)[OF assms(1)] by (auto simp: list_all_iff[of scalars] direct_names_def trap_names_def assms(2))
  then show ?thesis
    using assms(4) scalars_manifest[OF assms(1,3)] scalars_constants scalars_phdr[of e]
      scalars_direct[of "direct_names records"] scalars_trap[of "trap_names records"]
    unfolding scaffold_files_def assms(2)[symmetric] set_simps insert_iff prod.inject scaffold_source.inject empty_iff
    by (elim disjE conjE) (simp_all add: is_scalar_small)
qed

text \<open>The names of the files do not depend on the input.\<close>

definition scaffold_names :: "pystr list" where
  "scaffold_names = map lit
     [''direct.S'', ''trap.S'', ''objects.S'', ''objects_compat.c'', ''stdio_compat.c'', ''special.c'', ''pthread_compat.c'',
      ''posix_compat.c'', ''elf_phdr_compat.c'', ''network_compat.c'', ''runtime_compat.c'', ''runtime_compat.S'',
      ''signal_compat.c'', ''build.sh'', ''README.md'', ''manifest.json'']"

lemma scaffold_files_names: "map fst (scaffold_files e source records) = scaffold_names"
  by (simp add: scaffold_files_def scaffold_names_def)

lemma distinct_scaffold_names: "distinct scaffold_names"
proof -
  have "inj lit" by (simp add: inj_def)
  then show ?thesis unfolding scaffold_names_def by (subst distinct_map) (simp add: inj_on_subset[of lit UNIV])
qed

interpretation scaffold: file_op "\<lambda>fs. generate_shim_scaffold templates fs input out" "in_dir out ` set scaffold_names"
  for templates input out
proof unfold_locales
  fix q fs assume q: "q \<notin> in_dir out ` set scaffold_names"
  have "fs' q = fs q" if "write_scaffold templates out fs (scaffold_files e input records) = (fs', r)" for e records fs' r
  proof -
    have "fst ` set (scaffold_files e input records) = set scaffold_names"
      by (simp only: scaffold_files_names[of e input records, symmetric] set_map)
    then show ?thesis using write_scaffold_frame[OF that, of q] q by simp
  qed
  then show "fst (generate_shim_scaffold templates fs input out) q = fs q"
    by (auto simp: generate_shim_scaffold_def split: sum.splits prod.splits)
qed

end
