(* ===== verification/Shim_Props.thy ===== *)
theory Shim_Props
  imports Shim_Correct Phase3_Props
begin

section \<open>The properties of the shim generator\<close>

text \<open>
  The theorems about \<open>shimgen.py\<close>: its imports against those of \<open>elf.py\<close> and the bindings of Phase 3, the
  assembly it generates, and the files it writes.
\<close>

subsection \<open>The imports\<close>

text \<open>
  C21. The records of the manifest are one for each name \<open>Elf64.undefined_symbols\<close> returns, in the same order, with the
  shim symbol and the category of the name; the counts of the manifest are the numbers of records of each
  category, sorted by category and adding up to the number of imports.
\<close>

theorem shim_manifest_exact:
  assumes "dynamic_symbols e = Inr syms" and "records = shim_records (shim_import_table syms)"
    and "mf = shim_manifest_of source records"
  shows "undefined_symbols e = Inr (map im_name (m_imports mf))
    \<and> (\<forall>r \<in> set (m_imports mf). im_shim_symbol r = lit ''_a2i_'' @ im_name r \<and> im_category r = category_of (im_name r) (im_elf_type r)
        \<and> (\<exists>s \<in> set syms. sym_name s = im_name r \<and> st_shndx s = SHN_UNDEF \<and> im_elf_type r = elf_type_name (st_info s)))
    \<and> m_total_imports mf = sum_list (map snd (m_counts mf))
    \<and> sorted (map fst (m_counts mf)) \<and> distinct (map fst (m_counts mf))
    \<and> set (m_counts mf) = {(c, int (length (filter (\<lambda>r. im_category r = c) records))) | c. c \<in> im_category ` set records}"
proof -
  have names: "undefined_symbols e = Inr (map im_name records)"
  proof -
    obtain us where us: "undefined_symbols e = Inr us" using assms(1) by (simp add: undefined_symbols_def)
    have "set us = set (map im_name records)"
      using undefined_symbols_spec(3)[OF assms(1) us] shim_records_names[of syms] by (simp add: assms(2) shim_import_sym_def)
    then have "us = map im_name records"
      using undefined_symbols_spec(1,2)[OF assms(1) us] shim_records_names[of syms]
      by (simp add: assms(2) sorted_distinct_set_unique)
    then show ?thesis using us by simp
  qed
  have recs: "im_shim_symbol r = lit ''_a2i_'' @ im_name r \<and> im_category r = category_of (im_name r) (im_elf_type r)
      \<and> (\<exists>s \<in> set syms. sym_name s = im_name r \<and> st_shndx s = SHN_UNDEF \<and> im_elf_type r = elf_type_name (st_info s))"
    if "r \<in> set records" for r
    using shim_record_fields[of r syms] that unfolding assms(2)
    by (auto simp: find_Some_iff shim_import_sym_def rev_nth) 
  let ?cs = "count_all (map im_category records)"
  have mset: "mset (map snd (sort_key fst ?cs)) = mset (map snd ?cs)" "mset (map fst (sort_key fst ?cs)) = mset (map fst ?cs)"
    by simp_all
  have "sum_mset (mset (map snd (sort_key fst ?cs))) = sum_mset (mset (map snd ?cs))" by (rule arg_cong[OF mset(1)])
  then have sum: "sum_list (map snd (sort_key fst ?cs)) = int (length records)"
    using sum_count_all[of "map im_category records"] by (simp only: sum_mset_sum_list length_map)
  have dist: "distinct (map fst (sort_key fst ?cs))"
    using mset_eq_imp_distinct_iff[OF mset(2)] distinct_count_all by blast
  have "count_list (map im_category records) c = length (filter (\<lambda>r. im_category r = c) records)" for c
    by (induction records) simp_all
  then have "set ?cs = {(c, int (length (filter (\<lambda>r. im_category r = c) records))) | c. c \<in> im_category ` set records}"
    by (auto simp: count_all_pairs)
  then show ?thesis
    using names recs sum dist by (simp add: assms(3) shim_manifest_of_def)
qed

lemma demo_category: "category_of (lit ''malloc'') (lit ''func'') = Cat_Direct"
  by (simp add: category_of_def symbol_tables)

lemma demo_shim_records: "shim_records (shim_import_table demo_syms) = [shim_record_of (lit ''malloc'', lit ''func'')]"
proof -
  have "lit ''malloc'' \<noteq> []" by (simp add: lit_simps)
  then have "shim_import_table demo_syms = [(lit ''malloc'', elf_type_name 18)]"
    by (simp add: shim_import_table_def demo_syms_def demo_symbol_def add_shim_import_def shim_import_sym_def SHN_UNDEF_def)
  moreover have "elf_type_name 18 = lit ''func''" by (simp add: elf_type_name_def)
  ultimately show ?thesis by (simp add: shim_records_def)
qed

lemma shim_manifest_exact_witness:
  "undefined_symbols demo_elf = Inr [lit ''malloc''] \<and> m_counts (shim_manifest_of [] [shim_record_of (lit ''malloc'', lit ''func'')]) = [(Cat_Direct, 1)]"
proof -
  have "undefined_symbols demo_elf = Inr (map im_name [shim_record_of (lit ''malloc'', lit ''func'')])"
    using shim_manifest_exact[OF demo_symbols refl refl, of "[]"] by (simp add: demo_shim_records shim_manifest_of_def)
  moreover have "m_counts (shim_manifest_of [] [shim_record_of (lit ''malloc'', lit ''func'')]) = [(Cat_Direct, 1)]"
    by (simp add: shim_manifest_of_def shim_record_of_def demo_category count_all_def)
  ultimately show ?thesis by (simp add: shim_record_of_def)
qed

text \<open>
  C20. The symbols the image of Phase 3 asks the shim for are ones the manifest plans, with one exception: a name that
  dyld binds from the shim under the default prefix is the shim symbol of a record exactly when it is not the bare
  prefix \<open>_a2i_\<close>, and the bare prefix is bound only when an import relocation is against an undefined symbol without
  a name (as symbol 0 is), which the generator leaves out.
\<close>

theorem shim_covers_bindings:
  assumes "phase3_wf t" and "segments_in_file t" and "build3 t shim install (lit ''_a2i_'') v = Inr b"
    and "dynamic_symbols (p3_elf t) = Inr syms" and "symbol \<in> set (r3_shim_symbols (report3 t out shim b))"
  shows "(symbol \<in> im_shim_symbol ` set (shim_records (shim_import_table syms))) = (symbol \<noteq> lit ''_a2i_'')
    \<and> (symbol \<noteq> lit ''_a2i_'' \<or> (\<exists>rels. iter_relocations (p3_elf t) = Inr rels
         \<and> (\<exists>r \<in> set rels. is_import syms r \<and> sym_name (syms ! nat (rel_sym r)) = [])))"
proof -
  have wf: "elf_wf (p3_elf t)" using assms(1) by (simp add: phase3_wf_def)
  obtain rels where rels: "iter_relocations (p3_elf t) = Inr rels" "list_all reloc_ok rels"
    using iter_relocations_total[OF wf] by blast
  have "symbol \<in> set (map b_shim_symbol (t_bindings (f_state b)))" using assms(5) by (simp add: report3_def Let_def)
  then obtain r where r: "r \<in> set rels" "is_import syms r" "symbol = lit ''_a2i_'' @ sym_name (syms ! nat (rel_sym r))"
    unfolding build3_shim_names(2)[OF assms(1-4) rels(1)] by auto
  let ?s = "syms ! nat (rel_sym r)"
  have s: "?s \<in> set syms" "st_shndx ?s = SHN_UNDEF"
    using import_symbol_in[OF r(2)] rels(2) r(1,2) by (auto simp: list_all_iff reloc_ok_def is_import_def)
  have named: "im_shim_symbol q \<noteq> lit ''_a2i_''" if q: "q \<in> set (shim_records (shim_import_table syms))" for q
  proof -
    have "im_name q \<in> sym_name ` {s \<in> set syms. shim_import_sym s}" using q shim_records_names[of syms] by auto
    then have "im_name q \<noteq> []" by (auto simp: shim_import_sym_def)
    then show ?thesis using shim_record_fields(1)[OF q] by simp
  qed
  show ?thesis
  proof (cases "sym_name ?s = []")
    case True
    then have "symbol = lit ''_a2i_''" using r(3) by simp
    moreover have "lit ''_a2i_'' \<notin> im_shim_symbol ` set (shim_records (shim_import_table syms))"
      using named by (metis imageE)
    ultimately show ?thesis using r(1,2) rels(1) True by blast
  next
    case False
    then have "sym_name ?s \<in> sym_name ` {s \<in> set syms. shim_import_sym s}" using s by (auto simp: shim_import_sym_def)
    then have "sym_name ?s \<in> im_name ` set (shim_records (shim_import_table syms))"
      using shim_records_names[of syms] by simp
    then obtain q where q: "q \<in> set (shim_records (shim_import_table syms))" "sym_name ?s = im_name q" by (rule imageE)
    then have "symbol = im_shim_symbol q" using shim_record_fields(1)[OF q(1)] r(3) by simp
    then show ?thesis using q(1) False r(3) by blast
  qed
qed

lemma shim_covers_bindings_witness:
  "lit ''_a2i_malloc'' \<in> im_shim_symbol ` set (shim_records (shim_import_table demo_syms))"
proof -
  have syms: "dynamic_symbols (p3_elf demo_t3) = Inr demo_syms" by (simp add: demo_symbols)
  have rels: "iter_relocations (p3_elf demo_t3) = Inr demo_rels" by (simp add: demo_relocs)
  have imp: "filter (is_import demo_syms) demo_rels = [demo_reloc 544 1026 2 0]"
    by (simp add: demo_rels_def demo_reloc_def is_import_def demo_syms_def demo_symbol_def
        symbol_relocs_def reloc_consts SHN_UNDEF_def)
  have "map b_shim_symbol (t_bindings (f_state demo_out3)) = [lit ''_a2i_'' @ lit ''malloc'']"
    using build3_shim_names(2)[OF demo_t3_wf demo_in_file3 demo_build3 syms rels]
    by (simp add: imp) (simp add: demo_reloc_def demo_syms_def demo_symbol_def)
  moreover have "lit ''_a2i_'' @ lit ''malloc'' = lit ''_a2i_malloc''" by (simp flip: lit_append)
  ultimately have "set (map b_shim_symbol (t_bindings (f_state demo_out3))) = {lit ''_a2i_malloc''}" by simp
  then have bound: "lit ''_a2i_malloc'' \<in> set (r3_shim_symbols (report3 demo_t3 [] (lit ''y'') demo_out3))"
    by (simp add: report3_def Let_def)
  show ?thesis
    using shim_covers_bindings[OF demo_t3_wf demo_in_file3 demo_build3 syms bound] by (simp add: lit_simps)
qed

subsection \<open>The generated code\<close>

lemma in_direct_names: "n \<in> set (direct_names records) \<longleftrightarrow> (\<exists>r \<in> set records. im_name r = n \<and> im_category r = Cat_Direct)"
  by (auto simp: direct_names_def)

lemma in_trap_names:
  assumes "r \<in> set (shim_records (shim_import_table syms))"
  shows "im_name r \<in> set (trap_names (shim_records (shim_import_table syms))) \<longleftrightarrow> im_category r = Cat_Trap"
proof -
  let ?rs = "shim_records (shim_import_table syms)"
  have inj: "inj_on im_name (set ?rs)"
    using conjunct1[OF conjunct2[OF shim_records_names[of syms]]] by (simp only: distinct_map)
  have same: "q = r" if "q \<in> set ?rs" "im_name q = im_name r" for q
    by (rule inj_onD[OF inj that(2,1) assms])
  have not_object: "im_category r = Cat_Trap \<Longrightarrow> im_elf_type r \<noteq> lit ''object''"
  proof
    assume "im_category r = Cat_Trap" and "im_elf_type r = lit ''object''"
    then show False using shim_record_fields(2)[OF assms] by (simp add: category_of_def)
  qed
  show ?thesis
  proof
    assume "im_name r \<in> set (trap_names ?rs)"
    then have "im_name r \<in> im_name ` {q \<in> set ?rs. im_category q = Cat_Trap \<and> im_elf_type q \<noteq> lit ''object''}"
      by (simp only: trap_names_def set_map set_filter)
    then obtain q where q: "im_name r = im_name q" "q \<in> {q \<in> set ?rs. im_category q = Cat_Trap \<and> im_elf_type q \<noteq> lit ''object''}"
      by (rule imageE)
    then show "im_category r = Cat_Trap" using same[of q] by simp
  next
    assume "im_category r = Cat_Trap"
    then have "r \<in> {q \<in> set ?rs. im_category q = Cat_Trap \<and> im_elf_type q \<noteq> lit ''object''}"
      using assms not_object by simp
    then show "im_name r \<in> set (trap_names ?rs)"
      unfolding trap_names_def set_map set_filter by (rule imageI)
  qed
qed

lemma trap_names_records:
  assumes "records = shim_records (shim_import_table syms)"
  shows "trap_names records = map im_name (filter (\<lambda>r. im_category r = Cat_Trap) records)"
proof -
  have "filter (\<lambda>r. im_category r = Cat_Trap \<and> im_elf_type r \<noteq> lit ''object'') records = filter (\<lambda>r. im_category r = Cat_Trap) records"
    by (rule filter_cong) (use assms shim_record_fields(2)[of _ syms] in \<open>auto simp: category_of_def\<close>)
  then show ?thesis by (simp only: trap_names_def)
qed

text \<open>The labels of the two generated assembly files, each with the code or data behind it.\<close>

definition direct_defs :: "shim_record list \<Rightarrow> (pystr \<times> pystr list) list" where
  "direct_defs records = asm_blocks (lines_of (direct_assembly (direct_names records)))"

definition trap_defs :: "shim_record list \<Rightarrow> (pystr \<times> pystr list) list" where
  "trap_defs records = asm_blocks (lines_of (trap_assembly (trap_names records)))"

lemma shim_label_inj [simp]: "lit ''_a2i_'' @ a = lit ''_a2i_'' @ b \<longleftrightarrow> a = b" "lit ''_a2i_'' @ a \<noteq> trap_label i"
  "trap_label i \<noteq> lit ''_a2i_'' @ a"
  by (simp_all add: trap_label_def lit_simps)

lemma trap_label_inj: "trap_label i = trap_label j \<Longrightarrow> i = j"
  using py_dec_inj[of i j] by (simp add: trap_label_def)

lemma distinct_shim_defs:
  assumes "distinct ds" and "distinct ts" and "set ds \<inter> set ts = {}"
    and "\<forall>n \<in> set ds \<union> set ts. 10 \<notin> set n"
  shows "distinct (map fst (asm_blocks (lines_of (direct_assembly ds)) @ asm_blocks (lines_of (trap_assembly ts))))"
proof -
  let ?shim = "\<lambda>n. lit ''_a2i_'' @ n"
  have nl: "\<forall>n \<in> set ds. 10 \<notin> set n" "\<forall>n \<in> set ts. 10 \<notin> set n" using assms(4) by blast+
  have "map snd (enumerate 0 (sort ts)) = sort ts" by (simp add: map_snd_enumerate)
  then have e1: "map (\<lambda>x. ?shim (snd x)) (enumerate 0 (sort ts)) = map ?shim (sort ts)"
    by (metis (no_types, lifting) map_map comp_apply map_cong)
  have "map fst (enumerate 0 (sort ts)) = [0..<length ts]" by (simp add: map_fst_enumerate)
  then have e2: "map (\<lambda>x. trap_label (fst x)) (enumerate 0 (sort ts)) = map trap_label [0..<length ts]"
    by (metis (no_types, lifting) map_map comp_apply map_cong)
  have "map fst (asm_blocks (lines_of (direct_assembly ds)) @ asm_blocks (lines_of (trap_assembly ts)))
      = map ?shim (sort ds @ sort ts) @ map trap_label [0..<length ts]"
    unfolding direct_assembly_blocks[OF nl(1)] trap_assembly_blocks[OF nl(2)]
    by (simp add: comp_def case_prod_beta e1 e2)
  also have "distinct \<dots>"
  proof -
    have "distinct (map ?shim (sort ds @ sort ts))" using assms(1-3) by (auto simp: distinct_map inj_on_def)
    moreover have "distinct (map trap_label [0..<length ts])" using trap_label_inj by (auto simp: distinct_map inj_on_def)
    moreover have "set (map ?shim (sort ds @ sort ts)) \<inter> set (map trap_label [0..<length ts]) = {}" by auto
    ultimately show ?thesis by (simp only: distinct_append)
  qed
  finally show ?thesis .
qed

text \<open>
  C19. What the two generated assembly files define, when no imported name has a newline in it (the generator escapes
  quotes and backslashes only, so a newline would end the line of its label or its string): their labels are the shim
  symbols of the records of category direct and trap and one label for the string of each trap, nothing else, and each
  of them once. An import of category direct is a tail call to the host symbol of its name; an import of category trap
  loads the address of a string that reads back as its name and jumps to the reporting function. An imported object
  other than the two of the template therefore gets no definition at all.
\<close>

theorem shim_definitions:
  assumes "records = shim_records (shim_import_table syms)" and "\<forall>r \<in> set records. 10 \<notin> set (im_name r)"
    and "r \<in> set records" and "defs = direct_defs records @ trap_defs records"
  shows "distinct (map fst defs)
    \<and> set (map fst defs) = im_shim_symbol ` {q \<in> set records. im_category q \<in> {Cat_Direct, Cat_Trap}}
        \<union> trap_label ` {i. i < length (filter (\<lambda>q. im_category q = Cat_Trap) records)}
    \<and> (im_shim_symbol r \<in> fst ` set defs) = (im_category r \<in> {Cat_Direct, Cat_Trap})
    \<and> (im_category r = Cat_Direct \<longrightarrow> map_of defs (im_shim_symbol r) = Some [lit ''    b _'' @ im_name r])
    \<and> (im_category r = Cat_Trap \<longrightarrow> (\<exists>i l. map_of defs (im_shim_symbol r) = Some (trap_code i)
        \<and> map_of defs (trap_label i) = Some [l] \<and> read_asciz l = Some (im_name r)))"
proof -
  let ?ds = "direct_names records" and ?ts = "trap_names records"
  have dn: "distinct (map im_name records)" using shim_records_names[of syms] by (simp add: assms(1))
  have d: "distinct ?ds" "distinct ?ts"
    unfolding direct_names_def trap_names_def using dn by (simp_all add: distinct_map_filter)
  have ii: "im_name r \<in> set ?ts \<longleftrightarrow> im_category r = Cat_Trap" if "r \<in> set records" for r
    using in_trap_names[of r syms] that by (simp add: assms(1))
  have "inj_on im_name (set records)" using dn by (simp only: distinct_map)
  then have inj: "q = r" if "q \<in> set records" "r \<in> set records" "im_name q = im_name r" for q r
    using inj_onD that by metis
  have id: "im_name r \<in> set ?ds \<longleftrightarrow> im_category r = Cat_Direct" if "r \<in> set records" for r
    using that inj unfolding in_direct_names by blast
  have sub: "set ?ds \<subseteq> im_name ` set records" "set ?ts \<subseteq> im_name ` set records"
    by (auto simp: direct_names_def trap_names_def)
  have disj: "set ?ds \<inter> set ?ts = {}"
  proof -
    have False if n: "n \<in> set ?ds" "n \<in> set ?ts" for n
    proof -
      obtain q where q: "q \<in> set records" "n = im_name q" using n(1) sub(1) by blast
      then show False using id[OF q(1)] ii[OF q(1)] n by simp
    qed
    then show ?thesis by blast
  qed
  have nl: "\<forall>n \<in> set ?ds \<union> set ?ts. 10 \<notin> set n" using sub assms(2) by blast
  have dist: "distinct (map fst defs)"
    unfolding assms(4) direct_defs_def trap_defs_def by (rule distinct_shim_defs[OF d disj nl])
  have dd: "direct_defs records = map (\<lambda>n. (lit ''_a2i_'' @ n, [lit ''    b _'' @ n])) (sort ?ds)"
    unfolding direct_defs_def by (rule direct_assembly_blocks) (use nl in blast)
  have td: "trap_defs records = map (\<lambda>(i, n). (lit ''_a2i_'' @ n, trap_code i)) (enumerate 0 (sort ?ts))
      @ map (\<lambda>(i, n). (trap_label i, [asciz_line n])) (enumerate 0 (sort ?ts))"
    unfolding trap_defs_def by (rule trap_assembly_blocks) (use nl in blast)
  have sym: "im_shim_symbol r = lit ''_a2i_'' @ im_name r"
    using shim_record_fields(1)[of r syms] assms(1,3) by simp
  have labels: "set (map fst defs) = (\<lambda>n. lit ''_a2i_'' @ n) ` (set ?ds \<union> set ?ts) \<union> trap_label ` fst ` set (enumerate 0 (sort ?ts))"
  proof -
    have "(\<lambda>x. lit ''_a2i_'' @ snd x) ` set (enumerate 0 (sort ?ts)) = (\<lambda>n. lit ''_a2i_'' @ n) ` set (map snd (enumerate 0 (sort ?ts)))"
      by (simp only: set_map image_image)
    then have "(\<lambda>x. lit ''_a2i_'' @ snd x) ` set (enumerate 0 (sort ?ts)) = (\<lambda>n. lit ''_a2i_'' @ n) ` set ?ts"
      by (simp only: map_snd_enumerate set_sort)
    then show ?thesis
      by (simp add: assms(4) dd td image_Un image_image case_prod_beta Un_assoc)
  qed
  have "(im_shim_symbol r \<in> fst ` set defs) = (im_name r \<in> set ?ds \<union> set ?ts)"
    using labels unfolding sym by (auto simp: image_iff)
  then have wh: "(im_shim_symbol r \<in> fst ` set defs) = (im_category r \<in> {Cat_Direct, Cat_Trap})"
    using id[OF assms(3)] ii[OF assms(3)] by simp
  have look: "map_of defs l = Some c" if "(l, c) \<in> set defs" for l c
    using dist that by simp
  have direct: "map_of defs (im_shim_symbol r) = Some [lit ''    b _'' @ im_name r]" if "im_category r = Cat_Direct"
    by (rule look) (use that id[OF assms(3)] in \<open>simp add: assms(4) dd sym\<close>)
  have trap: "\<exists>i l. map_of defs (im_shim_symbol r) = Some (trap_code i) \<and> map_of defs (trap_label i) = Some [l]
      \<and> read_asciz l = Some (im_name r)" if "im_category r = Cat_Trap"
  proof -
    have "im_name r \<in> snd ` set (enumerate 0 (sort ?ts))"
      using that ii[OF assms(3)] by (metis list.set_map map_snd_enumerate set_sort)
    then obtain i where i: "(i, im_name r) \<in> set (enumerate 0 (sort ?ts))" by auto
    have "(im_shim_symbol r, trap_code i) \<in> set defs" "(trap_label i, [asciz_line (im_name r)]) \<in> set defs"
      using i unfolding assms(4) td sym by force+
    then show ?thesis using look read_asciz_line by blast
  qed
  have names: "im_shim_symbol ` {q \<in> set records. im_category q \<in> {Cat_Direct, Cat_Trap}} = (\<lambda>n. lit ''_a2i_'' @ n) ` (set ?ds \<union> set ?ts)"
  proof -
    have "set ?ds \<union> set ?ts = im_name ` {q \<in> set records. im_category q \<in> {Cat_Direct, Cat_Trap}}"
      unfolding trap_names_records[OF assms(1)] by (auto simp: direct_names_def)
    then show ?thesis
      using shim_record_fields(1)[of _ syms] unfolding assms(1) by (auto simp: image_image intro!: image_cong)
  qed
  have "fst ` set (enumerate 0 (sort ?ts)) = set (map fst (enumerate 0 (sort ?ts)))" by (simp only: set_map)
  also have "\<dots> = {i. i < length ?ts}" by (simp only: map_fst_enumerate) auto
  finally have "fst ` set (enumerate 0 (sort ?ts)) = {i. i < length (filter (\<lambda>q. im_category q = Cat_Trap) records)}"
    by (simp add: trap_names_records[OF assms(1)])
  then have all: "set (map fst defs) = im_shim_symbol ` {q \<in> set records. im_category q \<in> {Cat_Direct, Cat_Trap}}
      \<union> trap_label ` {i. i < length (filter (\<lambda>q. im_category q = Cat_Trap) records)}"
    by (simp only: labels names)
  show ?thesis using dist wh direct trap all by blast
qed

lemma shim_definitions_witness:
  "map_of (direct_defs (shim_records (shim_import_table demo_syms)) @ trap_defs (shim_records (shim_import_table demo_syms)))
     (lit ''_a2i_malloc'') = Some [lit ''    b _malloc'']"
proof -
  let ?r = "shim_record_of (lit ''malloc'', lit ''func'')"
  have cat: "im_category ?r = Cat_Direct" by (simp add: shim_record_of_def demo_category)
  have nl: "\<forall>r \<in> set (shim_records (shim_import_table demo_syms)). 10 \<notin> set (im_name r)"
    by (simp add: demo_shim_records shim_record_of_def)
  have "?r \<in> set (shim_records (shim_import_table demo_syms))" by (simp add: demo_shim_records)
  from shim_definitions[OF refl nl this refl] cat
  have "map_of (direct_defs (shim_records (shim_import_table demo_syms)) @ trap_defs (shim_records (shim_import_table demo_syms)))
     (im_shim_symbol ?r) = Some [lit ''    b _'' @ im_name ?r]" by blast
  moreover have "im_shim_symbol ?r = lit ''_a2i_malloc''" "lit ''    b _'' @ im_name ?r = lit ''    b _malloc''"
    by (simp_all add: shim_record_of_def flip: lit_append)
  ultimately show ?thesis by simp
qed

subsection \<open>The files\<close>

text \<open>
  C22. For an ELF file that parses, with templates that are valid UTF-8 and not among the files written,
  \<open>generate_shim_scaffold\<close> returns the manifest, changes no path but the sixteen files of the scaffold, and each
  of them holds the encoding of its text: the assembly of the records, the C sources with line endings
  unified, and the manifest as JSON.
\<close>

theorem scaffold_written:
  assumes "fs input = Some d" and "parse_elf d input = Inr e" and "dynamic_symbols e = Inr syms"
    and "records = shim_records (shim_import_table syms)" and "scalars input"
    and "\<forall>n \<in> fst ` {f \<in> set (scaffold_files e input records). snd f = Template}.
      (\<exists>s b. fs (in_dir templates n) = Some b \<and> encode_utf8 s = Inr b)
      \<and> in_dir templates n \<notin> in_dir out ` fst ` set (scaffold_files e input records)"
  shows "\<exists>fs'. generate_shim_scaffold templates fs input out = (fs', Inr (shim_manifest_of input records))
    \<and> (\<forall>p. p \<notin> in_dir out ` fst ` set (scaffold_files e input records) \<longrightarrow> fs' p = fs p)
    \<and> (\<forall>(n, src) \<in> set (scaffold_files e input records). \<exists>s b. source_text templates fs n src = Inr s
        \<and> encode_utf8 s = Inr b \<and> fs' (in_dir out n) = Some b)"
proof -
  have "list_all symbol_ok syms" using dynamic_symbols_total[OF parse_elf_wf(1)[OF assms(2)]] assms(3) by auto
  then have "scalars s" if "(n, Generated s) \<in> set (scaffold_files e input records)" for n s
    by (rule scalars_scaffold[OF _ assms(4,5) that])
  then have "templates_ok templates out fs (scaffold_files e input records)"
    unfolding templates_ok_def using assms(6) by (fastforce split: scaffold_source.splits)
  moreover have "distinct (map fst (scaffold_files e input records))"
    by (simp add: scaffold_files_names distinct_scaffold_names)
  ultimately obtain fs' where fs': "write_scaffold templates out fs (scaffold_files e input records) = (fs', Inr ())"
    "\<forall>(n, src) \<in> set (scaffold_files e input records). \<exists>s b. source_text templates fs n src = Inr s
        \<and> encode_utf8 s = Inr b \<and> fs' (in_dir out n) = Some b"
    using write_scaffold_ok by blast
  have "generate_shim_scaffold templates fs input out = (fs', Inr (shim_manifest_of input records))"
    using fs'(1) assms(1-3) by (simp add: generate_shim_scaffold_def read_bytes_def assms(4)[symmetric])
  then show ?thesis using fs' write_scaffold_frame[OF fs'(1)] by blast
qed

definition demo_templates :: fs where
  "demo_templates = (\<lambda>p. if p = [] then Some demo_file else if starts_with p (lit ''t/'') then Some [] else None)"

lemma scaffold_written_witness:
  "\<exists>fs'. generate_shim_scaffold (lit ''t'') demo_templates [] (lit ''out'')
      = (fs', Inr (shim_manifest_of [] [shim_record_of (lit ''malloc'', lit ''func'')]))
    \<and> fs' (in_dir (lit ''out'') (lit ''direct.S'')) \<noteq> None \<and> fs' [] = Some demo_file"
proof -
  let ?rs = "[shim_record_of (lit ''malloc'', lit ''func'')]"
  have rs: "?rs = shim_records (shim_import_table demo_syms)" by (simp add: demo_shim_records)
  have in_t: "demo_templates (in_dir (lit ''t'') n) = Some []" for n
    by (simp add: demo_templates_def in_dir_def starts_with_append lit_simps)
  have sep: "in_dir (lit ''t'') n \<notin> in_dir (lit ''out'') ` A" for n A by (auto simp: in_dir_def lit_simps)
  have h: "demo_templates [] = Some demo_file" by (simp add: demo_templates_def)
  have h6: "\<forall>n \<in> A. (\<exists>s b. demo_templates (in_dir (lit ''t'') n) = Some b \<and> encode_utf8 s = Inr b)
      \<and> in_dir (lit ''t'') n \<notin> in_dir (lit ''out'') ` B" for A B
    using in_t sep encode_utf8_Nil by blast
  obtain fs' where fs': "generate_shim_scaffold (lit ''t'') demo_templates [] (lit ''out'') = (fs', Inr (shim_manifest_of [] ?rs))"
    "\<forall>p. p \<notin> in_dir (lit ''out'') ` fst ` set (scaffold_files demo_elf [] ?rs) \<longrightarrow> fs' p = demo_templates p"
    "\<forall>(n, src) \<in> set (scaffold_files demo_elf [] ?rs). \<exists>s b. source_text (lit ''t'') demo_templates n src = Inr s
        \<and> encode_utf8 s = Inr b \<and> fs' (in_dir (lit ''out'') n) = Some b"
    using scaffold_written[OF h demo_parsed demo_symbols rs _ h6] by auto
  have "(lit ''direct.S'', Generated (direct_assembly (direct_names ?rs))) \<in> set (scaffold_files demo_elf [] ?rs)"
    by (simp add: scaffold_files_def)
  from bspec[OF fs'(3) this] have "fs' (in_dir (lit ''out'') (lit ''direct.S'')) \<noteq> None" by auto
  moreover have "[] \<notin> in_dir (lit ''out'') ` A" for A by (auto simp: in_dir_def lit_simps)
  then have "fs' [] = demo_templates []" using fs'(2) by blast
  ultimately show ?thesis using fs'(1) by (simp add: demo_templates_def)
qed

end
