(* ===== verification/Apk.thy ===== *)
theory Apk
  imports Files Py_Text
begin

section \<open>The APK inspector (\<open>apk.py\<close>)\<close>

text \<open>
  \<open>UnityApk\<close>: the queries over the members of an APK and the extraction of the ARM64 payload. The archive
  format belongs to \<open>zipfile\<close> and is a parameter: whether \<open>is_zipfile\<close> accepts the bytes of a file, and the
  members \<open>ZipFile.infolist\<close> gives for it, each with what reading it returns or raises.
\<close>

record zip_entry =
  z_filename :: pystr
  z_file_size :: int
  z_data :: "bytes result"

record zip_lib =
  is_zip :: "bytes \<Rightarrow> bool"
  zip_entries :: "bytes \<Rightarrow> zip_entry list result"

text \<open>\<open>UnityApk(path)\<close>: \<open>is_zipfile\<close> is false for a file that cannot be opened.\<close>

definition apk_init :: "zip_lib \<Rightarrow> fs \<Rightarrow> pystr \<Rightarrow> unit result" where
  "apk_init z fs path = require (case fs path of None \<Rightarrow> False | Some d \<Rightarrow> is_zip z d) ApkError"

definition zip_file :: "zip_lib \<Rightarrow> fs \<Rightarrow> pystr \<Rightarrow> zip_entry list result" where
  "zip_file z fs path = rbind (read_bytes fs path) (zip_entries z)"

text \<open>\<open>zf.namelist()\<close>, and \<open>zf.read(name)\<close>: where a name occurs twice, the last member is the one it finds.\<close>

definition namelist :: "zip_entry list \<Rightarrow> pystr list" where
  "namelist entries = map z_filename entries"

definition zip_read :: "zip_entry list \<Rightarrow> pystr \<Rightarrow> bytes result" where
  "zip_read entries name =
     (case find (\<lambda>i. z_filename i = name) (rev entries) of None \<Rightarrow> Inl KeyError | Some i \<Rightarrow> z_data i)"

subsection \<open>Names of members\<close>

text \<open>\<open>s.split(c)\<close> for a single character.\<close>

fun split_char :: "nat \<Rightarrow> pystr \<Rightarrow> pystr list" where
  "split_char c [] = [[]]"
| "split_char c (x # xs) =
     (if x = c then [] # split_char c xs else (case split_char c xs of [] \<Rightarrow> [[x]] | p # ps \<Rightarrow> (x # p) # ps))"

text \<open>\<open>Path(s).name\<close>: the last component, where empty components and single dots do not count.\<close>

definition path_name :: "pystr \<Rightarrow> pystr" where
  "path_name s =
     (let ps = filter (\<lambda>p. p \<noteq> [] \<and> p \<noteq> lit ''.'') (split_char 47 s) in if ps = [] then [] else last ps)"

subsection \<open>Queries\<close>

definition so_suffix :: pystr where
  "so_suffix = lit ''.so''"

definition abi_of :: "pystr \<Rightarrow> pystr list" where
  "abi_of name =
     (let parts = split_char 47 name in
      if length parts \<ge> 3 \<and> parts ! 0 = lit ''lib'' \<and> ends_with name so_suffix then [parts ! 1] else [])"

definition abis :: "zip_lib \<Rightarrow> fs \<Rightarrow> pystr \<Rightarrow> pystr list result" where
  "abis z fs path = rmap (\<lambda>entries. sorted_set (concat (map abi_of (namelist entries)))) (zip_file z fs path)"

record native_lib =
  l_name :: pystr
  l_size :: int
  l_path :: pystr

definition native_libs :: "zip_lib \<Rightarrow> fs \<Rightarrow> pystr \<Rightarrow> pystr \<Rightarrow> native_lib list result" where
  "native_libs z fs path abi =
     (let prefix = lit ''lib/'' @ abi @ lit ''/'' in
      rmap (\<lambda>entries. sort_key l_name
              (map (\<lambda>i. \<lparr>l_name = drop (length prefix) (z_filename i), l_size = z_file_size i, l_path = z_filename i\<rparr>)
                 (filter (\<lambda>i. starts_with (z_filename i) prefix \<and> ends_with (z_filename i) so_suffix) entries)))
        (zip_file z fs path))"

definition metadata_suffix :: pystr where
  "metadata_suffix = lit ''global-metadata.dat''"

definition metadata_entries :: "zip_lib \<Rightarrow> fs \<Rightarrow> pystr \<Rightarrow> (pystr \<times> int) list result" where
  "metadata_entries z fs path =
     rmap (\<lambda>entries. map (\<lambda>i. (z_filename i, z_file_size i))
                       (filter (\<lambda>i. ends_with (z_filename i) metadata_suffix) entries))
       (zip_file z fs path)"

subsection \<open>The Unity version\<close>

text \<open>
  A regular expression of the form \<open>UNITY_VERSION_RE\<close> has: a sequence of byte classes, some repeated at least
  once. \<open>rx_match\<close> is the match of \<open>re\<close> at one position: a repetition takes as many bytes as it can and gives
  them back one by one while the rest does not match. \<open>rx_search\<close> tries the positions from the left.
\<close>

datatype rx_item = One "bytes" | Many "bytes"

fun rx_match :: "rx_item list \<Rightarrow> bytes \<Rightarrow> bytes option" where
  "rx_match [] s = Some []"
| "rx_match (_ # _) [] = None"
| "rx_match (One P # r) (c # s) = (if c \<in> set P then map_option (Cons c) (rx_match r s) else None)"
| "rx_match (Many P # r) (c # s) =
     (if c \<in> set P
      then (case rx_match (Many P # r) s of Some m \<Rightarrow> Some (c # m) | None \<Rightarrow> map_option (Cons c) (rx_match r s))
      else None)"

fun rx_search :: "rx_item list \<Rightarrow> bytes \<Rightarrow> bytes option" where
  "rx_search r [] = rx_match r []"
| "rx_search r (c # s) = (case rx_match r (c # s) of Some m \<Rightarrow> Some m | None \<Rightarrow> rx_search r s)"

definition digit_bytes :: bytes where
  "digit_bytes = [48, 49, 50, 51, 52, 53, 54, 55, 56, 57]"

definition UNITY_VERSION_RE :: "rx_item list" where
  "UNITY_VERSION_RE =
     [One [50], One [48], One digit_bytes, One digit_bytes, One [46], Many digit_bytes, One [46], Many digit_bytes,
      One [97, 98, 102, 112], Many digit_bytes]"

definition version_candidates :: "pystr list" where
  "version_candidates =
     [lit ''assets/bin/Data/globalgamemanagers'', lit ''assets/bin/Data/data.unity3d'',
      lit ''assets/bin/Data/Resources/unity default resources'']"

definition version_window :: nat where
  "version_window = 4 * 1024 * 1024"

fun find_version :: "zip_entry list \<Rightarrow> pystr list \<Rightarrow> pystr option result" where
  "find_version entries [] = Inr None"
| "find_version entries (name # names) =
     (if name \<notin> set (namelist entries) then find_version entries names
      else rbind (zip_read entries name) (\<lambda>d.
        case rx_search UNITY_VERSION_RE (take version_window d) of
          Some m \<Rightarrow> Inr (Some (map unat m))
        | None \<Rightarrow> find_version entries names))"

definition unity_version :: "zip_lib \<Rightarrow> fs \<Rightarrow> pystr \<Rightarrow> pystr option result" where
  "unity_version z fs path = rbind (zip_file z fs path) (\<lambda>entries. find_version entries version_candidates)"

record apk_report =
  a_apk :: pystr
  a_size :: int
  a_unity_version :: "pystr option"
  a_abis :: "pystr list"
  a_arm64_libs :: "native_lib list"
  a_metadata :: "(pystr \<times> int) list"

definition apk_report :: "zip_lib \<Rightarrow> fs \<Rightarrow> pystr \<Rightarrow> apk_report result" where
  "apk_report z fs path =
     rbind (read_bytes fs path) (\<lambda>d.
     rbind (unity_version z fs path) (\<lambda>version.
     rbind (abis z fs path) (\<lambda>as.
     rbind (native_libs z fs path (lit ''arm64-v8a'')) (\<lambda>libs.
     rbind (metadata_entries z fs path) (\<lambda>metadata.
       Inr \<lparr>a_apk = path, a_size = int (length d), a_unity_version = version, a_abis = as, a_arm64_libs = libs,
            a_metadata = metadata\<rparr>)))))"

subsection \<open>Extraction\<close>

definition arm64_payload :: "pystr list" where
  "arm64_payload =
     [lit ''lib/arm64-v8a/libil2cpp.so'', lit ''lib/arm64-v8a/libunity.so'', lit ''lib/arm64-v8a/libmain.so'']"

definition wanted_names :: "zip_entry list \<Rightarrow> pystr list" where
  "wanted_names entries =
     (let names = namelist entries; wanted = arm64_payload @ filter (\<lambda>n. ends_with n metadata_suffix) names
      in sorted_set (filter (\<lambda>n. n \<in> set names) wanted))"

fun extract_names :: "zip_entry list \<Rightarrow> pystr \<Rightarrow> fs \<Rightarrow> pystr list \<Rightarrow> fs \<times> pystr list result" where
  "extract_names entries out fs [] = (fs, Inr [])"
| "extract_names entries out fs (name # names) =
     (let target = in_dir out (path_name name) in
      case zip_read entries name of
        Inl e \<Rightarrow> (fs, Inl e)
      | Inr d \<Rightarrow>
          (case extract_names entries out (write_bytes fs target d) names of
             (fs', extracted) \<Rightarrow> (fs', rmap (Cons target) extracted)))"

definition extract_arm64 :: "zip_lib \<Rightarrow> fs \<Rightarrow> pystr \<Rightarrow> pystr \<Rightarrow> fs \<times> pystr list result" where
  "extract_arm64 z fs path out =
     (case zip_file z fs path of
        Inl e \<Rightarrow> (fs, Inl e)
      | Inr entries \<Rightarrow> extract_names entries out fs (wanted_names entries))"

end
