(* ===== verification/Apk_Correct.thy ===== *)
theory Apk_Correct
  imports Apk
begin

section \<open>Lemmas about the APK inspector\<close>

text \<open>
  The components of a name, the languages of regular expressions and what \<open>rx_match\<close> and \<open>rx_search\<close> find in
  them, and the loop of \<open>extract_arm64\<close>.
\<close>

subsection \<open>Names\<close>

lemma split_char_nonempty [simp]: "split_char c s \<noteq> []"
  by (induction s) (auto split: list.splits)

lemma split_char_none: "c \<notin> set s \<Longrightarrow> split_char c s = [s]"
  by (induction s) auto

lemma split_char_sep: "c \<notin> set p \<Longrightarrow> split_char c (p @ c # s) = p # split_char c s"
  by (induction p) auto

lemma split_char_parts: "p \<in> set (split_char c s) \<Longrightarrow> c \<notin> set p"
  by (induction s arbitrary: p) (auto split: list.splits if_splits)

lemma split_char_last: "c \<notin> set w \<Longrightarrow> \<exists>u. last (split_char c (r @ w)) = u @ w"
proof (induction r)
  case (Cons x r)
  then obtain u where u: "last (split_char c (r @ w)) = u @ w" by blast
  obtain p ps where ps: "split_char c (r @ w) = p # ps" by (cases "split_char c (r @ w)") auto
  show ?case
  proof (cases "x \<noteq> c \<and> ps = []")
    case True
    then have "last (split_char c ((x # r) @ w)) = (x # u) @ w" using u ps by simp
    then show ?thesis by blast
  next
    case False
    then have "last (split_char c ((x # r) @ w)) = last (split_char c (r @ w))" using ps by auto
    then show ?thesis using u by simp
  qed
qed (simp add: split_char_none)

text \<open>Joining the parts with the separator gives the string back.\<close>

fun join_char :: "nat \<Rightarrow> pystr list \<Rightarrow> pystr" where
  "join_char c [] = []"
| "join_char c [p] = p"
| "join_char c (p # ps) = p @ c # join_char c ps"

lemma join_char_Cons: "ps \<noteq> [] \<Longrightarrow> join_char c (p # ps) = p @ c # join_char c ps"
  by (cases ps) simp_all

lemma join_split: "join_char c (split_char c s) = s"
proof (induction s)
  case (Cons x xs)
  obtain p ps where ps: "split_char c xs = p # ps" by (cases "split_char c xs") auto
  then show ?case using Cons by (cases ps) (auto simp: join_char_Cons)
qed simp

text \<open>A name with an ordinary last component, one with the suffix of the metadata file among them.\<close>

definition plain_name :: "pystr \<Rightarrow> bool" where
  "plain_name n \<longleftrightarrow> 47 \<notin> set n \<and> n \<noteq> [] \<and> n \<noteq> lit ''.'' \<and> n \<noteq> lit ''..''"

lemma path_name_suffix:
  assumes "ends_with s suffix" and "47 \<notin> set suffix" and "length suffix > 2"
  shows "path_name s = last (split_char 47 s)" and "ends_with (path_name s) suffix" and "plain_name (path_name s)"
proof -
  let ?ps = "split_char 47 s"
  obtain u where u: "last ?ps = u @ suffix"
    using assms(1) split_char_last[OF assms(2)] by (auto simp: ends_with_append)
  have ok: "last ?ps \<noteq> []" "last ?ps \<noteq> lit ''.''" "last ?ps \<noteq> lit ''..''" using assms(3) by (auto simp: u dest!: arg_cong[where f = length])
  let ?P = "\<lambda>p. p \<noteq> [] \<and> p \<noteq> lit ''.''"
  have "filter ?P ?ps = filter ?P (butlast ?ps @ [last ?ps])" by simp
  also have "\<dots> = filter ?P (butlast ?ps) @ [last ?ps]" unfolding filter_append using ok(1,2) by simp
  finally show pn: "path_name s = last ?ps" by (simp add: path_name_def)
  show "ends_with (path_name s) suffix" using u by (auto simp: pn ends_with_append)
  have "47 \<notin> set (last ?ps)" by (rule split_char_parts[OF last_in_set]) simp
  then show "plain_name (path_name s)" using ok by (simp add: pn plain_name_def)
qed

lemma path_name_file:
  "47 \<notin> set b \<Longrightarrow> b \<noteq> [] \<Longrightarrow> b \<noteq> lit ''.'' \<Longrightarrow> path_name (d @ 47 # b) = b"
proof -
  assume b: "47 \<notin> set b" "b \<noteq> []" "b \<noteq> lit ''.''"
  have "split_char 47 (d @ 47 # b) = split_char 47 d @ [b]" for d
    by (induction d) (auto simp: split_char_none[OF b(1)] split: list.splits)
  then show ?thesis using b by (simp add: path_name_def)
qed

subsection \<open>Regular expressions\<close>

text \<open>The language of a pattern.\<close>

fun item_lang :: "rx_item \<Rightarrow> bytes set" where
  "item_lang (One P) = {[c] | c. c \<in> set P}"
| "item_lang (Many P) = {cs. cs \<noteq> [] \<and> set cs \<subseteq> set P}"

fun rx_lang :: "rx_item list \<Rightarrow> bytes set" where
  "rx_lang [] = {[]}"
| "rx_lang (i # r) = {u @ w | u w. u \<in> item_lang i \<and> w \<in> rx_lang r}"

lemma rx_langI: "u \<in> item_lang i \<Longrightarrow> w \<in> rx_lang r \<Longrightarrow> u @ w \<in> rx_lang (i # r)"
  by auto

lemma item_lang_nonempty [simp]: "[] \<notin> item_lang i"
  by (cases i) simp_all

lemma rx_lang_One: "x # u \<in> rx_lang (One P # r) \<longleftrightarrow> x \<in> set P \<and> u \<in> rx_lang r"
proof
  assume "x \<in> set P \<and> u \<in> rx_lang r"
  then show "x # u \<in> rx_lang (One P # r)" using rx_langI[of "[x]" "One P" u r] by simp
qed auto

lemma rx_lang_Many: "x # u \<in> rx_lang (Many P # r) \<longleftrightarrow> x \<in> set P \<and> (u \<in> rx_lang r \<or> u \<in> rx_lang (Many P # r))"
proof
  assume "x # u \<in> rx_lang (Many P # r)"
  then obtain cs w where cs: "x # u = cs @ w" "cs \<noteq> []" "set cs \<subseteq> set P" "w \<in> rx_lang r" by auto
  then obtain cs' where "cs = x # cs'" by (cases cs) auto
  then show "x \<in> set P \<and> (u \<in> rx_lang r \<or> u \<in> rx_lang (Many P # r))" using cs by (cases "cs' = []") auto
next
  assume a: "x \<in> set P \<and> (u \<in> rx_lang r \<or> u \<in> rx_lang (Many P # r))"
  then show "x # u \<in> rx_lang (Many P # r)"
  proof (elim conjE disjE)
    assume "x \<in> set P" "u \<in> rx_lang r"
    then show ?thesis using rx_langI[of "[x]" "Many P" u r] by simp
  next
    assume "x \<in> set P" "u \<in> rx_lang (Many P # r)"
    then obtain cs w where "u = cs @ w" "set cs \<subseteq> set P" "w \<in> rx_lang r" by auto
    then show ?thesis using \<open>x \<in> set P\<close> rx_langI[of "x # cs" "Many P" w r] by simp
  qed
qed

lemma rx_lang_empty: "[] \<in> rx_lang r \<longleftrightarrow> r = []"
  by (cases r) simp_all

text \<open>A match at a position is a prefix in the language, and there is one whenever such a prefix exists.\<close>

lemma rx_match_sound: "rx_match r s = Some m \<Longrightarrow> m \<in> rx_lang r \<and> (\<exists>v. s = m @ v)"
proof (induction r s arbitrary: m rule: rx_match.induct)
  case (3 P r c s)
  then show ?case by (auto simp: rx_lang_One simp del: rx_lang.simps split: if_splits)
next
  case (4 P r c s)
  then show ?case by (auto simp: rx_lang_Many simp del: rx_lang.simps split: if_splits option.splits)
qed simp_all

lemma rx_match_complete: "rx_match r (u @ v) = None \<Longrightarrow> u \<notin> rx_lang r"
proof (induction r "u @ v" arbitrary: u rule: rx_match.induct)
  case (1 s)
  then show ?case by simp
next
  case (2 i r)
  then show ?case by simp
next
  case (3 P r c s)
  then show ?case
    by (cases u) (auto simp: rx_lang_One rx_lang_empty simp del: rx_lang.simps split: if_splits)
next
  case (4 P r c s)
  show ?case
  proof (cases u)
    case Nil
    then show ?thesis by (simp add: rx_lang_empty del: rx_lang.simps)
  next
    case (Cons x u')
    then have x: "x = c" "s = u' @ v" using 4(3) by simp_all
    show ?thesis
    proof (cases "c \<in> set P")
      case True
      have "rx_match (Many P # r) (c # s) = None" using 4(3,4) by simp
      then have none: "rx_match (Many P # r) s = None" "rx_match r s = None"
        using True by (simp_all split: option.splits)
      show ?thesis using 4(1)[OF True x(2)] 4(2)[OF True none(1) x(2)] none
        by (simp add: Cons x rx_lang_Many del: rx_lang.simps)
    next
      case False
      then show ?thesis by (simp add: Cons x rx_lang_Many del: rx_lang.simps)
    qed
  qed
qed

text \<open>A pattern in which no repetition can run into the item behind it has one reading, the longest.\<close>

fun item_bytes :: "rx_item \<Rightarrow> bytes" where
  "item_bytes (One P) = P"
| "item_bytes (Many P) = P"

fun rx_separated :: "rx_item list \<Rightarrow> bool" where
  "rx_separated [] = True"
| "rx_separated (One P # r) = rx_separated r"
| "rx_separated (Many P # r) =
     (rx_separated r \<and> (case r of [] \<Rightarrow> True | i # _ \<Rightarrow> set P \<inter> set (item_bytes i) = {}))"

lemma rx_lang_head: "x # u \<in> rx_lang (i # r) \<Longrightarrow> x \<in> set (item_bytes i)"
  by (cases i) (auto simp: rx_lang_One rx_lang_Many simp del: rx_lang.simps)

lemma rx_match_longest:
  "rx_separated r \<Longrightarrow> rx_match r (u @ v) = Some m \<Longrightarrow> u \<in> rx_lang r \<Longrightarrow> length u \<le> length m"
proof (induction r "u @ v" arbitrary: u m rule: rx_match.induct)
  case (3 P r c s)
  then show ?case by (cases u) (auto simp: rx_lang_One simp del: rx_lang.simps split: if_splits)
next
  case (4 P r c s)
  obtain u' where u: "u = c # u'" "s = u' @ v" "c \<in> set P"
    using 4(3,5,6) by (cases u) (auto simp: rx_lang_empty simp del: rx_lang.simps split: if_splits)
  have r: "rx_separated r" using 4(4) by simp
  consider "u' \<in> rx_lang r" | "u' \<in> rx_lang (Many P # r)" using 4(6) by (auto simp: u rx_lang_Many simp del: rx_lang.simps)
  then show ?case
  proof cases
    case 1
    show ?thesis
    proof (cases "rx_match (Many P # r) s")
      case None
      then obtain m' where "rx_match r s = Some m'" "m = c # m'" using 4(5) u by auto
      then show ?thesis using 4(2)[OF u(3) None u(2) r] 1 by (simp add: u)
    next
      case (Some m')
      have "u' = []"
      proof (rule ccontr)
        assume "u' \<noteq> []"
        then obtain x w where x: "u' = x # w" by (cases u') auto
        then obtain i r' where i: "r = i # r'" using 1 by (cases r) auto
        have "x \<in> set (item_bytes i)" using 1 by (simp only: x i rx_lang_head)
        moreover have "x \<in> set P" using Some u(2) by (simp add: x split: if_splits)
        ultimately show False using 4(4) by (auto simp: i)
      qed
      then show ?thesis using Some 4(5) u by auto
    qed
  next
    case 2
    then have "rx_match (Many P # r) s \<noteq> None" using rx_match_complete[of "Many P # r" u' v] u(2) by auto
    then obtain m' where m': "rx_match (Many P # r) s = Some m'" by auto
    then show ?thesis using 4(1)[OF u(3,2) 4(4) m'[unfolded u(2)] 2] 4(5) u by auto
  qed
qed simp_all

text \<open>The search finds the leftmost match.\<close>

definition leftmost_longest :: "rx_item list \<Rightarrow> bytes \<Rightarrow> bytes \<Rightarrow> bool" where
  "leftmost_longest r s m \<longleftrightarrow> (\<exists>a v. s = a @ m @ v \<and> m \<in> rx_lang r
     \<and> (\<forall>a' u v'. s = a' @ u @ v' \<and> u \<in> rx_lang r \<longrightarrow> length a < length a' \<or> a' = a \<and> length u \<le> length m))"

definition no_match :: "rx_item list \<Rightarrow> bytes \<Rightarrow> bool" where
  "no_match r s \<longleftrightarrow> (\<forall>a u v. s = a @ u @ v \<longrightarrow> u \<notin> rx_lang r)"

lemma leftmost_longestE:
  assumes "leftmost_longest r s m"
  obtains a v where "s = a @ m @ v" "m \<in> rx_lang r"
    "\<And>a' u v'. s = a' @ u @ v' \<Longrightarrow> u \<in> rx_lang r \<Longrightarrow> length a < length a' \<or> a' = a \<and> length u \<le> length m"
  using assms unfolding leftmost_longest_def by blast

lemma rx_search_None: "rx_search r s = None \<Longrightarrow> no_match r s"
proof (induction s)
  case Nil
  then show ?case using rx_match_complete[of r "[]" "[]"] by (simp add: no_match_def)
next
  case (Cons c s)
  then have none: "rx_match r (c # s) = None" "no_match r s" by (auto split: option.splits)
  show ?case unfolding no_match_def
  proof (intro allI impI)
    fix a u v assume s: "c # s = a @ u @ v"
    show "u \<notin> rx_lang r"
    proof (cases a)
      case Nil
      then show ?thesis using none(1) s rx_match_complete[of r u v] by simp
    next
      case (Cons x a')
      then show ?thesis using none(2) s by (auto simp: no_match_def)
    qed
  qed
qed

lemma rx_search_Some:
  assumes "rx_separated r"
  shows "rx_search r s = Some m \<Longrightarrow> leftmost_longest r s m"
proof (induction s)
  case Nil
  then show ?case using rx_match_sound[of r "[]" m] by (auto simp: leftmost_longest_def)
next
  case (Cons c s)
  show ?case
  proof (cases "rx_match r (c # s)")
    case (Some m')
    then have m: "rx_match r (c # s) = Some m" using Cons.prems by simp
    then obtain v where v: "c # s = [] @ m @ v" "m \<in> rx_lang r" using rx_match_sound[OF m] by auto
    have "length ([] :: bytes) < length a' \<or> a' = [] \<and> length u \<le> length m" if "c # s = a' @ u @ v'" "u \<in> rx_lang r" for a' u v'
      using rx_match_longest[OF assms, of u v' m] m that by (cases a') auto
    then show ?thesis using v unfolding leftmost_longest_def by blast
  next
    case None
    then have "leftmost_longest r s m" using Cons by simp
    then obtain a v where a: "s = a @ m @ v" "m \<in> rx_lang r"
      and first: "\<And>a' u v'. s = a' @ u @ v' \<Longrightarrow> u \<in> rx_lang r \<Longrightarrow> length a < length a' \<or> a' = a \<and> length u \<le> length m"
      by (rule leftmost_longestE) blast
    have "length (c # a) < length a' \<or> a' = c # a \<and> length u \<le> length m" if "c # s = a' @ u @ v'" "u \<in> rx_lang r" for a' u v'
    proof (cases a')
      case Nil
      then show ?thesis using that None rx_match_complete[of r u v'] by simp
    next
      case (Cons x b)
      then show ?thesis using first[of b u v'] that by auto
    qed
    moreover have "c # s = (c # a) @ m @ v" using a(1) by simp
    ultimately show ?thesis using a(2) unfolding leftmost_longest_def by blast
  qed
qed

lemma leftmost_longest_unique: "leftmost_longest r s m \<Longrightarrow> leftmost_longest r s n \<Longrightarrow> m = n"
proof (elim leftmost_longestE)
  fix a v b w
  assume m: "s = a @ m @ v" "m \<in> rx_lang r"
      "\<And>a' u v'. s = a' @ u @ v' \<Longrightarrow> u \<in> rx_lang r \<Longrightarrow> length a < length a' \<or> a' = a \<and> length u \<le> length m"
    and n: "s = b @ n @ w" "n \<in> rx_lang r"
      "\<And>a' u v'. s = a' @ u @ v' \<Longrightarrow> u \<in> rx_lang r \<Longrightarrow> length b < length a' \<or> a' = b \<and> length u \<le> length n"
  have "a = b" "length m = length n" using m(3)[OF n(1,2)] n(3)[OF m(1,2)] by auto
  then show "m = n" using m(1) n(1) by simp
qed

lemma rx_search_iff:
  assumes "rx_separated r"
  shows "rx_search r s = Some m \<longleftrightarrow> leftmost_longest r s m" and "rx_search r s = None \<longleftrightarrow> no_match r s"
proof -
  have excl: "\<not> no_match r s" if l: "leftmost_longest r s n" for n
  proof -
    obtain a v where "s = a @ n @ v" "n \<in> rx_lang r" using l unfolding leftmost_longest_def by (elim exE conjE)
    then show ?thesis unfolding no_match_def by metis
  qed
  show "rx_search r s = Some m \<longleftrightarrow> leftmost_longest r s m"
  proof
    assume l: "leftmost_longest r s m"
    show "rx_search r s = Some m"
    proof (cases "rx_search r s")
      case None
      then show ?thesis using excl[OF l] rx_search_None[OF None] by blast
    next
      case (Some n)
      then show ?thesis using leftmost_longest_unique[OF l rx_search_Some[OF assms Some]] by simp
    qed
  qed (rule rx_search_Some[OF assms])
  show "rx_search r s = None \<longleftrightarrow> no_match r s"
  proof
    assume n: "no_match r s"
    show "rx_search r s = None"
      using excl[OF rx_search_Some[OF assms]] n by (cases "rx_search r s") simp_all
  qed (rule rx_search_None)
qed

lemma version_separated: "rx_separated UNITY_VERSION_RE"
  by (simp add: UNITY_VERSION_RE_def digit_bytes_def)

text \<open>The versions: \<open>20\<close>, two digits, two numbers behind dots, a release letter and a number.\<close>

lemma rx_lang_OneD: "m \<in> rx_lang (One P # r) \<longleftrightarrow> (\<exists>c w. m = c # w \<and> c \<in> set P \<and> w \<in> rx_lang r)"
  by (cases m) (simp_all add: rx_lang_One rx_lang_empty del: rx_lang.simps)

lemma rx_lang_ManyD: "m \<in> rx_lang (Many P # r) \<longleftrightarrow> (\<exists>a w. m = a @ w \<and> a \<noteq> [] \<and> set a \<subseteq> set P \<and> w \<in> rx_lang r)"
  by auto

lemma version_lang:
  "m \<in> rx_lang UNITY_VERSION_RE \<longleftrightarrow> (\<exists>y1 y2 a b k c. m = [50, 48, y1, y2, 46] @ a @ [46] @ b @ [k] @ c
     \<and> {y1, y2} \<subseteq> set digit_bytes \<and> k \<in> {97, 98, 102, 112} \<and> a \<noteq> [] \<and> b \<noteq> [] \<and> c \<noteq> []
     \<and> set a \<subseteq> set digit_bytes \<and> set b \<subseteq> set digit_bytes \<and> set c \<subseteq> set digit_bytes)"
  (is "?l = ?r")
proof
  assume ?l
  then obtain y1 y2 w where m: "m = [50, 48, y1, y2, 46] @ w" "{y1, y2} \<subseteq> set digit_bytes"
    "w \<in> rx_lang [Many digit_bytes, One [46], Many digit_bytes, One [97, 98, 102, 112], Many digit_bytes]"
    unfolding UNITY_VERSION_RE_def by (auto simp: rx_lang_OneD simp del: rx_lang.simps)
  from m(3) obtain a w1 where a: "w = a @ w1" "a \<noteq> []" "set a \<subseteq> set digit_bytes"
    "w1 \<in> rx_lang [One [46], Many digit_bytes, One [97, 98, 102, 112], Many digit_bytes]"
    unfolding rx_lang_ManyD[of w] by blast
  from a(4) obtain w2 where w2: "w1 = [46] @ w2" "w2 \<in> rx_lang [Many digit_bytes, One [97, 98, 102, 112], Many digit_bytes]"
    unfolding rx_lang_OneD[of w1] by (auto simp del: rx_lang.simps)
  from w2(2) obtain b w3 where b: "w2 = b @ w3" "b \<noteq> []" "set b \<subseteq> set digit_bytes"
    "w3 \<in> rx_lang [One [97, 98, 102, 112], Many digit_bytes]"
    unfolding rx_lang_ManyD[of w2] by blast
  from b(4) obtain k c where k: "w3 = [k] @ c" "k \<in> {97, 98, 102, 112}" "c \<in> rx_lang [Many digit_bytes]"
    unfolding rx_lang_OneD[of w3] by (auto simp del: rx_lang.simps)
  have "c \<noteq> [] \<and> set c \<subseteq> set digit_bytes" using k(3) by simp
  moreover have "m = [50, 48, y1, y2, 46] @ a @ [46] @ b @ [k] @ c" by (simp add: m(1) a(1) w2(1) b(1) k(1))
  ultimately show ?r using m(2) a(2,3) b(2,3) k(2) by blast
next
  assume ?r
  then obtain y1 y2 a b k c where m: "m = [50, 48, y1, y2, 46] @ a @ [46] @ b @ [k] @ c"
    and d: "{y1, y2} \<subseteq> set digit_bytes" "k \<in> {97, 98, 102, 112}" "a \<noteq> []" "b \<noteq> []" "c \<noteq> []"
      "set a \<subseteq> set digit_bytes" "set b \<subseteq> set digit_bytes" "set c \<subseteq> set digit_bytes"
    by blast
  have many: "u \<noteq> [] \<Longrightarrow> set u \<subseteq> set P \<Longrightarrow> w \<in> rx_lang r \<Longrightarrow> u @ w \<in> rx_lang (Many P # r)" for u w P r
    unfolding rx_lang_ManyD by blast
  have "c \<in> rx_lang [Many digit_bytes]" using many[OF d(5,8), of "[]" "[]"] by simp
  then have "b @ k # c \<in> rx_lang [Many digit_bytes, One [97, 98, 102, 112], Many digit_bytes]"
    using d(2) by (intro many[OF d(4,7)]) (simp add: rx_lang_One del: rx_lang.simps)
  then have "a @ 46 # b @ k # c \<in> rx_lang [Many digit_bytes, One [46], Many digit_bytes, One [97, 98, 102, 112], Many digit_bytes]"
    by (intro many[OF d(3,6)]) (simp add: rx_lang_One del: rx_lang.simps)
  then show ?l using d(1) by (simp add: m UNITY_VERSION_RE_def rx_lang_One del: rx_lang.simps)
qed

definition no_version :: "zip_entry list \<Rightarrow> pystr \<Rightarrow> bool" where
  "no_version entries c \<longleftrightarrow> c \<notin> set (namelist entries)
     \<or> (\<exists>d. zip_read entries c = Inr d \<and> no_match UNITY_VERSION_RE (take version_window d))"

lemma find_version_cases:
  "case find (\<lambda>c. \<not> no_version entries c) cs of
     None \<Rightarrow> find_version entries cs = Inr None
   | Some c \<Rightarrow> (\<exists>x. zip_read entries c = Inl x \<and> find_version entries cs = Inl x)
       \<or> (\<exists>d m. zip_read entries c = Inr d \<and> leftmost_longest UNITY_VERSION_RE (take version_window d) m
            \<and> find_version entries cs = Inr (Some (map unat m)))"
proof (induction cs)
  case (Cons c cs)
  note search = rx_search_iff[OF version_separated]
  show ?case
  proof (cases "no_version entries c")
    case True
    then have "find_version entries (c # cs) = find_version entries cs"
      by (auto simp: no_version_def search(2)[symmetric])
    moreover have "find (\<lambda>c. \<not> no_version entries c) (c # cs) = find (\<lambda>c. \<not> no_version entries c) cs" using True by simp
    ultimately show ?thesis using Cons by (simp only:)
  next
    case False
    then have c: "c \<in> set (namelist entries)" by (simp add: no_version_def)
    show ?thesis
    proof (cases "zip_read entries c")
      case (Inr d)
      then obtain m where m: "rx_search UNITY_VERSION_RE (take version_window d) = Some m"
        using False by (auto simp: no_version_def search(2)[symmetric])
      then have "leftmost_longest UNITY_VERSION_RE (take version_window d) m" by (simp add: search(1))
      then show ?thesis using False c Inr m by simp
    qed (use False c in simp)
  qed
qed simp

subsection \<open>Queries and extraction\<close>

lemma abi_of_prefix:
  assumes "47 \<notin> set abi"
  shows "abi \<in> set (abi_of n) \<longleftrightarrow> starts_with n (lit ''lib/'' @ abi @ lit ''/'') \<and> ends_with n so_suffix"
proof -
  have prefix: "lit ''lib/'' @ abi @ lit ''/'' = lit ''lib'' @ 47 # abi @ [47]" by (simp add: lit_simps)
  have lib: "47 \<notin> set (lit ''lib'')" by (simp add: lit_simps)
  show ?thesis
  proof
    assume a: "abi \<in> set (abi_of n)"
    then have p: "length (split_char 47 n) \<ge> 3" "split_char 47 n ! 0 = lit ''lib''" "split_char 47 n ! 1 = abi" "ends_with n so_suffix"
      by (auto simp: abi_of_def Let_def split: if_splits)
    then obtain p2 ps where "split_char 47 n = lit ''lib'' # abi # p2 # ps"
      by (auto simp: numeral_3_eq_3 Suc_le_length_iff)
    then have "n = lit ''lib'' @ 47 # abi @ 47 # join_char 47 (p2 # ps)"
      using join_split[of 47 n] by simp
    then show "starts_with n (lit ''lib/'' @ abi @ lit ''/'') \<and> ends_with n so_suffix"
      using p(4) unfolding prefix by (simp add: starts_with_append)
  next
    assume s: "starts_with n (lit ''lib/'' @ abi @ lit ''/'') \<and> ends_with n so_suffix"
    then obtain r where "n = lit ''lib'' @ 47 # abi @ 47 # r" unfolding prefix by (auto simp: starts_with_append)
    then have "split_char 47 n = lit ''lib'' # abi # split_char 47 r"
      by (simp add: split_char_sep lib assms)
    moreover have "split_char 47 r \<noteq> []" by simp
    ultimately show "abi \<in> set (abi_of n)" using s by (cases "split_char 47 r") (simp_all add: abi_of_def)
  qed
qed

lemma set_wanted_names:
  "set (wanted_names entries) = {n \<in> set (namelist entries). n \<in> set arm64_payload \<or> ends_with n metadata_suffix}"
  by (auto simp: wanted_names_def Let_def)

lemma payload_names: "path_name ` set arm64_payload = {lit ''libil2cpp.so'', lit ''libunity.so'', lit ''libmain.so''}"
proof -
  have "map path_name arm64_payload = [lit ''libil2cpp.so'', lit ''libunity.so'', lit ''libmain.so'']" by code_simp
  then have "set (map path_name arm64_payload) = set [lit ''libil2cpp.so'', lit ''libunity.so'', lit ''libmain.so'']" by (rule arg_cong)
  then show ?thesis by simp
qed

lemma extract_frame: "q \<notin> in_dir out ` path_name ` set names \<Longrightarrow> fst (extract_names entries out fs names) q = fs q"
proof (induction names arbitrary: fs)
  case (Cons n names)
  then show ?case by (auto simp: Let_def write_bytes_apply split: sum.splits prod.splits) (metis fst_conv write_bytes_apply)
qed simp

text \<open>The extraction changes plain names below the output directory only.\<close>

lemma extract_target:
  "fst (extract_arm64 z fs path out) q = fs q
   \<or> (\<exists>b. q = in_dir out b \<and> plain_name b
        \<and> (b \<in> {lit ''libil2cpp.so'', lit ''libunity.so'', lit ''libmain.so''} \<or> ends_with b metadata_suffix))"
proof (cases "zip_file z fs path")
  case (Inr entries)
  let ?ns = "wanted_names entries"
  have meta: "47 \<notin> set metadata_suffix" "length metadata_suffix > 2" by (simp_all add: metadata_suffix_def lit_simps)
  have lib: "plain_name b" if "b \<in> {lit ''libil2cpp.so'', lit ''libunity.so'', lit ''libmain.so''}" for b
    using that by (auto simp: plain_name_def lit_simps)
  show ?thesis
  proof (cases "q \<in> in_dir out ` path_name ` set ?ns")
    case True
    then obtain n where n: "q = in_dir out (path_name n)" "n \<in> set ?ns" by blast
    then consider "n \<in> set arm64_payload" | "ends_with n metadata_suffix" by (auto simp: set_wanted_names)
    then show ?thesis
    proof cases
      case 1
      then have "path_name n \<in> {lit ''libil2cpp.so'', lit ''libunity.so'', lit ''libmain.so''}"
        using payload_names by blast
      then show ?thesis using n(1) lib by blast
    next
      case 2
      then show ?thesis using n(1) path_name_suffix[OF 2 meta] by blast
    qed
  next
    case False
    then show ?thesis using extract_frame[of q out ?ns entries fs] Inr by (simp add: extract_arm64_def)
  qed
qed (simp add: extract_arm64_def)

interpretation apk: file_op "\<lambda>fs. extract_arm64 z fs path out" "in_dir out ` Collect plain_name" for z path out
  by unfold_locales (use extract_target in blast)

lemma extract_all:
  assumes "\<forall>n \<in> set names. \<exists>d. zip_read entries n = Inr d" and "sorted names" and "distinct names"
  shows "\<exists>fs'. extract_names entries out fs names = (fs', Inr (map (\<lambda>n. in_dir out (path_name n)) names))
    \<and> (\<forall>n \<in> set names. (\<forall>k \<in> set names. path_name k = path_name n \<longrightarrow> k \<le> n)
         \<longrightarrow> (\<exists>d. zip_read entries n = Inr d \<and> fs' (in_dir out (path_name n)) = Some d))"
  using assms
proof (induction names arbitrary: fs)
  case (Cons m names)
  obtain d where d: "zip_read entries m = Inr d" using Cons.prems(1) by auto
  let ?fs = "write_bytes fs (in_dir out (path_name m)) d"
  have rest: "\<forall>n \<in> set names. \<exists>d. zip_read entries n = Inr d" "sorted names" "distinct names"
    using Cons.prems by simp_all
  obtain fs' where fs': "extract_names entries out ?fs names = (fs', Inr (map (\<lambda>n. in_dir out (path_name n)) names))"
    "\<forall>n \<in> set names. (\<forall>k \<in> set names. path_name k = path_name n \<longrightarrow> k \<le> n)
         \<longrightarrow> (\<exists>d. zip_read entries n = Inr d \<and> fs' (in_dir out (path_name n)) = Some d)"
    using Cons.IH[of ?fs] rest by blast
  have contents: "\<exists>d. zip_read entries n = Inr d \<and> fs' (in_dir out (path_name n)) = Some d"
    if n: "n \<in> set (m # names)" "\<forall>k \<in> set (m # names). path_name k = path_name n \<longrightarrow> k \<le> n" for n
  proof (cases "n \<in> set names")
    case True
    then show ?thesis using fs'(2) n(2) by simp
  next
    case False
    then have nm: "n = m" using n(1) by simp
    have "path_name n \<notin> path_name ` set names"
    proof
      assume "path_name n \<in> path_name ` set names"
      then obtain k where k: "path_name n = path_name k" "k \<in> set names" by (rule imageE)
      then have "k \<le> m" "m \<le> k" using n(2) Cons.prems(2) by (simp_all add: nm)
      then show False using k(2) Cons.prems(3) by simp
    qed
    then have "in_dir out (path_name n) \<notin> in_dir out ` path_name ` set names" by (simp add: inj_image_mem_iff inj_def)
    then have "fs' (in_dir out (path_name n)) = ?fs (in_dir out (path_name n))"
      using extract_frame[of _ out names entries ?fs] fs'(1) by simp
    then show ?thesis using d by (simp add: nm write_bytes_apply)
  qed
  have "extract_names entries out fs (m # names) = (fs', Inr (map (\<lambda>n. in_dir out (path_name n)) (m # names)))"
    using fs'(1) d by (simp add: Let_def)
  then show ?case using contents by blast
qed simp

text \<open>The first member that cannot be read ends the extraction; the files of the names before it stay.\<close>

lemma extract_names_append:
  "extract_names entries out fs (pre @ post) =
     (case extract_names entries out fs pre of
        (fs', Inl e) \<Rightarrow> (fs', Inl e)
      | (fs', Inr ts) \<Rightarrow> (case extract_names entries out fs' post of (fs'', r) \<Rightarrow> (fs'', rmap ((@) ts) r)))"
proof (induction pre arbitrary: fs)
  case Nil
  have "rmap ((@) []) r = r" for r :: "pystr list result" by (cases r) simp_all
  then show ?case by (simp split: prod.splits)
next
  case (Cons n pre)
  have comp: "rmap (Cons t) (rmap ((@) ts) r) = rmap ((@) (t # ts)) r" for t ts and r :: "pystr list result" by (cases r) simp_all
  show ?case by (auto simp: Let_def Cons comp split: sum.splits prod.splits)
qed

end
