(* ===== verification/Shim_Phdrs.thy ===== *)
theory Shim_Phdrs
  imports Shim_Correct Apk_Correct Demo
begin

section \<open>The program headers of the scaffold\<close>

text \<open>
  A reader for the lines of the table \<open>elf_phdr_compat.c\<close> initialises, and the theorem that it gets the program
  headers of the ELF file back: what \<open>dl_iterate_phdr\<close> of the shim reports to the translated library.
\<close>

text \<open>A decimal literal with suffix \<open>u\<close>, or a hexadecimal one with suffix \<open>ULL\<close>, behind an optional blank.\<close>

definition c_literal :: "pystr \<Rightarrow> int option" where
  "c_literal s =
     (let w = dropWhile (\<lambda>c. c = 32) s in
      if starts_with w (lit ''0x'') then
        (let ds = takeWhile (\<lambda>c. digit_value c \<noteq> None) (drop 2 w) in
         case digits_value 0 ds of
           Inl _ \<Rightarrow> None
         | Inr v \<Rightarrow> if ds \<noteq> [] \<and> drop (2 + length ds) w = lit ''ULL'' then Some v else None)
      else (case read_nat w of None \<Rightarrow> None | Some (v, rest) \<Rightarrow> if rest = lit ''u'' then Some v else None))"

fun all_some :: "'a option list \<Rightarrow> 'a list option" where
  "all_some [] = Some []"
| "all_some (None # xs) = None"
| "all_some (Some x # xs) = map_option (Cons x) (all_some xs)"

text \<open>A line of the table: an indented initialiser in braces, with a comma behind it.\<close>

definition read_initialiser :: "pystr \<Rightarrow> int list option" where
  "read_initialiser l =
     (if starts_with l (lit ''    {'') \<and> ends_with l (lit ''},'')
      then all_some (map c_literal (split_char 44 (take (length l - 7) (drop 5 l)))) else None)"

lemma c_literal_dec: "0 \<le> n \<Longrightarrow> c_literal (py_dec n @ lit ''u'') = Some n"
proof -
  assume n: "0 \<le> n"
  obtain d ds where ds: "digits 10 (nat n) = d # ds" by (cases "digits 10 (nat n)") auto
  then have d: "d < 10" "\<forall>d \<in> set (d # ds). d < 10" using digits_less[of 10 _ "nat n"] by auto
  have s: "py_dec n = digit_char d # map digit_char ds" using n ds by (simp add: py_dec_def)
  have nx: "map digit_char ds @ lit ''u'' \<noteq> 120 # t" for t using d(2) by (cases ds) (auto simp: lit_simps digit_char_def)
  have "\<not> starts_with (py_dec n @ lit ''u'') (lit ''0x'')"
    using nx by (auto simp: s starts_with_append lit_simps)
  moreover have "read_nat (py_dec n @ lit ''u'') = Some (n, lit ''u'')"
    using read_nat_back[of "lit ''u''" "nat n"] n by (simp add: py_dec_def ends_number_def is_digit_def lit_simps)
  moreover have "dropWhile (\<lambda>c. c = 32) (py_dec n @ lit ''u'') = py_dec n @ lit ''u''" using d(1) by (simp add: s digit_char_def)
  ultimately show ?thesis by (simp add: c_literal_def)
qed

lemma c_literal_hex: "0 \<le> n \<Longrightarrow> c_literal (lit ''0x'' @ py_x n @ lit ''ULL'') = Some n"
proof -
  assume n: "0 \<le> n"
  let ?ds = "map digit_char (digits 16 (nat n))"
  have x: "py_x n = ?ds" using n by (simp add: py_x_def)
  have "digit_value c \<noteq> None" if "c \<in> set ?ds" for c
    using that digits_less[of 16 _ "nat n"] by (auto simp: digit_value_char)
  moreover have "digit_value 85 = None" by (simp add: digit_value_def)
  ultimately have ds: "takeWhile (\<lambda>c. digit_value c \<noteq> None) (?ds @ lit ''ULL'') = ?ds"
    by (subst takeWhile_append2) (simp_all add: lit_simps)
  have w: "dropWhile (\<lambda>c. c = 32) (lit ''0x'' @ t) = lit ''0x'' @ t" for t by (simp add: lit_simps)
  have "drop 2 (lit ''0x'' @ t) = t" "drop (2 + length ?ds) (lit ''0x'' @ ?ds @ t) = t" for t by simp_all
  then show ?thesis
    using n ds digits_value_digits[of "nat n"] by (simp add: c_literal_def x w starts_with_append Let_def del: dropWhile.simps)
qed

lemma c_literal_blank: "c_literal (32 # s) = c_literal s"
  by (simp add: c_literal_def)

text \<open>No literal contains a comma.\<close>

lemma no_comma: "44 \<notin> set (py_dec n)" "44 \<notin> set (py_x n)"
  by (auto simp: py_dec_def py_x_def lit_simps digit_char_def split: if_splits)

lemma split_fields:
  "\<forall>f \<in> set (f # fs). 44 \<notin> set f \<Longrightarrow> split_char 44 (f @ concat (map (\<lambda>g. 44 # 32 # g) fs)) = f # map (Cons 32) fs"
proof (induction fs arbitrary: f)
  case Nil
  then show ?case by (simp add: split_char_none)
next
  case (Cons g fs)
  have "split_char 44 ((32 # g) @ concat (map (\<lambda>g. 44 # 32 # g) fs)) = (32 # g) # map (Cons 32) fs"
    using Cons.IH[of g] Cons.prems by simp
  then show ?case using split_char_sep[of 44 f] Cons.prems by simp
qed

text \<open>The eight fields of an entry; the physical address is the virtual one.\<close>

definition phdr_values :: "program_header \<Rightarrow> int list" where
  "phdr_values ph = [p_type ph, p_flags ph, p_offset ph, p_vaddr ph, p_vaddr ph, p_filesz ph, p_memsz ph, p_align ph]"

definition phdr_literals :: "program_header \<Rightarrow> pystr list" where
  "phdr_literals ph =
     [py_dec (p_type ph) @ lit ''u'', py_dec (p_flags ph) @ lit ''u'', lit ''0x'' @ py_x (p_offset ph) @ lit ''ULL'',
      lit ''0x'' @ py_x (p_vaddr ph) @ lit ''ULL'', lit ''0x'' @ py_x (p_vaddr ph) @ lit ''ULL'',
      lit ''0x'' @ py_x (p_filesz ph) @ lit ''ULL'', lit ''0x'' @ py_x (p_memsz ph) @ lit ''ULL'',
      lit ''0x'' @ py_x (p_align ph) @ lit ''ULL'']"

lemma phdr_entry_fields:
  "phdr_entry ph = lit ''    {'' @ (hd (phdr_literals ph) @ concat (map (\<lambda>g. 44 # 32 # g) (tl (phdr_literals ph)))) @ lit ''},''"
  by (simp add: phdr_entry_def phdr_literals_def lit_simps)

lemma all_some_map: "\<forall>x \<in> set xs. f x = Some (g x) \<Longrightarrow> all_some (map f xs) = Some (map g xs)"
  by (induction xs) simp_all

lemma read_phdr_entry: "\<forall>v \<in> set (phdr_values ph). 0 \<le> v \<Longrightarrow> read_initialiser (phdr_entry ph) = Some (phdr_values ph)"
proof -
  assume nn: "\<forall>v \<in> set (phdr_values ph). 0 \<le> v"
  let ?fs = "phdr_literals ph"
  let ?body = "hd ?fs @ concat (map (\<lambda>g. 44 # 32 # g) (tl ?fs))"
  have fs: "?fs = hd ?fs # tl ?fs" by (simp add: phdr_literals_def)
  have "\<forall>f \<in> set (hd ?fs # tl ?fs). 44 \<notin> set f"
    unfolding fs[symmetric] by (simp add: phdr_literals_def no_comma) (simp add: lit_simps)
  then have split: "split_char 44 ?body = hd ?fs # map (Cons 32) (tl ?fs)" by (rule split_fields)
  have "map c_literal ?fs = map Some (phdr_values ph)"
    using nn by (simp add: phdr_literals_def phdr_values_def c_literal_dec c_literal_hex)
  moreover have "map c_literal (hd ?fs # map (Cons 32) (tl ?fs)) = map c_literal (hd ?fs # tl ?fs)"
    by (simp add: c_literal_blank comp_def)
  ultimately have vals: "map c_literal (split_char 44 ?body) = map Some (phdr_values ph)" by (simp only: split fs[symmetric])
  have "all_some (map Some xs) = Some xs" for xs :: "int list" by (induction xs) simp_all
  moreover have "take (length (phdr_entry ph) - 7) (drop 5 (phdr_entry ph)) = ?body" by (simp add: phdr_entry_fields)
  moreover have "starts_with (phdr_entry ph) (lit ''    {'')" "ends_with (phdr_entry ph) (lit ''},'')"
    by (auto simp: phdr_entry_fields starts_with_append ends_with_append intro!: exI[of _ "lit ''    {'' @ ?body"])
  ultimately show ?thesis by (simp add: read_initialiser_def vals)
qed

text \<open>
  C23. The table of program headers in the generated \<open>elf_phdr_compat.c\<close> is the one of the ELF file: between the
  fixed head and tail of the file there is one line per program header, in order, and reading its C literals
  gives type, flags, offset, address (twice, the physical address is not kept), sizes and alignment.
\<close>

theorem phdr_table:
  assumes "parse_elf d source = Inr e" and "program_headers e \<noteq> []"
  shows "\<exists>ls. elf_phdr_compat_source e = phdr_compat_head @ concat (map (\<lambda>l. l @ [10]) ls) @ phdr_compat_tail
    \<and> map read_initialiser ls =
        map (\<lambda>ph. Some [p_type ph, p_flags ph, p_offset ph, p_vaddr ph, p_vaddr ph, p_filesz ph, p_memsz ph, p_align ph])
          (program_headers e)"
proof -
  have "list_all phdr_ok (program_headers e)" using parse_elf_wf(1)[OF assms(1)] by (simp add: elf_wf_def)
  then have "\<forall>ph \<in> set (program_headers e). \<forall>v \<in> set (phdr_values ph). 0 \<le> v"
    by (auto simp: list_all_iff phdr_ok_def phdr_values_def)
  then have "map read_initialiser (map phdr_entry (program_headers e)) = map (\<lambda>ph. Some (phdr_values ph)) (program_headers e)"
    by (simp add: read_phdr_entry)
  moreover have "join_lines ls @ 10 # t = concat (map (\<lambda>l. l @ [10]) ls) @ t" if "ls \<noteq> []" for ls t
    using that by (induction ls rule: join_lines.induct) simp_all
  then have "elf_phdr_compat_source e = phdr_compat_head @ concat (map (\<lambda>l. l @ [10]) (map phdr_entry (program_headers e))) @ phdr_compat_tail"
    using assms(2) by (simp add: elf_phdr_compat_source_def)
  ultimately show ?thesis unfolding phdr_values_def by blast
qed

lemma phdr_table_witness:
  "\<exists>ls. elf_phdr_compat_source demo_elf = phdr_compat_head @ concat (map (\<lambda>l. l @ [10]) ls) @ phdr_compat_tail
    \<and> length ls = length (program_headers demo_elf)"
proof -
  have "program_headers demo_elf \<noteq> []" by code_simp
  from phdr_table[OF demo_parsed this] obtain ls where
    ls: "elf_phdr_compat_source demo_elf = phdr_compat_head @ concat (map (\<lambda>l. l @ [10]) ls) @ phdr_compat_tail"
      "map read_initialiser ls =
        map (\<lambda>ph. Some [p_type ph, p_flags ph, p_offset ph, p_vaddr ph, p_vaddr ph, p_filesz ph, p_memsz ph, p_align ph])
          (program_headers demo_elf)"
    by (elim exE conjE)
  have "length ls = length (program_headers demo_elf)" using arg_cong[OF ls(2), of length] by simp
  then show ?thesis using ls(1) by blast
qed

end
