(* ===== verification/Apk_Props.thy ===== *)
theory Apk_Props
  imports Apk_Correct
begin

section \<open>The properties of the APK inspector\<close>

text \<open>
  The theorems about \<open>apk.py\<close>: where the extraction writes and what, the version it finds, and how the queries
  of the report agree.
\<close>

subsection \<open>Extraction\<close>

text \<open>
  C24. Extraction stays inside the output directory whatever the names of the members are: the only paths whose
  contents can change are \<open>out/b\<close> for a single component \<open>b\<close> that is neither empty nor a dot name, and \<open>b\<close> is
  one of the three libraries or ends like the metadata file.
\<close>

theorem extract_confined:
  "fst (extract_arm64 z fs path out) q = fs q
   \<or> (\<exists>b. q = in_dir out b \<and> plain_name b
        \<and> (b \<in> {lit ''libil2cpp.so'', lit ''libunity.so'', lit ''libmain.so''} \<or> ends_with b metadata_suffix))"
  by (rule extract_target)

text \<open>
  C26. When the wanted members can be read, extraction returns the targets in the order of the member names, and each
  target holds the contents of a member: the three libraries and the metadata files that are in the archive are
  the wanted ones, and where several have the same base name only the contents of the greatest name remain.
\<close>

theorem extract_contents:
  assumes "zip_file z fs path = Inr entries" and "\<forall>n \<in> set (wanted_names entries). \<exists>d. zip_read entries n = Inr d"
  shows "set (wanted_names entries) = {n \<in> set (namelist entries). n \<in> set arm64_payload \<or> ends_with n metadata_suffix}
    \<and> (\<exists>fs'. extract_arm64 z fs path out = (fs', Inr (map (\<lambda>n. in_dir out (path_name n)) (wanted_names entries)))
      \<and> (\<forall>n \<in> set (wanted_names entries). (\<forall>k \<in> set (wanted_names entries). path_name k = path_name n \<longrightarrow> k \<le> n)
           \<longrightarrow> (\<exists>d. zip_read entries n = Inr d \<and> fs' (in_dir out (path_name n)) = Some d)))"
proof -
  have "sorted (wanted_names entries)" "distinct (wanted_names entries)" by (simp_all add: wanted_names_def Let_def)
  from extract_all[OF assms(2) this, of out fs] show ?thesis
    by (simp add: set_wanted_names extract_arm64_def assms(1))
qed

text \<open>An archive with two metadata files, one under a name that climbs out of a directory.\<close>

definition demo_entry :: "string \<Rightarrow> bytes \<Rightarrow> zip_entry" where
  "demo_entry name d = \<lparr>z_filename = lit name, z_file_size = int (length d), z_data = Inr d\<rparr>"

definition demo_entries :: "zip_entry list" where
  "demo_entries =
     [demo_entry ''lib/arm64-v8a/libil2cpp.so'' [1, 2], demo_entry ''lib/x86/libunity.so'' [3],
      demo_entry ''../global-metadata.dat'' [4], demo_entry ''a/global-metadata.dat'' [5, 6],
      demo_entry ''assets/bin/Data/data.unity3d'' [0, 50, 48, 50, 49, 46, 51, 46, 52, 53, 102, 49, 0]]"

definition demo_zip :: zip_lib where
  "demo_zip = \<lparr>is_zip = (\<lambda>d. d \<noteq> []), zip_entries = (\<lambda>d. if d = [] then Inl BadZipFile else Inr demo_entries)\<rparr>"

definition demo_fs :: fs where
  "demo_fs = [lit ''a.apk'' \<mapsto> [80]]"

lemma demo_zip_file: "zip_file demo_zip demo_fs (lit ''a.apk'') = Inr demo_entries"
  by (simp add: zip_file_def demo_fs_def read_bytes_def demo_zip_def)

lemma demo_wanted: "wanted_names demo_entries =
  [lit ''../global-metadata.dat'', lit ''a/global-metadata.dat'', lit ''lib/arm64-v8a/libil2cpp.so'']"
  by code_simp

lemma demo_path_names:
  "path_name (lit ''../global-metadata.dat'') = lit ''global-metadata.dat''"
  "path_name (lit ''a/global-metadata.dat'') = lit ''global-metadata.dat''"
  "path_name (lit ''lib/arm64-v8a/libil2cpp.so'') = lit ''libil2cpp.so''"
  by (simp_all add: path_name_def lit_simps)

lemma demo_reads:
  "zip_read demo_entries (lit ''../global-metadata.dat'') = Inr [4]"
  "zip_read demo_entries (lit ''a/global-metadata.dat'') = Inr [5, 6]"
  "zip_read demo_entries (lit ''lib/arm64-v8a/libil2cpp.so'') = Inr [1, 2]"
  by (simp_all add: zip_read_def demo_entries_def demo_entry_def)

lemma extract_contents_witness:
  "\<exists>fs'. extract_arm64 demo_zip demo_fs (lit ''a.apk'') (lit ''o'') =
     (fs', Inr (map (in_dir (lit ''o'')) [lit ''global-metadata.dat'', lit ''global-metadata.dat'', lit ''libil2cpp.so'']))
   \<and> fs' (in_dir (lit ''o'') (lit ''global-metadata.dat'')) = Some [5, 6]"
proof -
  have ok: "\<forall>n \<in> set (wanted_names demo_entries). \<exists>d. zip_read demo_entries n = Inr d" by (simp add: demo_wanted demo_reads)
  obtain fs' where fs': "extract_arm64 demo_zip demo_fs (lit ''a.apk'') (lit ''o'')
      = (fs', Inr (map (\<lambda>n. in_dir (lit ''o'') (path_name n)) (wanted_names demo_entries)))"
    "\<forall>n \<in> set (wanted_names demo_entries). (\<forall>k \<in> set (wanted_names demo_entries). path_name k = path_name n \<longrightarrow> k \<le> n)
      \<longrightarrow> (\<exists>d. zip_read demo_entries n = Inr d \<and> fs' (in_dir (lit ''o'') (path_name n)) = Some d)"
    using extract_contents[OF demo_zip_file ok, of "lit ''o''"] by blast
  have le: "lit ''../global-metadata.dat'' \<le> lit ''a/global-metadata.dat''" by (simp add: lit_simps)
  have "fs' (in_dir (lit ''o'') (lit ''global-metadata.dat'')) = Some [5, 6]"
    using fs'(2) le by (simp add: demo_wanted demo_path_names demo_reads)
  then show ?thesis using fs'(1) by (simp add: demo_wanted demo_path_names)
qed

subsection \<open>The version\<close>

text \<open>
  C25. \<open>unity_version\<close> reads the first of the three candidate files that is present and has a version in its first
  4 MiB, and returns the leftmost version there, the longest one at its position; it returns nothing exactly
  when no candidate has one, and raises when reading that candidate raises. The versions are \<open>20\<close> and two
  digits, two numbers behind dots, one of the letters a, b, f, p and a number.
\<close>

theorem unity_version_exact:
  assumes "zip_file z fs path = Inr entries"
  shows "case find (\<lambda>c. \<not> no_version entries c) version_candidates of
     None \<Rightarrow> unity_version z fs path = Inr None
   | Some c \<Rightarrow> (\<exists>x. zip_read entries c = Inl x \<and> unity_version z fs path = Inl x)
       \<or> (\<exists>d y1 y2 a b k n. zip_read entries c = Inr d
            \<and> leftmost_longest UNITY_VERSION_RE (take version_window d) ([50, 48, y1, y2, 46] @ a @ [46] @ b @ [k] @ n)
            \<and> {y1, y2} \<union> set a \<union> set b \<union> set n \<subseteq> set digit_bytes \<and> a \<noteq> [] \<and> b \<noteq> [] \<and> n \<noteq> [] \<and> k \<in> {97, 98, 102, 112}
            \<and> unity_version z fs path = Inr (Some (map unat ([50, 48, y1, y2, 46] @ a @ [46] @ b @ [k] @ n))))"
proof -
  have u: "unity_version z fs path = find_version entries version_candidates" by (simp add: unity_version_def assms)
  have shape: "\<exists>y1 y2 a b k n. m = [50, 48, y1, y2, 46] @ a @ [46] @ b @ [k] @ n
      \<and> {y1, y2} \<union> set a \<union> set b \<union> set n \<subseteq> set digit_bytes \<and> a \<noteq> [] \<and> b \<noteq> [] \<and> n \<noteq> [] \<and> k \<in> {97, 98, 102, 112}"
    if "leftmost_longest UNITY_VERSION_RE s m" for s m
  proof -
    have "m \<in> rx_lang UNITY_VERSION_RE" using that by (rule leftmost_longestE)
    then show ?thesis unfolding version_lang by (elim exE conjE) (intro exI conjI, assumption, auto)
  qed
  show ?thesis
  proof (cases "find (\<lambda>c. \<not> no_version entries c) version_candidates")
    case None
    then show ?thesis using find_version_cases[of entries version_candidates] u by simp
  next
    case (Some c)
    then consider x where "zip_read entries c = Inl x" "unity_version z fs path = Inl x"
      | d m where "zip_read entries c = Inr d" "leftmost_longest UNITY_VERSION_RE (take version_window d) m"
          "unity_version z fs path = Inr (Some (map unat m))"
      using find_version_cases[of entries version_candidates] u by auto
    then show ?thesis
    proof cases
      case 1
      then show ?thesis by (simp add: Some)
    next
      case 2
      obtain y1 y2 a b k n where "m = [50, 48, y1, y2, 46] @ a @ [46] @ b @ [k] @ n"
        "{y1, y2} \<union> set a \<union> set b \<union> set n \<subseteq> set digit_bytes" "a \<noteq> []" "b \<noteq> []" "n \<noteq> []" "k \<in> {97, 98, 102, 112}"
        using shape[OF 2(2)] by blast
      then show ?thesis using 2 unfolding Some option.case by blast
    qed
  qed
qed

lemma demo_version: "unity_version demo_zip demo_fs (lit ''a.apk'') = Inr (Some (lit ''2021.3.45f1''))"
proof -
  let ?d = "[0, 50, 48, 50, 49, 46, 51, 46, 52, 53, 102, 49, 0] :: bytes"
  have "zip_read demo_entries (lit ''assets/bin/Data/data.unity3d'') = Inr ?d"
    by (simp add: zip_read_def demo_entries_def demo_entry_def)
  moreover have "take version_window ?d = ?d" by (simp add: version_window_def)
  moreover have "rx_search UNITY_VERSION_RE ?d = Some [50, 48, 50, 49, 46, 51, 46, 52, 53, 102, 49]"
    by (simp add: UNITY_VERSION_RE_def digit_bytes_def)
  moreover have "lit ''2021.3.45f1'' = map unat ([50, 48, 50, 49, 46, 51, 46, 52, 53, 102, 49] :: bytes)" by (simp add: lit_simps)
  ultimately show ?thesis
    by (simp add: unity_version_def demo_zip_file version_candidates_def namelist_def demo_entries_def demo_entry_def)
qed

lemma unity_version_exact_witness:
  "unity_version demo_zip demo_fs (lit ''a.apk'') = Inr (Some (lit ''2021.3.45f1''))
   \<and> (\<exists>c. find (\<lambda>c. \<not> no_version demo_entries c) version_candidates = Some c)"
  using unity_version_exact[OF demo_zip_file] demo_version by (auto split: option.splits)

subsection \<open>The report\<close>

text \<open>
  C27. The parts of the report agree with the members of the archive and with each other: the ABIs are sorted without
  repetition, an ABI is listed exactly when \<open>native_libs\<close> of it is not empty, the ARM64 libraries are sorted by
  name and are the members \<open>lib/arm64-v8a/<name>.so\<close> with their sizes, and the metadata entries are the members
  with that suffix, in order.
\<close>

theorem apk_report_exact:
  assumes "zip_file z fs path = Inr entries" and "apk_report z fs path = Inr r" and "47 \<notin> set abi"
  shows "sorted (a_abis r) \<and> distinct (a_abis r)
    \<and> (\<exists>libs. native_libs z fs path abi = Inr libs \<and> (abi \<in> set (a_abis r)) = (libs \<noteq> []))
    \<and> native_libs z fs path (lit ''arm64-v8a'') = Inr (a_arm64_libs r) \<and> sorted (map l_name (a_arm64_libs r))
    \<and> mset (map (\<lambda>l. (l_path l, l_size l)) (a_arm64_libs r))
        = mset (filter (\<lambda>(n, s). starts_with n (lit ''lib/arm64-v8a/'') \<and> ends_with n so_suffix)
                  (map (\<lambda>i. (z_filename i, z_file_size i)) entries))
    \<and> (\<forall>l \<in> set (a_arm64_libs r). l_path l = lit ''lib/arm64-v8a/'' @ l_name l)
    \<and> a_metadata r = filter (\<lambda>(n, s). ends_with n metadata_suffix) (map (\<lambda>i. (z_filename i, z_file_size i)) entries)
    \<and> unity_version z fs path = Inr (a_unity_version r)"
proof -
  let ?arm = "lit ''arm64-v8a''"
  let ?libs = "\<lambda>abi. sort_key l_name (map (\<lambda>i. \<lparr>l_name = drop (length (lit ''lib/'' @ abi @ lit ''/'')) (z_filename i),
      l_size = z_file_size i, l_path = z_filename i\<rparr>)
     (filter (\<lambda>i. starts_with (z_filename i) (lit ''lib/'' @ abi @ lit ''/'') \<and> ends_with (z_filename i) so_suffix) entries))"
  have libs: "native_libs z fs path abi = Inr (?libs abi)" for abi by (simp add: native_libs_def assms(1) Let_def)
  have prefix: "lit ''lib/'' @ ?arm @ lit ''/'' = lit ''lib/arm64-v8a/''" by (simp flip: lit_append)
  have r: "a_abis r = sorted_set (concat (map abi_of (namelist entries)))" "a_arm64_libs r = ?libs ?arm"
    "a_metadata r = map (\<lambda>i. (z_filename i, z_file_size i)) (filter (\<lambda>i. ends_with (z_filename i) metadata_suffix) entries)"
    "unity_version z fs path = Inr (a_unity_version r)"
    using assms(2) by (auto simp: apk_report_def result_iff abis_def libs metadata_entries_def assms(1))
  have "abi \<in> set (a_abis r) \<longleftrightarrow> (\<exists>i \<in> set entries. abi \<in> set (abi_of (z_filename i)))"
    by (auto simp: r namelist_def)
  also have "\<dots> \<longleftrightarrow> ?libs abi \<noteq> []"
  proof -
    have "sort_key l_name xs = [] \<longleftrightarrow> xs = []" for xs :: "native_lib list" by (metis set_sort set_empty)
    then show ?thesis by (simp add: abi_of_prefix[OF assms(3)] filter_empty_conv)
  qed
  finally have agree: "(abi \<in> set (a_abis r)) = (?libs abi \<noteq> [])" .
  have pairs: "mset (map (\<lambda>l. (l_path l, l_size l)) (a_arm64_libs r))
        = mset (filter (\<lambda>(n, s). starts_with n (lit ''lib/arm64-v8a/'') \<and> ends_with n so_suffix)
                  (map (\<lambda>i. (z_filename i, z_file_size i)) entries))"
    unfolding r(2) prefix by (simp add: filter_map comp_def image_mset.compositionality)
  have paths: "l_path l = lit ''lib/arm64-v8a/'' @ l_name l" if "l \<in> set (a_arm64_libs r)" for l
    using that unfolding r(2) prefix by (auto simp: starts_with_append)
  have "sorted (a_abis r) \<and> distinct (a_abis r)" by (simp add: r(1))
  moreover have "native_libs z fs path ?arm = Inr (a_arm64_libs r)" by (simp only: libs r(2))
  moreover have "sorted (map l_name (a_arm64_libs r))" by (simp only: r(2) sorted_sort_key)
  moreover have "a_metadata r = filter (\<lambda>(n, s). ends_with n metadata_suffix) (map (\<lambda>i. (z_filename i, z_file_size i)) entries)"
    by (simp add: r(3) filter_map comp_def)
  ultimately show ?thesis using agree libs[of abi] pairs paths r(4) by blast
qed

lemma apk_report_exact_witness:
  "\<exists>r. apk_report demo_zip demo_fs (lit ''a.apk'') = Inr r \<and> sorted (a_abis r) \<and> a_arm64_libs r \<noteq> []
    \<and> lit ''arm64-v8a'' \<in> set (a_abis r)"
proof -
  let ?f = "lit ''a.apk''" and ?arm = "lit ''arm64-v8a''"
  have v: "unity_version demo_zip demo_fs ?f = Inr (Some (lit ''2021.3.45f1''))" by (rule demo_version)
  obtain r where r: "apk_report demo_zip demo_fs ?f = Inr r"
    by (simp add: apk_report_def v abis_def native_libs_def metadata_entries_def demo_zip_file Let_def)
      (simp add: demo_fs_def read_bytes_def)
  have arm: "47 \<notin> set ?arm" by (simp add: lit_simps)
  note report = apk_report_exact[OF demo_zip_file r arm]
  have "mset (map (\<lambda>l. (l_path l, l_size l)) (a_arm64_libs r)) = {#(lit ''lib/arm64-v8a/libil2cpp.so'', 2)#}"
    using report by (simp add: demo_entries_def demo_entry_def so_suffix_def starts_with_def ends_with_def lit_simps)
  then have "a_arm64_libs r \<noteq> []" by auto
  then show ?thesis using r report by auto
qed

end
