(* ===== verification/Cli.thy ===== *)
theory Cli
  imports Phase2 Phase4 Shimgen Apk
begin

section \<open>The command line (\<open>cli.py\<close>)\<close>

text \<open>
  \<open>main\<close>: the subcommands and their arguments, the call each makes, and what \<open>dump\<close> prints. Of \<open>argparse\<close> the model
  covers argument lists in which every word that starts with a dash is an option of the subcommand: written in full,
  abbreviated to a prefix no other option has, or joined to its value by an equals sign. The others (a bare \<open>--\<close>,
  unknown options, letters behind \<open>-h\<close>, words with a dash that argparse takes for positionals) are \<open>Not_Covered\<close>, and \<open>main\<close>
  has no result on them. The reports become JSON values with the keys of the dictionaries of the source, in their
  order, the constant notes included.
\<close>

subsection \<open>Reports as dictionaries\<close>

definition j_str :: "pystr list \<Rightarrow> json" where
  "j_str xs = J_Arr (map J_Str xs)"

definition j_counts :: "(pystr \<times> int) list \<Rightarrow> json" where
  "j_counts kvs = J_Obj (map (\<lambda>(k, n). (k, J_Int n)) kvs)"

definition j_obj :: "(string \<times> json) list \<Rightarrow> json" where
  "j_obj kvs = J_Obj (map (\<lambda>(k, v). (lit k, v)) kvs)"

definition apk_json :: "apk_report \<Rightarrow> json" where
  "apk_json r = j_obj
     [(''apk'', J_Str (a_apk r)), (''size'', J_Int (a_size r)),
      (''unity_version'', case a_unity_version r of None \<Rightarrow> J_Null | Some v \<Rightarrow> J_Str v),
      (''abis'', j_str (a_abis r)),
      (''arm64_libs'', J_Arr (map (\<lambda>l. j_obj [(''name'', J_Str (l_name l)), (''size'', J_Int (l_size l)),
                                              (''path'', J_Str (l_path l))]) (a_arm64_libs r))),
      (''metadata'', J_Arr (map (\<lambda>(p, s). j_obj [(''path'', J_Str p), (''size'', J_Int s)]) (a_metadata r)))]"

definition elf_json :: "elf_report \<Rightarrow> json" where
  "elf_json r = j_obj
     [(''source'', J_Str (rep_source r)), (''elf64'', J_Bool (rep_elf64 r)), (''machine'', J_Int (rep_machine r)),
      (''is_aarch64'', J_Bool (rep_is_aarch64 r)), (''type'', J_Int (rep_type r)),
      (''is_shared_object'', J_Bool (rep_is_shared_object r)), (''entry'', J_Str (rep_entry r)),
      (''program_headers'', J_Int (rep_program_headers r)), (''sections'', J_Int (rep_sections r)),
      (''needed'', j_str (rep_needed r)), (''undefined_import_count'', J_Int (rep_undefined_import_count r)),
      (''android_specific_import_count'', J_Int (rep_android_specific_import_count r)),
      (''android_specific_imports'', j_str (rep_android_specific_imports r)),
      (''relocations'', j_counts (rep_relocations r)),
      (''unknown_relocation_types'', j_str (rep_unknown_relocation_types r)),
      (''phase1_candidate'', J_Bool (rep_phase1_candidate r))]"

definition patched_json :: "patched_counts \<Rightarrow> json" where
  "patched_json n = j_obj
     [(''relative'', J_Int (n_relative n)), (''internal_abs64'', J_Int (n_abs64 n)),
      (''internal_glob_dat'', J_Int (n_glob_dat n)), (''internal_jump_slot'', J_Int (n_jump_slot n))]"

definition note2 :: pystr where
  "note2 = lit ''Phase 2 output is not runnable yet: external imports, Darwin ABI ''
     @ lit ''shims, dyld import metadata, code signing, and Unity runtime ''
     @ lit ''integration are intentionally not implemented.''"

definition report2_json :: "p2_report \<Rightarrow> json" where
  "report2_json r = j_obj
     [(''output'', J_Str (r2_output r)), (''output_size'', J_Int (r2_output_size r)),
      (''header_vm'', J_Str (r2_header_vm r)), (''elf_slide'', J_Str (r2_elf_slide r)),
      (''segments'', J_Arr (map (\<lambda>x. j_obj
         [(''name'', J_Str (sr_name x)), (''vmaddr'', J_Str (sr_vmaddr x)), (''vmsize'', J_Str (sr_vmsize x)),
          (''fileoff'', J_Str (sr_fileoff x)), (''filesize'', J_Str (sr_filesize x)),
          (''protection'', J_Int (sr_protection x)), (''elf_vaddr'', J_Str (sr_elf_vaddr x))]) (r2_segments r))),
      (''patched'', patched_json (r2_patched r)), (''patched_total'', J_Int (r2_patched_total r)),
      (''unresolved_relocations'', J_Int (r2_unresolved_relocations r)),
      (''unresolved_symbol_count'', J_Int (r2_unresolved_symbol_count r)),
      (''unresolved_symbols'', j_str (r2_unresolved_symbols r)), (''note'', J_Str note2)]"

definition note3 :: pystr where
  "note3 = lit ''dyld rebase/bind metadata is emitted, but the dylib is still ''
     @ lit ''not runnable without libbionic_shim.dylib, code signing, ''
     @ lit ''constructor/unwind handling, and Unity integration.''"

definition report3_fields :: "('a p3_report_scheme) \<Rightarrow> pystr \<Rightarrow> (string \<times> json) list" where
  "report3_fields r note =
     [(''output'', J_Str (r3_output r)), (''output_size'', J_Int (r3_output_size r)),
      (''image_base'', J_Str (r3_image_base r)), (''elf_slide'', J_Str (r3_elf_slide r)),
      (''patched'', patched_json (r3_patched r)), (''rebase_count'', J_Int (r3_rebase_count r)),
      (''rebase_stream_size'', J_Int (r3_rebase_stream_size r)), (''bind_count'', J_Int (r3_bind_count r)),
      (''bind_stream_size'', J_Int (r3_bind_stream_size r)),
      (''shim_install_name'', J_Str (r3_shim_install_name r)),
      (''shim_symbol_count'', J_Int (r3_shim_symbol_count r)), (''shim_symbols'', j_str (r3_shim_symbols r)),
      (''shim_imports'', J_Arr (map (\<lambda>i. j_obj
         [(''symbol'', J_Str (si_symbol i)), (''shim_symbol'', J_Str (si_shim_symbol i)),
          (''symbol_type'', J_Str (si_symbol_type i)), (''relocation_count'', J_Int (si_relocation_count i))])
         (r3_shim_imports r))),
      (''segments'', J_Arr (map (\<lambda>seg. j_obj
         [(''name'', J_Str (gr_name seg)), (''vmaddr'', J_Str (gr_vmaddr seg)), (''vmsize'', J_Str (gr_vmsize seg)),
          (''fileoff'', J_Str (gr_fileoff seg)), (''filesize'', J_Str (gr_filesize seg)),
          (''data_addr'', J_Str (gr_data_addr seg)), (''data_fileoff'', J_Str (gr_data_fileoff seg))])
         (r3_segments r))),
      (''linkedit'', j_obj [(''vmaddr'', J_Str (r3_linkedit_vmaddr r)), (''fileoff'', J_Str (r3_linkedit_fileoff r)),
                           (''size'', J_Int (r3_linkedit_size r))]),
      (''note'', J_Str note)]"

definition report3_json :: "p3_report \<Rightarrow> json" where
  "report3_json r = j_obj (report3_fields r note3)"

definition note4 :: pystr where
  "note4 = lit ''Phase 4 has Mach-O exports, dyld constructors, and unwind ''
     @ lit ''section metadata. It still requires a semantically sufficient ''
     @ lit ''Bionic shim and does not yet provide the Unity Android player.''"

text \<open>\<open>update\<close> keeps the place of a key that is there and appends the others.\<close>

definition report4_json :: "p4_report \<Rightarrow> json" where
  "report4_json r = j_obj (report3_fields r note4 @
     [(''export_count'', J_Int (r4_export_count r)), (''export_stream_size'', J_Int (r4_export_stream_size r)),
      (''export_offset'', J_Str (r4_export_offset r)), (''has_il2cpp_init'', J_Bool (r4_has_il2cpp_init r)),
      (''init_array_entries'', J_Int (r4_init_array_entries r)),
      (''fini_array_entries'', J_Int (r4_fini_array_entries r)), (''eh_frame_size'', J_Int (r4_eh_frame_size r)),
      (''phase'', J_Int (r4_phase r))])"

subsection \<open>Printing\<close>

text \<open>
  \<open>repr\<close> of a string. Which characters from 127 on are printable is a table of the Unicode database, the parameter
  \<open>printable\<close>.
\<close>

definition hex_digits :: "nat \<Rightarrow> nat \<Rightarrow> pystr" where
  "hex_digits k n = map (\<lambda>i. digit_char (n div 16 ^ i mod 16)) (rev [0..<k])"

definition repr_char :: "(nat \<Rightarrow> bool) \<Rightarrow> nat \<Rightarrow> nat \<Rightarrow> pystr" where
  "repr_char printable quote c =
     (if c = quote \<or> c = 92 then [92, c]
      else if c = 9 then [92, 116] else if c = 10 then [92, 110] else if c = 13 then [92, 114]
      else if 32 \<le> c \<and> c < 127 \<or> 127 < c \<and> printable c then [c]
      else if c < 0x100 then [92, 120] @ hex_digits 2 c
      else if c < 0x10000 then [92, 117] @ hex_digits 4 c
      else [92, 85] @ hex_digits 8 c)"

definition py_repr :: "(nat \<Rightarrow> bool) \<Rightarrow> pystr \<Rightarrow> pystr" where
  "py_repr printable s =
     (let quote = (if 39 \<in> set s \<and> 34 \<notin> set s then 34 else 39)
      in [quote] @ concat (map (repr_char printable quote) s) @ [quote])"

fun join_comma :: "pystr list \<Rightarrow> pystr" where
  "join_comma [] = []"
| "join_comma [x] = x"
| "join_comma (x # xs) = x @ lit '', '' @ join_comma xs"

fun value_repr :: "(nat \<Rightarrow> bool) \<Rightarrow> json \<Rightarrow> pystr" where
  "value_repr pr J_Null = lit ''None''"
| "value_repr pr (J_Bool b) = (if b then lit ''True'' else lit ''False'')"
| "value_repr pr (J_Int n) = py_dec n"
| "value_repr pr (J_Str s) = py_repr pr s"
| "value_repr pr (J_Arr xs) = lit ''['' @ join_comma (map (value_repr pr) xs) @ lit '']''"
| "value_repr pr (J_Obj kvs) =
     lit ''{'' @ join_comma (map (\<lambda>(k, v). py_repr pr k @ lit '': '' @ value_repr pr v) kvs) @ lit ''}''"

text \<open>\<open>str(v)\<close>, and the text \<open>dump\<close> prints for a report.\<close>

definition value_str :: "(nat \<Rightarrow> bool) \<Rightarrow> json \<Rightarrow> pystr" where
  "value_str pr v = (case v of J_Str s \<Rightarrow> s | _ \<Rightarrow> value_repr pr v)"

definition dump :: "(nat \<Rightarrow> bool) \<Rightarrow> json \<Rightarrow> bool \<Rightarrow> pystr" where
  "dump pr obj as_json =
     (if as_json then json_dumps 0 obj @ [10]
      else case obj of
          J_Obj kvs \<Rightarrow> concat (map (\<lambda>(k, v). k @ lit '': '' @ value_str pr v @ [10]) kvs)
        | _ \<Rightarrow> value_str pr obj @ [10])"

subsection \<open>Arguments\<close>

record subcommand =
  sc_positionals :: nat
  sc_json :: bool
  sc_values :: "(pystr \<times> pystr) list"

definition json_option :: pystr where
  "json_option = lit ''--json''"

definition install_name_option :: "pystr \<times> pystr" where
  "install_name_option = (lit ''--install-name'', lit ''@rpath/libil2cpp_ported.dylib'')"

definition shim_install_name_option :: "pystr \<times> pystr" where
  "shim_install_name_option = (lit ''--shim-install-name'', lit ''@rpath/libbionic_shim.dylib'')"

definition subcommands :: "(pystr \<times> subcommand) list" where
  "subcommands =
     [(lit ''apk-report'', \<lparr>sc_positionals = 1, sc_json = True, sc_values = []\<rparr>),
      (lit ''elf-report'', \<lparr>sc_positionals = 1, sc_json = True, sc_values = []\<rparr>),
      (lit ''extract'', \<lparr>sc_positionals = 2, sc_json = False, sc_values = []\<rparr>),
      (lit ''macho-smoke'', \<lparr>sc_positionals = 1, sc_json = False, sc_values = []\<rparr>),
      (lit ''translate-phase2'', \<lparr>sc_positionals = 2, sc_json = True, sc_values = [install_name_option]\<rparr>),
      (lit ''translate-phase3'',
         \<lparr>sc_positionals = 2, sc_json = True, sc_values = [shim_install_name_option, install_name_option]\<rparr>),
      (lit ''translate-phase4'',
         \<lparr>sc_positionals = 2, sc_json = True, sc_values = [shim_install_name_option, install_name_option]\<rparr>),
      (lit ''generate-shim'', \<lparr>sc_positionals = 2, sc_json = True, sc_values = []\<rparr>)]"

record args =
  ar_positionals :: "pystr list"
  ar_json :: bool
  ar_values :: "(pystr \<times> pystr) list"

datatype 'a parsed = Parsed 'a | Shows_Help | Usage_Error | Not_Covered

definition help_options :: "pystr list" where
  "help_options = [lit ''-h'', lit ''--help'']"

definition option_words :: "subcommand \<Rightarrow> pystr list" where
  "option_words sc = help_options @ (if sc_json sc then [json_option] else []) @ map fst (sc_values sc)"

definition dashed :: "pystr \<Rightarrow> bool" where
  "dashed w \<longleftrightarrow> starts_with w (lit ''-'')"

text \<open>
  What argparse makes of a word, given the options: one without a dash is a positional; an option is named exactly, or
  by a prefix with two dashes that one option alone has, in each case possibly with a value behind an equals sign.
\<close>

datatype word_kind = Positional | Option_Word pystr "pystr option" | Unresolved

definition cut_equals :: "pystr \<Rightarrow> pystr \<times> pystr option" where
  "cut_equals w =
     (takeWhile (\<lambda>c. c \<noteq> 61) w, case dropWhile (\<lambda>c. c \<noteq> 61) w of [] \<Rightarrow> None | _ # v \<Rightarrow> Some v)"

definition resolve :: "pystr list \<Rightarrow> pystr \<Rightarrow> word_kind" where
  "resolve opts w =
     (if \<not> dashed w then Positional
      else if w \<in> set opts then Option_Word w None
      else if \<not> starts_with w (lit ''--'') then Unresolved
      else (case cut_equals w of (name, given) \<Rightarrow>
              if name \<in> set opts then Option_Word name given
              else if length name \<le> 2 then Unresolved
              else (case filter (\<lambda>opt. starts_with opt name) opts of [opt] \<Rightarrow> Option_Word opt given | _ \<Rightarrow> Unresolved)))"

text \<open>
  The words behind a subcommand, from the left. An option that takes no value must not be given one, and one that takes
  a value must not be followed by an option instead; too few or too many positionals are an error at the end.
\<close>

fun parse_words :: "subcommand \<Rightarrow> args \<Rightarrow> pystr list \<Rightarrow> args parsed" where
  "parse_words sc a [] = (if length (ar_positionals a) = sc_positionals sc then Parsed a else Usage_Error)"
| "parse_words sc a (w # ws) =
     (case resolve (option_words sc) w of
        Unresolved \<Rightarrow> Not_Covered
      | Positional \<Rightarrow> parse_words sc (a\<lparr>ar_positionals := ar_positionals a @ [w]\<rparr>) ws
      | Option_Word opt given \<Rightarrow>
          if opt \<in> set help_options then (if given = None then Shows_Help else Usage_Error)
          else if opt = json_option then (if given = None then parse_words sc (a\<lparr>ar_json := True\<rparr>) ws else Usage_Error)
          else (case given of
                  Some v \<Rightarrow> parse_words sc (a\<lparr>ar_values := AList.update opt v (ar_values a)\<rparr>) ws
                | None \<Rightarrow>
                    (case ws of
                       [] \<Rightarrow> Usage_Error
                     | v # vs \<Rightarrow> if resolve (option_words sc) v = Positional
                                 then parse_words sc (a\<lparr>ar_values := AList.update opt v (ar_values a)\<rparr>) vs
                                 else Usage_Error)))"

definition parse_args :: "pystr list \<Rightarrow> (pystr \<times> args) parsed" where
  "parse_args argv =
     (case argv of
        [] \<Rightarrow> Usage_Error
      | cmd # ws \<Rightarrow>
          (case resolve help_options cmd of
             Unresolved \<Rightarrow> Not_Covered
           | Option_Word opt given \<Rightarrow> if given = None then Shows_Help else Usage_Error
           | Positional \<Rightarrow>
               (case map_of subcommands cmd of
                  None \<Rightarrow> Usage_Error
                | Some sc \<Rightarrow>
                    if \<exists>w \<in> set ws. resolve (option_words sc) w = Unresolved then Not_Covered
                    else (case parse_words sc \<lparr>ar_positionals = [], ar_json = False, ar_values = sc_values sc\<rparr> ws of
                            Parsed a \<Rightarrow> Parsed (cmd, a)
                          | Shows_Help \<Rightarrow> Shows_Help
                          | Usage_Error \<Rightarrow> Usage_Error
                          | Not_Covered \<Rightarrow> Not_Covered))))"

subsection \<open>Dispatch\<close>

text \<open>
  What the program finds around it: the ZIP library, the temporary path, the directory of the templates and the
  table of printable characters.
\<close>

record env =
  e_zip :: zip_lib
  e_tmp :: pystr
  e_templates :: pystr
  e_printable :: "nat \<Rightarrow> bool"

text \<open>A report or an exception, printed.\<close>

definition dumped :: "env \<Rightarrow> ('r \<Rightarrow> json) \<Rightarrow> bool \<Rightarrow> fs \<times> 'r result \<Rightarrow> fs \<times> pystr result" where
  "dumped env to_json as_json res = (case res of (fs, r) \<Rightarrow> (fs, rmap (\<lambda>rep. dump (e_printable env) (to_json rep) as_json) r))"

definition default_prefix :: pystr where
  "default_prefix = lit ''_a2i_''"

definition default_min_ios :: "int \<times> int \<times> int" where
  "default_min_ios = (12, 0, 0)"

definition arg_value :: "args \<Rightarrow> pystr \<Rightarrow> pystr" where
  "arg_value a opt = (case map_of (ar_values a) opt of Some v \<Rightarrow> v | None \<Rightarrow> [])"

definition run_command :: "env \<Rightarrow> fs \<Rightarrow> pystr \<Rightarrow> args \<Rightarrow> fs \<times> pystr result" where
  "run_command env fs cmd a =
     (let arg0 = ar_positionals a ! 0; arg1 = ar_positionals a ! 1;
          install_name = arg_value a (fst install_name_option);
          shim_install_name = arg_value a (fst shim_install_name_option) in
      if cmd = lit ''apk-report'' then
        dumped env apk_json (ar_json a)
          (fs, rbind (apk_init (e_zip env) fs arg0) (\<lambda>_. apk_report (e_zip env) fs arg0))
      else if cmd = lit ''elf-report'' then
        dumped env elf_json (ar_json a) (fs, rbind (read_bytes fs arg0) (\<lambda>d. rbind (parse_elf d arg0) report))
      else if cmd = lit ''extract'' then
        (case apk_init (e_zip env) fs arg0 of
           Inl x \<Rightarrow> (fs, Inl x)
         | Inr _ \<Rightarrow>
             (case extract_arm64 (e_zip env) fs arg0 arg1 of
                (fs', r) \<Rightarrow> (fs', rmap (\<lambda>paths. concat (map (\<lambda>p. p @ [10]) paths)) r)))
      else if cmd = lit ''macho-smoke'' then
        (case build_arm64_macho_skeleton fs arg0 of Inl x \<Rightarrow> (fs, Inl x) | Inr (fs', p) \<Rightarrow> (fs', Inr (p @ [10])))
      else if cmd = lit ''translate-phase2'' then
        dumped env report2_json (ar_json a) (translate_phase2 fs arg0 arg1 install_name default_min_ios)
      else if cmd = lit ''translate-phase3'' then
        dumped env report3_json (ar_json a)
          (translate_phase3 fs arg0 arg1 shim_install_name install_name default_prefix default_min_ios)
      else if cmd = lit ''translate-phase4'' then
        dumped env report4_json (ar_json a)
          (translate_phase4 fs (e_tmp env) arg0 arg1 shim_install_name install_name default_prefix default_min_ios)
      else if cmd = lit ''generate-shim'' then
        dumped env manifest_json (ar_json a) (generate_shim_scaffold (e_templates env) fs arg0 arg1)
      else (fs, Inr []))"

text \<open>
  The outcome of \<open>main\<close>: it prints a text and returns 0, raises, or exits from the argument parser. On an argument list
  the model of the parser does not cover the result is \<open>None\<close>: nothing is said about it here.
\<close>

datatype outcome = Prints pystr | Raises exn | Exits int

definition main :: "env \<Rightarrow> fs \<Rightarrow> pystr list \<Rightarrow> (fs \<times> outcome) option" where
  "main env fs argv =
     (case parse_args argv of
        Not_Covered \<Rightarrow> None
      | Shows_Help \<Rightarrow> Some (fs, Exits 0)
      | Usage_Error \<Rightarrow> Some (fs, Exits 2)
      | Parsed (cmd, a) \<Rightarrow>
          Some (case run_command env fs cmd a of (fs', Inl e) \<Rightarrow> (fs', Raises e) | (fs', Inr text) \<Rightarrow> (fs', Prints text)))"

end
