(* ===== verification/Cli_Props.thy ===== *)
theory Cli_Props
  imports Cli Shim_Correct Apk_Correct Demo
begin

section \<open>The properties of the command line\<close>

text \<open>
  The theorems about \<open>cli.py\<close>: JSON texts are read back, the parser reads every order of the arguments, a command
  with \<open>--json\<close> prints its report, and no command writes outside its output.
\<close>

subsection \<open>JSON\<close>

text \<open>
  C28. \<open>json.dumps(value, indent=2, ensure_ascii=False)\<close> loses nothing: a JSON reader gets every value back from its
  text, also with the newline the manifest and \<open>print\<close> put behind it; so two manifests with the same text are equal.
\<close>

theorem json_roundtrip:
  "json_loads (json_dumps 0 j) = Some j \<and> json_loads (json_dumps 0 j @ [10]) = Some j
   \<and> json_loads (dump pr j True) = Some j \<and> (json_dumps 0 (manifest_json a) = json_dumps 0 (manifest_json b)) = (a = b)"
proof -
  have plain: "json_loads (json_dumps 0 j) = Some j" for j using json_loads_dumps[of "[]" j] by simp
  have nl: "json_loads (json_dumps 0 j @ [10]) = Some j"
    using json_loads_dumps[of "[10]" j] by (simp add: ends_number_def is_digit_def)
  have rec: "record_json x = record_json y \<longleftrightarrow> x = y" for x y by (cases x; cases y) (auto simp: record_json_def)
  have recs: "map record_json xs = map record_json ys \<longleftrightarrow> xs = ys" for xs ys
    by (rule inj_map_eq_map) (simp add: inj_def rec)
  have counts: "map (\<lambda>(c, n). (category_name c, J_Int n)) xs = map (\<lambda>(c, n). (category_name c, J_Int n)) ys \<longleftrightarrow> xs = ys" for xs ys
    by (rule inj_map_eq_map) (auto simp: inj_def)
  have "manifest_json a = manifest_json b \<longleftrightarrow> a = b"
    by (cases a; cases b) (simp add: manifest_json_def recs counts)
  moreover have "json_dumps 0 (manifest_json a) = json_dumps 0 (manifest_json b) \<longleftrightarrow> manifest_json a = manifest_json b"
  proof
    assume "json_dumps 0 (manifest_json a) = json_dumps 0 (manifest_json b)"
    then have "Some (manifest_json a) = Some (manifest_json b)" by (simp only: plain[symmetric])
    then show "manifest_json a = manifest_json b" by simp
  qed simp
  ultimately show ?thesis using plain nl by (simp add: dump_def)
qed

subsection \<open>Arguments\<close>

text \<open>
  How a user may write an option: its name, or any part of it from the start that has at least one letter behind the
  two dashes; no equals sign occurs in it.
\<close>

definition spells :: "subcommand \<Rightarrow> pystr \<Rightarrow> pystr \<Rightarrow> bool" where
  "spells sc w opt \<longleftrightarrow> opt \<in> set (option_words sc) \<and> (w = opt \<or> 2 < length w \<and> starts_with opt w)"

text \<open>
  What a user writes behind a subcommand: positionals, \<open>--json\<close>, and options with their values in the next word or
  behind an equals sign, in any order.
\<close>

datatype word_group = Pos pystr | Json_Flag pystr | Value pystr pystr pystr | Joined pystr pystr pystr

fun group_words :: "word_group \<Rightarrow> pystr list" where
  "group_words (Pos p) = [p]"
| "group_words (Json_Flag w) = [w]"
| "group_words (Value w opt v) = [w, v]"
| "group_words (Joined w opt v) = [w @ lit ''='' @ v]"

fun group_ok :: "subcommand \<Rightarrow> word_group \<Rightarrow> bool" where
  "group_ok sc (Pos p) \<longleftrightarrow> \<not> dashed p"
| "group_ok sc (Json_Flag w) \<longleftrightarrow> sc_json sc \<and> spells sc w json_option"
| "group_ok sc (Value w opt v) \<longleftrightarrow> opt \<in> fst ` set (sc_values sc) \<and> spells sc w opt \<and> \<not> dashed v"
| "group_ok sc (Joined w opt v) \<longleftrightarrow> opt \<in> fst ` set (sc_values sc) \<and> spells sc w opt"

fun add_group :: "word_group \<Rightarrow> args \<Rightarrow> args" where
  "add_group (Pos p) a = a\<lparr>ar_positionals := ar_positionals a @ [p]\<rparr>"
| "add_group (Json_Flag w) a = a\<lparr>ar_json := True\<rparr>"
| "add_group (Value w opt v) a = a\<lparr>ar_values := AList.update opt v (ar_values a)\<rparr>"
| "add_group (Joined w opt v) a = a\<lparr>ar_values := AList.update opt v (ar_values a)\<rparr>"

definition group_positionals :: "word_group list \<Rightarrow> pystr list" where
  "group_positionals gs = concat (map (\<lambda>g. case g of Pos p \<Rightarrow> [p] | _ \<Rightarrow> []) gs)"

definition group_values :: "word_group list \<Rightarrow> (pystr \<times> pystr) list" where
  "group_values gs = concat (map (\<lambda>g. case g of Value w opt v \<Rightarrow> [(opt, v)] | Joined w opt v \<Rightarrow> [(opt, v)] | _ \<Rightarrow> []) gs)"

lemma fold_add_group:
  "ar_positionals (fold add_group gs a) = ar_positionals a @ group_positionals gs"
  "ar_json (fold add_group gs a) = (ar_json a \<or> (\<exists>w. Json_Flag w \<in> set gs))"
  "ar_values (fold add_group gs a) = fold (\<lambda>(opt, v). AList.update opt v) (group_values gs) (ar_values a)"
proof (induction gs arbitrary: a)
  case (Cons g gs)
  { case 1 then show ?case using Cons(1) by (cases g) (simp_all add: group_positionals_def)
  next case 2 then show ?case using Cons(2) by (cases g) auto
  next case 3 then show ?case using Cons(3) by (cases g) (simp_all add: group_values_def) }
qed (simp_all add: group_positionals_def group_values_def)

text \<open>
  The options of every subcommand start with a dash, have no equals sign and differ from each other in the first letter
  behind the dashes, so that an abbreviation names one of them.
\<close>

definition subcommand_ok :: "subcommand \<Rightarrow> bool" where
  "subcommand_ok sc \<longleftrightarrow> distinct (map (take 3) (option_words sc))
     \<and> (\<forall>opt \<in> set (option_words sc). dashed opt \<and> 61 \<notin> set opt \<and> (2 < length opt \<longrightarrow> starts_with opt (lit ''--'')))
     \<and> (\<forall>opt \<in> fst ` set (sc_values sc). opt \<notin> set help_options \<and> opt \<noteq> json_option \<and> 2 < length opt)"

lemma subcommands_ok: "map_of subcommands cmd = Some sc \<Longrightarrow> subcommand_ok sc \<and> \<not> dashed cmd"
proof -
  assume "map_of subcommands cmd = Some sc"
  then have "(cmd, sc) \<in> set subcommands" by (rule map_of_SomeD)
  moreover have "list_all (\<lambda>(cmd, sc). subcommand_ok sc \<and> \<not> dashed cmd) subcommands"
    by (simp add: subcommands_def subcommand_ok_def option_words_def help_options_def json_option_def
        install_name_option_def shim_install_name_option_def dashed_def starts_with_def lit_simps)
  ultimately show ?thesis unfolding list_all_iff by fast
qed

lemma json_not_help: "json_option \<notin> set help_options"
  by (auto simp: help_options_def json_option_def lit_simps)

lemma filter_unique: "distinct xs \<Longrightarrow> x \<in> set xs \<Longrightarrow> P x \<Longrightarrow> (\<And>y. y \<in> set xs \<Longrightarrow> P y \<Longrightarrow> y = x) \<Longrightarrow> filter P xs = [x]"
proof -
  assume d: "distinct xs" "x \<in> set xs" and P: "P x" "\<And>y. y \<in> set xs \<Longrightarrow> P y \<Longrightarrow> y = x"
  have "filter P xs = filter (\<lambda>y. y = x) xs" by (rule filter_cong) (use P in auto)
  also have "\<dots> = [x]" using d by (induction xs) (auto simp: filter_empty_conv)
  finally show ?thesis .
qed

lemma cut_equals_joined: "61 \<notin> set w \<Longrightarrow> cut_equals (w @ 61 # v) = (w, Some v)" and cut_equals_plain: "61 \<notin> set w \<Longrightarrow> cut_equals w = (w, None)"
  by (induction w) (auto simp: cut_equals_def)

text \<open>However an option is spelled, the parser finds it, with the value behind the equals sign if there is one.\<close>

lemma spelled:
  assumes "subcommand_ok sc" and "spells sc w opt"
  shows "61 \<notin> set w" and "dashed w"
    and "w \<notin> set (option_words sc) \<Longrightarrow> filter (\<lambda>q. starts_with q w) (option_words sc) = [opt] \<and> 2 < length w"
    and "w \<in> set (option_words sc) \<Longrightarrow> w = opt" and "2 < length opt \<Longrightarrow> \<exists>r. w = lit ''--'' @ r"
proof -
  let ?ws = "option_words sc"
  have opt: "opt \<in> set ?ws" "dashed opt" "61 \<notin> set opt" "2 < length opt \<longrightarrow> starts_with opt (lit ''--'')"
    and inj: "inj_on (take 3) (set ?ws)" and dist: "distinct ?ws"
    using assms by (auto simp: subcommand_ok_def spells_def distinct_map)
  have take3: "take 3 q = take 3 w" if "starts_with q w" "2 < length w" for q
    using that by (auto simp: starts_with_append)
  have same: "q = opt" if "q \<in> set ?ws" "starts_with q w" "w \<noteq> opt" for q
  proof -
    have w: "starts_with opt w" "2 < length w" using assms(2) that(3) by (auto simp: spells_def)
    show ?thesis by (rule inj_onD[OF inj]) (use take3[OF that(2) w(2)] take3[OF w] that(1) opt(1) in simp_all)
  qed
  have long: "starts_with opt w" "w = opt \<or> 2 < length w" using assms(2) by (auto simp: spells_def starts_with_def)
  then obtain r where r: "opt = w @ r" by (auto simp: starts_with_append)
  show "61 \<notin> set w" using opt(3) by (simp add: r)
  show "dashed w" using opt(2) long(2) r by (cases w) (auto simp: dashed_def starts_with_def lit_simps)
  show "filter (\<lambda>q. starts_with q w) ?ws = [opt] \<and> 2 < length w" if "w \<notin> set ?ws"
  proof -
    have "w \<noteq> opt" using that opt(1) by auto
    then show ?thesis using filter_unique[OF dist opt(1), where P = "\<lambda>q. starts_with q w"] long same by blast
  qed
  show "w \<in> set ?ws \<Longrightarrow> w = opt" using same[of w] by (auto simp: starts_with_def)
  show "2 < length opt \<Longrightarrow> \<exists>r. w = lit ''--'' @ r"
  proof -
    assume "2 < length opt"
    then have "length w > 2" "take 2 opt = lit ''--''" using opt(4) long(2) by (auto simp: starts_with_def lit_simps numeral_eq_Suc)
    then have "take 2 w = lit ''--''" by (simp add: r)
    then show ?thesis by (metis append_take_drop_id)
  qed
qed

lemma resolve_spelled:
  assumes "subcommand_ok sc" and "spells sc w opt"
  shows "resolve (option_words sc) w = Option_Word opt None"
    and "2 < length opt \<Longrightarrow> resolve (option_words sc) (w @ lit ''='' @ v) = Option_Word opt (Some v)"
proof -
  note sp = spelled[OF assms]
  have two: "starts_with w (lit ''--'')" if "w \<noteq> opt"
  proof -
    have "2 < length w" "starts_with opt w" using that assms(2) by (auto simp: spells_def)
    then have "2 < length opt" by (auto simp: starts_with_append)
    then show ?thesis using sp(5) by (auto simp: starts_with_append)
  qed
  show "resolve (option_words sc) w = Option_Word opt None"
  proof (cases "w \<in> set (option_words sc)")
    case True
    then show ?thesis using sp(2,4) by (simp add: resolve_def)
  next
    case False
    then have "w \<noteq> opt" using assms(2) by (auto simp: spells_def)
    then show ?thesis using False sp(2,3) two by (simp add: resolve_def cut_equals_plain[OF sp(1)])
  qed
  assume "2 < length opt"
  then obtain r where r: "w = lit ''--'' @ r" using sp(5) by blast
  have eq: "lit ''='' @ v = 61 # v" by (simp add: lit_simps)
  have "w @ 61 # v \<notin> set (option_words sc)" using assms(1) by (auto simp: subcommand_ok_def)
  moreover have "dashed (w @ 61 # v)" "starts_with (w @ 61 # v) (lit ''--'')" by (simp_all add: r dashed_def starts_with_def lit_simps)
  ultimately show "resolve (option_words sc) (w @ lit ''='' @ v) = Option_Word opt (Some v)"
    unfolding eq resolve_def cut_equals_joined[OF sp(1)]
    using sp(3,4) by (cases "w \<in> set (option_words sc)") simp_all
qed

lemma resolve_positional: "resolve opts p = Positional \<longleftrightarrow> \<not> dashed p"
  by (auto simp: resolve_def split: if_splits prod.splits list.splits)

lemma resolve_option: "resolve opts w = Option_Word opt given \<Longrightarrow> opt \<in> set opts"
proof (simp add: resolve_def split: if_splits prod.splits list.splits)
  fix name assume "filter (\<lambda>opt. starts_with opt name) opts = [opt]"
  then have "opt \<in> set (filter (\<lambda>opt. starts_with opt name) opts)" by simp
  then show "opt \<in> set opts" by (simp only: set_filter mem_Collect_eq)
qed

lemma group_words_resolved:
  assumes "subcommand_ok sc" and "group_ok sc g" and "w \<in> set (group_words g)"
  shows "resolve (option_words sc) w \<noteq> Unresolved"
  using assms resolve_spelled[OF assms(1)]
  by (cases g) (auto simp: resolve_positional[THEN iffD2] subcommand_ok_def)

lemma parse_groups:
  assumes "subcommand_ok sc" and "list_all (group_ok sc) gs"
  shows "parse_words sc a (concat (map group_words gs)) =
    (if length (ar_positionals a) + length (group_positionals gs) = sc_positionals sc
     then Parsed (fold add_group gs a) else Usage_Error)"
  using assms(2)
proof (induction gs arbitrary: a)
  case (Cons g gs)
  note sp = resolve_spelled[OF assms(1)]
  have value_option: "opt \<notin> set help_options" "opt \<noteq> json_option" "2 < length opt" if "opt \<in> fst ` set (sc_values sc)" for opt
    using that assms(1) unfolding subcommand_ok_def by blast+
  show ?case
  proof (cases g)
    case (Pos p)
    then have "resolve (option_words sc) p = Positional" using Cons.prems by (simp add: resolve_positional)
    then show ?thesis using Cons by (simp add: Pos group_positionals_def)
  next
    case (Json_Flag w)
    then show ?thesis using Cons json_not_help sp(1)[of w json_option] by (simp add: group_positionals_def)
  next
    case (Value w opt v)
    then have o: "opt \<in> fst ` set (sc_values sc)" "spells sc w opt" "resolve (option_words sc) v = Positional"
      using Cons.prems by (simp_all add: resolve_positional)
    then show ?thesis using Cons sp(1)[OF o(2)] value_option[OF o(1)] by (simp add: Value group_positionals_def)
  next
    case (Joined w opt v)
    then have o: "opt \<in> fst ` set (sc_values sc)" "spells sc w opt" using Cons.prems by simp_all
    then show ?thesis using Cons sp(2)[OF o(2)] value_option[OF o(1)] by (simp add: Joined group_positionals_def)
  qed
qed (simp add: group_positionals_def)

text \<open>
  C31. The parser reads the words of a subcommand in every order and every spelling: options in full or abbreviated, with
  the value in the next word or behind an equals sign. It accepts them exactly when the number of positionals
  is that of the subcommand, keeps the positionals in order, sets the JSON flag when \<open>--json\<close> occurs, and gives
  each option its last value or its default; any other number of positionals is a usage error.
\<close>

theorem cli_arguments:
  assumes "map_of subcommands cmd = Some sc" and "list_all (group_ok sc) gs"
  shows "parse_args (cmd # concat (map group_words gs)) =
     (if length (group_positionals gs) = sc_positionals sc
      then Parsed (cmd, \<lparr>ar_positionals = group_positionals gs, ar_json = (\<exists>w. Json_Flag w \<in> set gs),
                         ar_values = fold (\<lambda>(opt, v). AList.update opt v) (group_values gs) (sc_values sc)\<rparr>)
      else Usage_Error)
   \<and> (\<forall>opt. map_of (fold (\<lambda>(opt, v). AList.update opt v) (group_values gs) (sc_values sc)) opt =
        (case map_of (rev (group_values gs)) opt of Some v \<Rightarrow> Some v | None \<Rightarrow> map_of (sc_values sc) opt))"
proof -
  have sc: "subcommand_ok sc" "\<not> dashed cmd" using subcommands_ok[OF assms(1)] by simp_all
  let ?a = "\<lparr>ar_positionals = [], ar_json = False, ar_values = sc_values sc\<rparr>"
  have words: "\<not> (\<exists>w \<in> set (concat (map group_words gs)). resolve (option_words sc) w = Unresolved)"
    using group_words_resolved[OF sc(1)] assms(2) by (auto simp: list_all_iff)
  have fields: "fold add_group gs ?a = \<lparr>ar_positionals = group_positionals gs, ar_json = (\<exists>w. Json_Flag w \<in> set gs),
      ar_values = fold (\<lambda>(opt, v). AList.update opt v) (group_values gs) (sc_values sc)\<rparr>"
    using fold_add_group[of gs ?a] by (cases "fold add_group gs ?a") simp
  have newest: "map_of (fold (\<lambda>(opt, v). AList.update opt v) kvs al) opt =
      (case map_of (rev kvs) opt of Some v \<Rightarrow> Some v | None \<Rightarrow> map_of al opt)" for kvs al :: "(pystr \<times> pystr) list" and opt :: pystr
    by (induction kvs arbitrary: al) (auto simp: update_conv' map_add_def split: option.splits)
  have "resolve help_options cmd = Positional" using sc(2) by (simp add: resolve_positional)
  then show ?thesis
    using parse_groups[OF sc(1) assms(2), of ?a] words newest
    by (simp add: parse_args_def assms(1) fields del: group_words.simps)
qed

lemma cli_arguments_witness:
  "parse_args [lit ''translate-phase2'', lit ''--js'', lit ''in'', lit ''--install-name=y'', lit ''--inst'', lit ''x'', lit ''out''] =
     Parsed (lit ''translate-phase2'', \<lparr>ar_positionals = [lit ''in'', lit ''out''], ar_json = True,
       ar_values = [(lit ''--install-name'', lit ''x'')]\<rparr>)"
proof -
  let ?sc = "\<lparr>sc_positionals = 2, sc_json = True, sc_values = [install_name_option]\<rparr>"
  let ?o = "lit ''--install-name''"
  let ?gs = "[Json_Flag (lit ''--js''), Pos (lit ''in''), Joined ?o ?o (lit ''y''), Value (lit ''--inst'') ?o (lit ''x''), Pos (lit ''out'')]"
  have sc: "map_of subcommands (lit ''translate-phase2'') = Some ?sc" by (simp add: subcommands_def)
  have "list_all (group_ok ?sc) ?gs"
    by (simp add: install_name_option_def dashed_def starts_with_def spells_def option_words_def json_option_def lit_simps)
  moreover have "?o @ lit ''='' @ lit ''y'' = lit ''--install-name=y''" by (simp flip: lit_append)
  ultimately show ?thesis
    using cli_arguments[OF sc, of ?gs]
    by (simp add: group_positionals_def group_values_def install_name_option_def)
qed

subsection \<open>Commands\<close>

text \<open>\<open>--json\<close> reaches only the subcommands that have it.\<close>

lemma parse_words_json:
  assumes "subcommand_ok sc"
  shows "parse_words sc a ws = Parsed a' \<Longrightarrow> ar_json a' \<Longrightarrow> ar_json a \<or> sc_json sc"
  using assms
proof (induction sc a ws rule: parse_words.induct)
  case (1 sc a)
  then show ?case by (simp split: if_splits)
next
  case (2 sc a w ws)
  show ?case
  proof (cases "resolve (option_words sc) w")
    case Positional
    then show ?thesis using "2.IH"(1) "2.prems" by simp
  next
    case (Option_Word opt given)
    have "opt \<in> set (option_words sc)" by (rule resolve_option[OF Option_Word])
    then have "opt = json_option \<Longrightarrow> sc_json sc"
      using json_not_help "2.prems"(3) by (auto simp: option_words_def subcommand_ok_def)
    then show ?thesis
      using "2.IH"(2-4)[OF Option_Word] "2.prems" Option_Word
      by (auto split: if_splits option.splits list.splits)
  qed (use "2.prems" in simp)
qed

lemma json_commands:
  assumes "parse_args argv = Parsed (cmd, a)" and "ar_json a"
  shows "cmd \<in> lit ` {''apk-report'', ''elf-report'', ''translate-phase2'', ''translate-phase3'', ''translate-phase4'', ''generate-shim''}"
proof -
  obtain sc ws where sc: "map_of subcommands cmd = Some sc"
    "parse_words sc \<lparr>ar_positionals = [], ar_json = False, ar_values = sc_values sc\<rparr> ws = Parsed a"
    using assms(1) by (auto simp: parse_args_def split: list.splits if_splits option.splits parsed.splits word_kind.splits)
  have "subcommand_ok sc" using subcommands_ok[OF sc(1)] by simp
  then have "sc_json sc" using parse_words_json[OF _ sc(2) assms(2)] by simp
  moreover have "(cmd, sc) \<in> set subcommands" using sc(1) by (rule map_of_SomeD)
  ultimately show ?thesis by (auto simp: subcommands_def)
qed

text \<open>The report a command prints, as a JSON value.\<close>

definition command_report :: "env \<Rightarrow> fs \<Rightarrow> pystr \<Rightarrow> args \<Rightarrow> fs \<times> json result" where
  "command_report env fs cmd a =
     (let arg0 = ar_positionals a ! 0; arg1 = ar_positionals a ! 1; install = arg_value a (lit ''--install-name'');
          shim = arg_value a (lit ''--shim-install-name'') in
      if cmd = lit ''apk-report'' then (fs, rbind (apk_init (e_zip env) fs arg0) (\<lambda>_. rmap apk_json (apk_report (e_zip env) fs arg0)))
      else if cmd = lit ''elf-report'' then (fs, rbind (read_bytes fs arg0) (\<lambda>d. rbind (parse_elf d arg0) (\<lambda>e. rmap elf_json (report e))))
      else if cmd = lit ''translate-phase2'' then apsnd (rmap report2_json) (translate_phase2 fs arg0 arg1 install (12, 0, 0))
      else if cmd = lit ''translate-phase3'' then apsnd (rmap report3_json) (translate_phase3 fs arg0 arg1 shim install (lit ''_a2i_'') (12, 0, 0))
      else if cmd = lit ''translate-phase4'' then
        apsnd (rmap report4_json) (translate_phase4 fs (e_tmp env) arg0 arg1 shim install (lit ''_a2i_'') (12, 0, 0))
      else apsnd (rmap manifest_json) (generate_shim_scaffold (e_templates env) fs arg0 arg1))"

lemma rmap_rmap: "rmap f (rmap g r) = rmap (\<lambda>x. f (g x)) r"
  by (cases r) simp_all

lemma rmap_rbind: "rmap f (rbind m g) = rbind m (\<lambda>x. rmap f (g x))"
  by (cases m) simp_all

lemma run_command_report:
  assumes "cmd \<in> lit ` {''apk-report'', ''elf-report'', ''translate-phase2'', ''translate-phase3'', ''translate-phase4'', ''generate-shim''}"
  shows "run_command env fs cmd a = apsnd (rmap (\<lambda>j. dump (e_printable env) j (ar_json a))) (command_report env fs cmd a)"
  using assms
  by (elim imageE) (auto simp: run_command_def command_report_def Let_def dumped_def rmap_rmap rmap_rbind install_name_option_def
      shim_install_name_option_def default_prefix_def default_min_ios_def apsnd_def map_prod_def split: prod.splits)

text \<open>
  C30. With \<open>--json\<close> a command prints the text of its report and nothing else: a JSON reader gets from the output the
  dictionary the called function returned, with the files it left; when the function raises, nothing is printed.
\<close>

theorem cli_report:
  assumes "parse_args argv = Parsed (cmd, a)" and "ar_json a"
  shows "case command_report env fs cmd a of
     (fs', Inl e) \<Rightarrow> main env fs argv = Some (fs', Raises e)
   | (fs', Inr j) \<Rightarrow> \<exists>out. main env fs argv = Some (fs', Prints out) \<and> json_loads out = Some j"
proof -
  have run: "run_command env fs cmd a = apsnd (rmap (\<lambda>j. dump (e_printable env) j (ar_json a))) (command_report env fs cmd a)"
    by (rule run_command_report[OF json_commands[OF assms]])
  obtain fs' r where r: "command_report env fs cmd a = (fs', r)" by (cases "command_report env fs cmd a")
  have loads: "json_loads (dump pr j True) = Some j" for pr j
    using json_loads_dumps[of "[10]" j] by (simp add: dump_def ends_number_def is_digit_def)
  show ?thesis using assms run loads by (cases r) (simp_all add: r main_def)
qed

definition demo_env :: env where
  "demo_env = \<lparr>e_zip = \<lparr>is_zip = (\<lambda>_. False), zip_entries = (\<lambda>_. Inl BadZipFile)\<rparr>, e_tmp = lit ''t'', e_templates = lit ''templates'',
     e_printable = (\<lambda>c. 161 \<le> c \<and> c < 256)\<rparr>"

lemma cli_report_witness:
  "\<exists>rep out. report demo_elf = Inr rep
    \<and> main demo_env [[] \<mapsto> demo_file] [lit ''elf-report'', [], lit ''--json''] = Some ([[] \<mapsto> demo_file], Prints out)
    \<and> json_loads out = Some (elf_json rep)"
proof -
  let ?a = "\<lparr>ar_positionals = [[]], ar_json = True, ar_values = []\<rparr>"
  obtain rep where rep: "report demo_elf = Inr rep" using report_total[OF parse_elf_wf(1)[OF demo_parsed]] by blast
  have "\<not> dashed (lit ''elf-report'')" "\<not> dashed []" "dashed json_option"
    by (simp_all add: dashed_def starts_with_def json_option_def lit_simps)
  then have parsed: "parse_args [lit ''elf-report'', [], lit ''--json''] = Parsed (lit ''elf-report'', ?a)"
    using json_not_help by (simp add: parse_args_def subcommands_def option_words_def resolve_def) (simp add: json_option_def)
  have "command_report demo_env [[] \<mapsto> demo_file] (lit ''elf-report'') ?a = ([[] \<mapsto> demo_file], Inr (elf_json rep))"
    by (simp add: command_report_def Let_def read_bytes_def demo_parsed rep)
  then show ?thesis using cli_report[OF parsed, of demo_env "[[] \<mapsto> demo_file]"] rep by simp
qed

subsection \<open>Files\<close>

lemma fst_dumped: "fst (dumped env f js r) = fst r"
  by (simp add: dumped_def split: prod.splits)

text \<open>The paths a command may change: its outputs, by subcommand.\<close>

definition may_write :: "env \<Rightarrow> pystr \<Rightarrow> args \<Rightarrow> pystr \<Rightarrow> bool" where
  "may_write env cmd a p \<longleftrightarrow>
     cmd = lit ''macho-smoke'' \<and> p = ar_positionals a ! 0
     \<or> cmd \<in> {lit ''translate-phase2'', lit ''translate-phase3'', lit ''translate-phase4''} \<and> p = ar_positionals a ! 1
     \<or> cmd = lit ''translate-phase4'' \<and> p = e_tmp env
     \<or> cmd = lit ''extract'' \<and> (\<exists>b. plain_name b \<and> p = in_dir (ar_positionals a ! 1) b)
     \<or> cmd = lit ''generate-shim'' \<and> p \<in> in_dir (ar_positionals a ! 1) ` set scaffold_names"

lemma run_command_confined:
  assumes "\<not> may_write env cmd a p"
  shows "fst (run_command env fs cmd a) p = fs p"
proof -
  have n: "cmd = lit ''macho-smoke'' \<Longrightarrow> p \<noteq> ar_positionals a ! 0"
    "cmd \<in> {lit ''translate-phase2'', lit ''translate-phase3'', lit ''translate-phase4''} \<Longrightarrow> p \<noteq> ar_positionals a ! 1"
    "cmd = lit ''translate-phase4'' \<Longrightarrow> p \<noteq> e_tmp env"
    "cmd = lit ''extract'' \<Longrightarrow> \<forall>b. \<not> (plain_name b \<and> p = in_dir (ar_positionals a ! 1) b)"
    "cmd = lit ''generate-shim'' \<Longrightarrow> p \<notin> in_dir (ar_positionals a ! 1) ` set scaffold_names"
    using assms unfolding may_write_def by blast+
  have unpacked: "cmd = lit ''extract'' \<Longrightarrow> fst (extract_arm64 z fs q (ar_positionals a ! 1)) p = fs p" for z q
    using n(4) by (intro apk.frame) blast
  consider "cmd = lit ''extract''" | "cmd = lit ''macho-smoke''" | "cmd = lit ''translate-phase2''" | "cmd = lit ''translate-phase3''"
    | "cmd = lit ''translate-phase4''" | "cmd = lit ''generate-shim''"
    | "cmd \<notin> lit ` {''extract'', ''macho-smoke'', ''translate-phase2'', ''translate-phase3'', ''translate-phase4'', ''generate-shim''}"
    by auto
  then show ?thesis
  proof cases
    case 1
    obtain fs' r where r: "extract_arm64 (e_zip env) fs (ar_positionals a ! 0) (ar_positionals a ! 1) = (fs', r)"
      by (cases "extract_arm64 (e_zip env) fs (ar_positionals a ! 0) (ar_positionals a ! 1)")
    then have "fs' p = fs p" using unpacked[OF 1, of "e_zip env" "ar_positionals a ! 0"] by simp
    then show ?thesis using 1 r by (simp add: run_command_def Let_def split: sum.splits)
  next
    case 2
    then show ?thesis using n(1)
      by (auto simp: run_command_def Let_def build_arm64_macho_skeleton_def result_iff write_bytes_apply split: sum.splits prod.splits)
  next
    case 3
    then show ?thesis using n(2) by (simp add: run_command_def Let_def fst_dumped p2.frame)
  next
    case 4
    then show ?thesis using n(2) by (simp add: run_command_def Let_def fst_dumped p3.frame)
  next
    case 5
    then show ?thesis using n(2,3) by (simp add: run_command_def Let_def fst_dumped p4.frame)
  next
    case 6
    then show ?thesis using n(5) by (simp add: run_command_def Let_def fst_dumped scaffold.frame)
  next
    case 7
    then show ?thesis by (simp add: run_command_def Let_def fst_dumped)
  qed
qed

text \<open>
  C29. No command changes a file it should not. Whatever subcommand and arguments the parser hands over, the only paths
  whose contents can differ after the dispatch are the output of the translation or of the smoke test, the temporary
  file of Phase 4, plain names below the directory of the extraction, and the sixteen files of the scaffold below its
  directory; on every argument list the model of the parser covers, these are the paths of the parsed arguments, and
  a help or usage exit changes nothing.
\<close>

theorem cli_confined:
  "(fst (run_command env fs cmd a) p = fs p \<or> may_write env cmd a p)
   \<and> (case main env fs argv of
        None \<Rightarrow> parse_args argv = Not_Covered
      | Some (fs', res) \<Rightarrow> fs' p = fs p \<or> (\<exists>cmd a. parse_args argv = Parsed (cmd, a) \<and> may_write env cmd a p))"
proof -
  have run: "fst (run_command env fs cmd a) p = fs p \<or> may_write env cmd a p" for cmd a
    using run_command_confined by blast
  show ?thesis
  proof (cases "parse_args argv")
    case (Parsed ca)
    obtain cmd' a' where ca: "ca = (cmd', a')" by (cases ca)
    obtain fs' r where r: "run_command env fs cmd' a' = (fs', r)" by (cases "run_command env fs cmd' a'")
    then have "fs' p = fs p \<or> may_write env cmd' a' p" using run[of cmd' a'] by simp
    then show ?thesis using run by (cases r) (simp_all add: main_def Parsed ca r)
  qed (use run in \<open>simp_all add: main_def\<close>)
qed

end
