(* ===== verification/Spec2Isabelle.thy ===== *)
theory Spec2Isabelle
  imports Elf_Props Phase4_Props Shim_Props Shim_Phdrs Apk_Props Cli_Props
begin

section \<open>il2cppapk2ios: an ELF to Mach-O translator, verified\<close>

text \<open>
  \<^bold>\<open>The program.\<close> The Python package \<open>src/src/il2cppapk2ios\<close> takes the AArch64 shared object \<open>libil2cpp.so\<close> out of a Unity
  APK and turns it into a Mach-O dylib for iOS, in experiments that build on each other: \<open>apk.py\<close> inspects and
  unpacks the APK; \<open>elf.py\<close> parses the ELF file; \<open>translate.py\<close> (Phase 2) copies its segments into a Mach-O image
  and applies the relocations it can resolve; \<open>phase3.py\<close> writes dyld rebase and bind programs instead of fixed
  values and routes the imports to a shim library; \<open>phase4.py\<close> adds an export trie and rewrites the load commands;
  \<open>shimgen.py\<close> generates the sources of the shim library; \<open>macho.py\<close> emits a smoke-test executable; \<open>cli.py\<close> calls
  them by subcommand and prints their reports. The parts share the parsed ELF object, the load-command builders
  and the file system.

  \<^bold>\<open>How the model is made.\<close> Python's integers are \<open>int\<close>, a byte is \<open>8 word\<close>, \<open>bytes\<close> a list of bytes, a string
  the list of its code points (\<open>pystr\<close>). An exception is a value of \<open>exn\<close> and a fallible function returns
  \<open>exn + 'a\<close>. Objects are records (\<open>elf64\<close>, \<open>phase2\<close>, \<open>phase3\<close>), a method that writes files takes and returns the
  file system, a map from paths to contents. Loops are recursion over the list they iterate, with an accumulator
  record where the loop has state. 64-bit slots are masked as the code masks them, and \<open>struct\<close> formats raise on a
  value outside their width and on an offset outside the buffer (\<open>OverflowError\<close> or \<open>IndexError\<close> when the offset does not
  fit in 64 bits with a sign). Definitions keep the names of the source, with a digit for the phase where two phases
  have a method of the same name.

  \<^bold>\<open>Theories.\<close>
  \<^item> Shared: \<open>Prelude\<close> (exceptions, results, slices, sorted sets, counters), \<open>Slots\<close> (the locale \<open>slot_store\<close>: a
    store of fixed-width slots and what a sequence of patches does to it), \<open>Py_Struct\<close> (\<open>struct\<close>; interprets
    \<open>slot_store\<close> for the 64-bit slots of a \<open>bytearray\<close>), \<open>Py_Text\<close> (UTF-8, ASCII, digits), \<open>Files\<close> (the file system; the
    locale \<open>file_op\<close>: an operation and the paths it may change, interpreted on every command that writes), \<open>Dict\<close>
    (the locale \<open>dict_fill\<close>: a loop that fills a dictionary).
  \<^item> \<open>elf.py\<close>: \<open>Elf\<close> (\<open>parse_elf\<close>, the accessors), \<open>Elf_Tables\<close> (symbols, libraries, relocation counts, report),
    \<open>Elf_Props\<close>.
  \<^item> The relocation rules: \<open>Relocs\<close> (the entries both translators read, and \<open>reloc_patch\<close>, the specification of a
    relocated slot); \<open>Layout\<close> (page arithmetic, protections); \<open>Address_Map\<close> (the locale \<open>address_map\<close> of virtual
    address lookup, the copying of regions).
  \<^item> \<open>macho.py\<close> and the load commands of all phases: \<open>Macho\<close>; \<open>Load_Commands\<close> is a loader's reader for them.
  \<^item> \<open>translate.py\<close>: \<open>Phase2\<close>, with \<open>Phase2_Layout\<close>, \<open>Phase2_Relocs\<close>, \<open>Phase2_Correct\<close> and the theorems in
    \<open>Phase2_Props\<close>.
  \<^item> \<open>phase3.py\<close>: \<open>Leb128\<close> (the encodings; the locale \<open>prefix_codec\<close>), \<open>Fixups\<close> (\<open>_rebase_stream\<close>, \<open>_bind_stream\<close>
    and the machines that run their opcodes), \<open>Phase3\<close>, with \<open>Phase3_Layout\<close>, \<open>Phase3_Relocs\<close>, \<open>Phase3_Correct\<close>,
    \<open>Phase3_Success\<close>, \<open>Phase3_Slots\<close> and the theorems in \<open>Phase3_Props\<close>; \<open>Dyld\<close> is the abstract loader.
  \<^item> \<open>phase4.py\<close>: \<open>Export_Trie\<close>, \<open>Export_Walk\<close> (dyld's symbol lookup over the bytes), \<open>Phase4\<close>, \<open>Phase4_Correct\<close>,
    \<open>Phase4_Props\<close>.
  \<^item> \<open>shimgen.py\<close>: \<open>Shim_Texts\<close> (symbol tables and constant sources), \<open>Shimgen\<close>, \<open>Shim_Correct\<close>, \<open>Shim_Props\<close>,
    \<open>Shim_Phdrs\<close> (the table of program headers).
  \<^item> \<open>apk.py\<close>: \<open>Apk\<close>, \<open>Apk_Correct\<close> (names, the languages of regular expressions, extraction), \<open>Apk_Props\<close>.
  \<^item> \<open>cli.py\<close>: \<open>Json\<close> (\<open>json.dumps\<close> and a reader that inverts it), \<open>Cli\<close> (reports as dictionaries, \<open>dump\<close>, the
    arguments, \<open>main\<close>), \<open>Cli_Props\<close>.
  \<^item> \<open>Demo\<close>, \<open>Demo3\<close>, \<open>Demo4\<close>: one small shared object, evaluated once, on which the witnesses apply the theorems.

  \<^bold>\<open>What the theorems show.\<close>
  \<^item> Reading: the parser accepts exactly the files it should and every later query is total on them; strings, headers
    and tables are read back; imports, counts and report are exact.
  \<^item> Phase 2: layout invariants, every byte no relocation touches is the file's, every relocated slot holds the value
    of \<open>reloc_patch\<close>, the header page is read back by a loader, and the conditions under which the translation
    succeeds.
  \<^item> Phase 3 and 4 are refinements of the relocation rules at every load address: after dyld has run the rebase program
    for a distance \<open>d\<close> each slot holds the value of the rules at the moved slide (\<open>phase3_loaded\<close>,
    \<open>phase4_loaded\<close>), it binds the imports the relocations ask for (\<open>phase3_binds\<close>, with the exact condition on
    addends), and Phase 2 and Phase 3 agree (\<open>phases_agree\<close>). Looking a name up in the bytes of the export trie is
    looking it up in the dictionary of exports (\<open>export_trie_lookup\<close>, \<open>phase4_exports\<close>).
  \<^item> The shim: the manifest lists the imports \<open>elf.py\<close> reports and covers every name Phase 3 binds but the bare prefix of
    an unnamed symbol, and the generated assembly defines the direct and trap imports of the manifest and nothing else.
  \<^item> The APK: extraction stays inside its directory whatever the archive says; the version is the leftmost longest
    match of the regular expression; the queries agree.
  \<^item> The command line: what \<open>--json\<close> prints is read back as the report, arguments may come in any order and spelling,
    and no command with whatever arguments writes outside its output (\<open>cli_confined\<close>).
  \<^item> Files: on failure the translators leave the file system as it was, on success they change the output only.

  \<^bold>\<open>Bounds and fuel.\<close> \<open>_build_export_trie\<close> repeats the layout of the trie for at most 32 rounds and
  raises when the last one still moved a node; \<open>layout_rounds\<close> is that loop with its bound, so no fuel is added. \<open>log2_int\<close> has fuel 64, enough for every 64-bit section
  alignment. Everything else is structural recursion or a \<open>function\<close> with a termination proof.

  \<^bold>\<open>Parameters.\<close> The ZIP format of \<open>zipfile\<close> (\<open>zip_lib\<close>: whether a file is an archive, its members and what reading one
  returns or raises), the temporary path \<open>tempfile\<close> chooses, which characters Unicode calls printable (for \<open>repr\<close>),
  and the contents of the C templates the package ships, which are files of the file system. dyld and the loader are written from the documented Mach-O format, as
  the specification the output is judged by; no theorem assumes anything of them.

  \<^bold>\<open>Not modelled.\<close> Directories, permissions and other failures of the operating system, and what \<open>pathlib\<close> does to
  the spelling of a path (a path is a key of the file system); an APK that the extraction itself overwrites while it
  is open; Python's recursion limit, which a symbol name of about a thousand characters would reach in
  \<open>_build_export_trie\<close>; running out of memory, where the addresses or sizes of a file ask for an image larger than the
  machine holds; the argument lists with a bare double dash, an unknown option, letters behind \<open>-h\<close> or a word with a dash
  that \<open>argparse\<close> takes for a positional (\<open>main\<close> has the result \<open>None\<close> on them: nothing is claimed), and the help and usage
  texts; the encoding of the terminal; the C and
  assembly templates themselves, the iOS host application and the scripts, which are in other languages.
\<close>

end
